(* ===== verification/Kahi_Prelude.thy ===== *)
theory Kahi_Prelude
  imports Main "HOL-Library.Word" "HOL-Library.Sublist" "HOL-Library.AList"
    "HOL-Library.List_Lexorder" "HOL-Library.Char_ord" "HOL-Library.Multiset"
begin

text \<open>
  Shared vocabulary of the development: the Go integers and strings, and what the
  program uses of the Go standard library (\<open>strings\<close>, \<open>strconv\<close>, \<open>sort\<close>).

  \<^item> A Go \<open>string\<close> or \<open>[]byte\<close> is a HOL \<open>string\<close>: a list of 8-bit characters,
    so lengths count bytes as \<open>len\<close> does.  Comparison of strings is bytewise
    (\<open>List_Lexorder\<close> over \<open>Char_ord\<close>).
  \<^item> \<open>TrimSpace\<close> and \<open>Fields\<close> know the UTF-8 encodings of every Unicode space; case
    mapping (\<open>ToUpper\<close>, \<open>ToLower\<close>) is the ASCII mapping and leaves other bytes alone.
  \<^item> A Go \<open>map\<close> that the program iterates is an association list whose order stands
    for the order in which one \<open>range\<close> visits it; theorems quantify over every list,
    hence over every order.  A map that is only looked up is a HOL map.
  \<^item> A Go \<open>error\<close> is a \<open>string option\<close> (its message), or a constructor of an error type.
\<close>

named_theorems kahi_simps \<open>defining equations of the small operations of the model\<close>
named_theorems kahi_inv \<open>preservation of the model's invariants\<close>

section \<open>Integers\<close>

text \<open>\<open>i64\<close> is the two's complement reading of the low 64 bits of a mathematical result.\<close>

definition i64 :: "int \<Rightarrow> int" where
  "i64 x = (x + 2 ^ 63) mod 2 ^ 64 - 2 ^ 63"

lemma i64_id: "- (2 ^ 63) \<le> x \<Longrightarrow> x < 2 ^ 63 \<Longrightarrow> i64 x = x"
  by (simp add: i64_def)

lemma i64_lower: "- (2 ^ 63) \<le> i64 x"
  by (simp add: i64_def)

lemma i64_upper: "i64 x < 2 ^ 63"
  using pos_mod_bound [of "2 ^ 64 :: int" "x + 2 ^ 63"] by (simp add: i64_def)

lemma i64_word: "i64 x = sint (word_of_int x :: 64 word)"
  by (simp add: i64_def sint_sbintrunc' signed_take_bit_eq_take_bit_shift take_bit_eq_mod)

lemma i64_high_bits: "i64 (a * 2 ^ 64) = 0"
proof -
  have "(a * 2 ^ 64 + 2 ^ 63) mod 2 ^ 64 = (2 ^ 63 :: int) mod 2 ^ 64"
    by (rule mod_mult_self3)
  then show ?thesis by (simp add: i64_def)
qed

section \<open>Strings\<close>

definition has_prefix :: "string \<Rightarrow> string \<Rightarrow> bool" where
  "has_prefix s p = (take (length p) s = p)"

definition has_suffix :: "string \<Rightarrow> string \<Rightarrow> bool" where
  "has_suffix s p = has_prefix (rev s) (rev p)"

definition trim_prefix :: "string \<Rightarrow> string \<Rightarrow> string" where
  "trim_prefix s p = (if has_prefix s p then drop (length p) s else s)"

definition trim_suffix :: "string \<Rightarrow> string \<Rightarrow> string" where
  "trim_suffix s p = (if has_suffix s p then take (length s - length p) s else s)"

lemma has_prefix_prefix: "has_prefix s p \<longleftrightarrow> prefix p s"
  by (auto simp: has_prefix_def prefix_def) (metis append_take_drop_id)

lemma has_prefix_length: "has_prefix s p \<Longrightarrow> length p \<le> length s"
  by (auto simp: has_prefix_prefix dest: prefix_length_le)

lemma has_prefix_Nil [simp]: "has_prefix s []"
  by (simp add: has_prefix_def)

lemma has_prefix_append [simp]: "has_prefix (p @ s) p"
  by (simp add: has_prefix_def)

lemma trim_prefix_append [simp]: "trim_prefix (p @ s) p = s"
  by (simp add: trim_prefix_def)

lemma trim_suffix_length: "length (trim_suffix s p) \<le> length s"
  by (simp add: trim_suffix_def)

fun index_of :: "string \<Rightarrow> string \<Rightarrow> nat option" where
  "index_of sub [] = (if sub = [] then Some 0 else None)"
| "index_of sub (c # cs) =
     (if has_prefix (c # cs) sub then Some 0 else map_option Suc (index_of sub cs))"

definition contains :: "string \<Rightarrow> string \<Rightarrow> bool" where
  "contains s sub = (index_of sub s \<noteq> None)"

lemma index_of_bound: "index_of sub s = Some i \<Longrightarrow> i + length sub \<le> length s"
proof (induction s arbitrary: i)
  case (Cons c cs)
  then show ?case
    by (auto split: if_splits dest: has_prefix_length)
qed (auto split: if_splits)

lemma contains_Cons [simp]:
  "contains (c # cs) sub = (has_prefix (c # cs) sub \<or> contains cs sub)"
  by (simp add: contains_def)

lemma contains_Nil [simp]: "contains [] sub = (sub = [])"
  by (simp add: contains_def)

lemma contains_sublist: "contains s sub \<longleftrightarrow> (\<exists>xs ys. s = xs @ sub @ ys)"
proof (induction s)
  case (Cons c cs)
  show ?case
  proof
    assume "contains (c # cs) sub"
    then consider "has_prefix (c # cs) sub" | "contains cs sub" by auto
    then show "\<exists>xs ys. c # cs = xs @ sub @ ys"
    proof cases
      case 1
      then show ?thesis by (metis append_Nil has_prefix_prefix prefix_def)
    next
      case 2
      then show ?thesis using Cons.IH by (metis append_Cons)
    qed
  next
    assume "\<exists>xs ys. c # cs = xs @ sub @ ys"
    then obtain xs ys where eq: "c # cs = xs @ sub @ ys" by blast
    show "contains (c # cs) sub"
    proof (cases xs)
      case Nil
      then have "has_prefix (c # cs) sub" using eq by simp
      then show ?thesis by simp
    next
      case (Cons x xs')
      then have "cs = xs' @ sub @ ys" using eq by simp
      then show ?thesis using Cons.IH by auto
    qed
  qed
qed (auto simp: contains_def)

lemma contains_middle [simp]: "contains (xs @ sub @ ys) sub"
  by (auto simp: contains_sublist)

text \<open>The character classes of ASCII.\<close>

definition in_range :: "nat \<Rightarrow> nat \<Rightarrow> char \<Rightarrow> bool" where
  "in_range a b c \<longleftrightarrow> a \<le> of_char c \<and> of_char c \<le> b"

definition is_lower :: "char \<Rightarrow> bool" where "is_lower = in_range 97 122"
definition is_upper :: "char \<Rightarrow> bool" where "is_upper = in_range 65 90"
definition is_digit :: "char \<Rightarrow> bool" where "is_digit = in_range 48 57"
definition is_letter :: "char \<Rightarrow> bool" where "is_letter c \<longleftrightarrow> is_lower c \<or> is_upper c"

definition upper_char :: "char \<Rightarrow> char" where
  "upper_char c = (let n = (of_char c :: nat) in if 97 \<le> n \<and> n \<le> 122 then char_of (n - 32) else c)"

definition lower_char :: "char \<Rightarrow> char" where
  "lower_char c = (let n = (of_char c :: nat) in if 65 \<le> n \<and> n \<le> 90 then char_of (n + 32) else c)"

definition ToUpper :: "string \<Rightarrow> string" where "ToUpper s = map upper_char s"
definition ToLower :: "string \<Rightarrow> string" where "ToLower s = map lower_char s"

subsection \<open>White space\<close>

definition go_spaces :: "string list" where
  "go_spaces =
     map (\<lambda>c. [c]) [CHR 0x09, CHR 0x0A, CHR 0x0B, CHR 0x0C, CHR 0x0D, CHR 0x20] @
     [[CHR 0xC2, CHR 0x85], [CHR 0xC2, CHR 0xA0], [CHR 0xE1, CHR 0x9A, CHR 0x80]] @
     map (\<lambda>c. [CHR 0xE2, CHR 0x80, c])
       [CHR 0x80, CHR 0x81, CHR 0x82, CHR 0x83, CHR 0x84, CHR 0x85, CHR 0x86, CHR 0x87,
        CHR 0x88, CHR 0x89, CHR 0x8A, CHR 0xA8, CHR 0xA9, CHR 0xAF] @
     [[CHR 0xE2, CHR 0x81, CHR 0x9F], [CHR 0xE3, CHR 0x80, CHR 0x80]]"

fun head_word :: "string list \<Rightarrow> string \<Rightarrow> nat" where
  "head_word [] s = 0"
| "head_word (w # ws) s = (if w \<noteq> [] \<and> has_prefix s w then length w else head_word ws s)"

lemma head_word_le: "head_word ws s \<le> length s"
  by (induction ws) (auto dest: has_prefix_length)

function trim_left_by :: "string list \<Rightarrow> string \<Rightarrow> string" where
  "trim_left_by ws s =
     (let n = head_word ws s in if n = 0 then s else trim_left_by ws (drop n s))"
  by pat_completeness auto
termination
proof (relation "measure (\<lambda>(ws, s). length s)", goal_cases)
  case (2 ws s n)
  then show ?case using head_word_le [of ws s] by auto
qed simp

declare trim_left_by.simps [simp del]

definition TrimSpace :: "string \<Rightarrow> string" where
  "TrimSpace s =
     rev (trim_left_by (map rev go_spaces) (rev (trim_left_by go_spaces s)))"

text \<open>A printable ASCII character is no part of a space, so a string between two of them is trimmed already.\<close>

definition visible :: "char \<Rightarrow> bool" where
  "visible c \<longleftrightarrow> 33 \<le> (of_char c :: nat) \<and> (of_char c :: nat) \<le> 126"

lemma spaces_not_visible:
  "\<forall>w\<in>set go_spaces. w \<noteq> [] \<and> \<not> visible (hd w)" "\<forall>w\<in>set (map rev go_spaces). w \<noteq> [] \<and> \<not> visible (hd w)"
  by (simp_all add: go_spaces_def visible_def)

lemma trim_left_visible:
  assumes "\<forall>w\<in>set ws. w \<noteq> [] \<and> \<not> visible (hd w)" and "s = [] \<or> visible (hd s)"
  shows "trim_left_by ws s = s"
proof -
  have "head_word ws s = 0"
    using assms by (induction ws) (auto simp: has_prefix_prefix prefix_def)
  then show ?thesis by (simp add: trim_left_by.simps)
qed

lemma TrimSpace_id: "s = [] \<or> visible (hd s) \<and> visible (last s) \<Longrightarrow> TrimSpace s = s"
  using trim_left_visible [OF spaces_not_visible(1), of s] trim_left_visible [OF spaces_not_visible(2), of "rev s"]
  by (cases "s = []") (simp_all add: TrimSpace_def hd_rev)

text \<open>\<open>strings.Fields\<close>: the maximal runs of bytes that start no space.\<close>

function fields_aux :: "string \<Rightarrow> string \<Rightarrow> string list" where
  "fields_aux acc [] = (if acc = [] then [] else [rev acc])"
| "fields_aux acc (c # cs) =
     (let n = head_word go_spaces (c # cs)
      in if n = 0 then fields_aux (c # acc) cs
         else (if acc = [] then [] else [rev acc]) @ fields_aux [] (drop n (c # cs)))"
  by pat_completeness auto
termination
proof (relation "measure (\<lambda>(acc, s). length s)", goal_cases)
  case (3 acc c cs n)
  then show ?case using head_word_le [of go_spaces "c # cs"] by auto
qed simp_all

definition Fields :: "string \<Rightarrow> string list" where "Fields s = fields_aux [] s"

subsection \<open>Splitting, joining, replacing\<close>

fun split_on :: "char \<Rightarrow> string \<Rightarrow> string list" where
  "split_on d [] = [[]]"
| "split_on d (c # cs) =
     (if c = d then [] # split_on d cs
      else case split_on d cs of [] \<Rightarrow> [[c]] | w # ws \<Rightarrow> (c # w) # ws)"

fun join :: "string \<Rightarrow> string list \<Rightarrow> string" where
  "join sep [] = []"
| "join sep [w] = w"
| "join sep (w # ws) = w @ sep @ join sep ws"

text \<open>\<open>strings.Cut\<close> at a single character, which is also \<open>SplitN(s, sep, 2)\<close>.\<close>

fun cut :: "char \<Rightarrow> string \<Rightarrow> string \<times> string option" where
  "cut d [] = ([], None)"
| "cut d (c # cs) =
     (if c = d then ([], Some cs) else (let (a, b) = cut d cs in (c # a, b)))"

lemma split_on_not_Nil [simp]: "split_on d s \<noteq> []"
  by (induction s) (auto split: list.splits)

lemma split_on_free [simp]: "d \<notin> set s \<Longrightarrow> split_on d s = [s]"
  by (induction s) auto

lemma split_on_append: "d \<notin> set s \<Longrightarrow> split_on d (s @ d # t) = s # split_on d t"
  by (induction s) auto

lemma split_on_parts: "w \<in> set (split_on d s) \<Longrightarrow> d \<notin> set w"
  by (induction s arbitrary: w) (auto split: if_splits list.splits)

lemma join_split_on: "join [d] (split_on d s) = s"
proof (induction s)
  case (Cons c cs)
  then show ?case
    by (cases "split_on d cs"; cases "tl (split_on d cs)") auto
qed simp

lemma split_on_join:
  "ws \<noteq> [] \<Longrightarrow> (\<And>w. w \<in> set ws \<Longrightarrow> d \<notin> set w) \<Longrightarrow> split_on d (join [d] ws) = ws"
proof (induction "[d]" ws rule: join.induct)
  case (3 w v ws)
  then show ?case by (simp add: split_on_append)
qed simp_all

lemma cut_append: "d \<notin> set a \<Longrightarrow> cut d (a @ d # b) = (a, Some b)"
  by (induction a) auto

lemma cut_shorter: "cut d s = (a, Some r) \<Longrightarrow> length r < length s"
  by (induction s arbitrary: a) (fastforce split: if_splits prod.splits)+

lemma cut_free: "d \<notin> set a \<Longrightarrow> cut d a = (a, None)"
  by (induction a) auto

function replace_all :: "string \<Rightarrow> string \<Rightarrow> string \<Rightarrow> string" where
  "replace_all old new [] = []"
| "replace_all old new (c # cs) =
     (if old \<noteq> [] \<and> has_prefix (c # cs) old
      then new @ replace_all old new (drop (length old) (c # cs))
      else c # replace_all old new cs)"
  by pat_completeness auto
termination
  by (relation "measure (\<lambda>(old, new, s). length s)") auto

text \<open>
  \<open>strings.NewReplacer\<close>: at each position the first pair whose old string matches is
  applied, and the scan goes on after the replaced text.
\<close>

fun first_match :: "(string \<times> string) list \<Rightarrow> string \<Rightarrow> (string \<times> string) option" where
  "first_match [] s = None"
| "first_match ((old, new) # ps) s =
     (if old \<noteq> [] \<and> has_prefix s old then Some (old, new) else first_match ps s)"

lemma first_match_old: "first_match ps s = Some (old, new) \<Longrightarrow> old \<noteq> [] \<and> has_prefix s old"
  by (induction ps s rule: first_match.induct) (auto split: if_splits)

function replacer :: "(string \<times> string) list \<Rightarrow> string \<Rightarrow> string" where
  "replacer ps [] = []"
| "replacer ps (c # cs) =
     (case first_match ps (c # cs) of
        None \<Rightarrow> c # replacer ps cs
      | Some (old, new) \<Rightarrow> new @ replacer ps (drop (length old) (c # cs)))"
  by pat_completeness auto
termination
proof (relation "measure (\<lambda>(ps, s). length s)", goal_cases)
  case (3 ps c cs x old new)
  then show ?case using first_match_old [of ps "c # cs" old new] by auto
qed simp_all

section \<open>Numbers as text\<close>

definition digit_char :: "nat \<Rightarrow> char" where "digit_char d = char_of (48 + d)"

definition digit_val :: "nat \<Rightarrow> char \<Rightarrow> nat option" where
  "digit_val base c =
     (let n = of_char c in if 48 \<le> n \<and> n \<le> 57 \<and> n - 48 < base then Some (n - 48) else None)"

fun nat_digits :: "nat \<Rightarrow> string" where
  "nat_digits n =
     (if n < 10 then [digit_char n] else nat_digits (n div 10) @ [digit_char (n mod 10)])"

declare nat_digits.simps [simp del]

fun digits_val :: "nat \<Rightarrow> nat \<Rightarrow> string \<Rightarrow> nat option" where
  "digits_val base acc [] = Some acc"
| "digits_val base acc (c # cs) =
     (case digit_val base c of None \<Rightarrow> None | Some d \<Rightarrow> digits_val base (acc * base + d) cs)"

text \<open>\<open>strconv.Itoa\<close> (also \<open>%d\<close>), \<open>ParseUint\<close>, \<open>ParseInt\<close> and \<open>Atoi\<close>.\<close>

definition itoa :: "int \<Rightarrow> string" where
  "itoa n = (if n < 0 then CHR ''-'' # nat_digits (nat (- n)) else nat_digits (nat n))"

definition parse_uint :: "nat \<Rightarrow> nat \<Rightarrow> string \<Rightarrow> nat option" where
  "parse_uint base bits s =
     (if s = [] then None
      else case digits_val base 0 s of
        None \<Rightarrow> None
      | Some n \<Rightarrow> if n < 2 ^ bits then Some n else None)"

definition parse_magnitude :: "nat \<Rightarrow> string \<Rightarrow> nat option" where
  "parse_magnitude base s = (if s = [] then None else digits_val base 0 s)"

definition parse_int :: "nat \<Rightarrow> nat \<Rightarrow> string \<Rightarrow> int option" where
  "parse_int base bits s =
     (case s of
        [] \<Rightarrow> None
      | c # cs \<Rightarrow>
          let neg = (c = CHR ''-'');
              body = (if c = CHR ''-'' \<or> c = CHR ''+'' then cs else s)
          in case parse_magnitude base body of
               None \<Rightarrow> None
             | Some n \<Rightarrow>
                 if neg then (if int n \<le> 2 ^ (bits - 1) then Some (- int n) else None)
                 else (if int n < 2 ^ (bits - 1) then Some (int n) else None))"

definition atoi :: "string \<Rightarrow> int option" where "atoi s = parse_int 10 64 s"

lemma digits_val_append:
  "digits_val base acc (s @ t) =
     (case digits_val base acc s of None \<Rightarrow> None | Some n \<Rightarrow> digits_val base n t)"
  by (induction s arbitrary: acc) (auto split: option.splits)

lemma digit_val_char [simp]: "d < 10 \<Longrightarrow> digit_val 10 (digit_char d) = Some d"
  by (simp add: digit_val_def digit_char_def Let_def)

lemma digits_val_nat_digits: "digits_val 10 0 (nat_digits n) = Some n"
proof (induction n rule: nat_digits.induct)
  case (1 n)
  show ?case
  proof (cases "n < 10")
    case True
    then show ?thesis by (subst nat_digits.simps) simp
  next
    case False
    with 1 show ?thesis
      by (subst nat_digits.simps) (simp add: digits_val_append)
  qed
qed

lemma digit_chars [simp]:
  "digit_char 0 = CHR ''0''" "digit_char 1 = CHR ''1''" "digit_char 2 = CHR ''2''"
  "digit_char 3 = CHR ''3''" "digit_char 4 = CHR ''4''" "digit_char 5 = CHR ''5''"
  "digit_char 6 = CHR ''6''" "digit_char 7 = CHR ''7''" "digit_char 8 = CHR ''8''"
  "digit_char 9 = CHR ''9''" "digit_char (Suc 0) = CHR ''1''"
  by code_simp+

lemma nat_digits_not_Nil [simp]: "nat_digits n \<noteq> []"
  by (subst nat_digits.simps) simp

lemma nat_digits_chars: "c \<in> set (nat_digits n) \<Longrightarrow> \<exists>d<10. c = digit_char d"
proof (induction n rule: nat_digits.induct)
  case (1 n)
  show ?case
  proof (cases "n < 10")
    case True
    with 1 show ?thesis by (subst (asm) nat_digits.simps) auto
  next
    case False
    with 1 show ?thesis
      by (subst (asm) nat_digits.simps) (auto intro: exI [of _ "n mod 10"])
  qed
qed

lemma of_char_digit_char: "d < 10 \<Longrightarrow> (of_char (digit_char d) :: nat) = 48 + d"
  by (simp add: digit_char_def)

lemma nat_digits_range:
  assumes "c \<in> set (nat_digits n)" shows "48 \<le> (of_char c :: nat) \<and> (of_char c :: nat) \<le> 57"
proof -
  obtain d where "d < 10" "c = digit_char d" using nat_digits_chars [OF assms] by blast
  then show ?thesis by (simp add: of_char_digit_char)
qed

lemma nat_digits_free:
  assumes "(of_char x :: nat) < 48 \<or> 57 < (of_char x :: nat)" shows "x \<notin> set (nat_digits n)"
  using assms nat_digits_range by fastforce

lemma parse_uint_nat_digits: "n < 2 ^ bits \<Longrightarrow> parse_uint 10 bits (nat_digits n) = Some n"
  by (simp add: parse_uint_def digits_val_nat_digits)

lemma parse_uint_bound: "parse_uint base bits s = Some n \<Longrightarrow> n < 2 ^ bits"
  by (auto simp: parse_uint_def split: if_splits option.splits)

lemma atoi_itoa:
  assumes "- (2 ^ 63) \<le> n" "n < 2 ^ 63" shows "atoi (itoa n) = Some n"
proof (cases "n < 0")
  case True
  then show ?thesis using assms
    by (simp add: atoi_def itoa_def parse_int_def parse_magnitude_def digits_val_nat_digits)
next
  case False
  obtain c cs where c: "nat_digits (nat n) = c # cs"
    by (cases "nat_digits (nat n)") auto
  have "48 \<le> (of_char c :: nat)" using nat_digits_range [of c "nat n"] c by simp
  then have "c \<noteq> CHR ''-''" "c \<noteq> CHR ''+''" by auto
  then show ?thesis using False assms c digits_val_nat_digits [of "nat n"]
    by (simp add: atoi_def itoa_def parse_int_def parse_magnitude_def)
qed

section \<open>Sorting with a comparison function\<close>

text \<open>
  \<open>sort.Slice\<close> with a strict order: insertion by the same comparison.  For orders without
  ties every sorting algorithm gives the same list, so the model does not depend on Go's.
\<close>

fun insert_by :: "('a \<Rightarrow> 'a \<Rightarrow> bool) \<Rightarrow> 'a \<Rightarrow> 'a list \<Rightarrow> 'a list" where
  "insert_by lt x [] = [x]"
| "insert_by lt x (y # ys) = (if lt y x then y # insert_by lt x ys else x # y # ys)"

fun sort_slice :: "('a \<Rightarrow> 'a \<Rightarrow> bool) \<Rightarrow> 'a list \<Rightarrow> 'a list" where
  "sort_slice lt [] = []"
| "sort_slice lt (x # xs) = insert_by lt x (sort_slice lt xs)"

definition sort_strings :: "string list \<Rightarrow> string list" where
  "sort_strings xs = sort_slice (<) xs"

lemma mset_insert_by [simp]: "mset (insert_by lt x xs) = {#x#} + mset xs"
  by (induction xs) auto

lemma mset_sort_slice [simp]: "mset (sort_slice lt xs) = mset xs"
  by (induction xs) auto

lemma set_sort_slice [simp]: "set (sort_slice lt xs) = set xs"
  by (metis mset_sort_slice set_mset_mset)

lemma set_insert_by [simp]: "set (insert_by lt x xs) = insert x (set xs)"
  by (induction xs) auto

lemma length_sort_slice [simp]: "length (sort_slice lt xs) = length xs"
  by (metis mset_sort_slice size_mset)

lemma distinct_sort_slice [simp]: "distinct (sort_slice lt xs) = distinct xs"
  by (metis mset_sort_slice mset_eq_imp_distinct_iff)

lemma sorted_insert_by:
  assumes "\<And>a b c. lt a b \<Longrightarrow> lt b c \<Longrightarrow> lt a c"
    and "\<And>a b. a \<in> insert x (set ys) \<Longrightarrow> b \<in> insert x (set ys) \<Longrightarrow> a \<noteq> b \<Longrightarrow> lt a b \<or> lt b a"
    and "x \<notin> set ys" and "sorted_wrt lt ys"
  shows "sorted_wrt lt (insert_by lt x ys)"
  using assms(2-)
proof (induction ys)
  case (Cons y ys)
  show ?case
  proof (cases "lt y x")
    case True
    with Cons show ?thesis by auto
  next
    case False
    then have xy: "lt x y" using Cons.prems by auto
    have "\<forall>z \<in> set ys. lt x z"
    proof
      fix z assume "z \<in> set ys"
      then have "lt y z" using Cons.prems by simp
      with xy show "lt x z" by (rule assms(1))
    qed
    with False xy Cons.prems show ?thesis by simp
  qed
qed simp

lemma sorted_sort_slice:
  assumes "\<And>a b c. lt a b \<Longrightarrow> lt b c \<Longrightarrow> lt a c"
    and "\<And>a b. a \<in> set xs \<Longrightarrow> b \<in> set xs \<Longrightarrow> a \<noteq> b \<Longrightarrow> lt a b \<or> lt b a"
    and "distinct xs"
  shows "sorted_wrt lt (sort_slice lt xs)"
  using assms(2-)
proof (induction xs)
  case (Cons x xs)
  have "sorted_wrt lt (sort_slice lt xs)" using Cons by auto
  moreover have "\<And>a b. a \<in> insert x (set (sort_slice lt xs)) \<Longrightarrow>
      b \<in> insert x (set (sort_slice lt xs)) \<Longrightarrow> a \<noteq> b \<Longrightarrow> lt a b \<or> lt b a"
    using Cons.prems by auto
  ultimately show ?case
    using sorted_insert_by [where lt = lt and x = x and ys = "sort_slice lt xs", OF assms(1)] Cons.prems by auto
qed simp

lemma sorted_wrt_unique:
  assumes "\<And>a b c. lt a b \<Longrightarrow> lt b c \<Longrightarrow> lt a c" and "\<And>a. \<not> lt a a"
    and "sorted_wrt lt xs" and "sorted_wrt lt ys" and "set xs = set ys"
  shows "xs = ys"
  using assms(3-)
proof (induction xs arbitrary: ys)
  case (Cons x xs)
  then obtain y ys' where ys: "ys = y # ys'" by (cases ys) auto
  have "x = y"
  proof (rule ccontr)
    assume "x \<noteq> y"
    then have "x \<in> set ys'" "y \<in> set xs" using Cons.prems ys by auto
    then have "lt y x" "lt x y" using Cons.prems ys by auto
    then show False using assms(1,2) by blast
  qed
  moreover have "x \<notin> set xs" "y \<notin> set ys'" using Cons.prems ys assms(2) by auto
  ultimately have "set xs = set ys'" using Cons.prems ys by auto
  then show ?case using Cons ys \<open>x = y\<close> by auto
qed simp

lemma sorted_sort_strings: "distinct xs \<Longrightarrow> sorted_wrt (<) (sort_strings xs)"
  unfolding sort_strings_def by (rule sorted_sort_slice) auto

lemma set_sort_strings [simp]: "set (sort_strings xs) = set xs"
  by (simp add: sort_strings_def)

lemma sort_strings_cong:
  "distinct xs \<Longrightarrow> distinct ys \<Longrightarrow> set xs = set ys \<Longrightarrow> sort_strings xs = sort_strings ys"
  by (rule sorted_wrt_unique [where lt = "(<)"]) (auto intro: sorted_sort_strings)

section \<open>Association lists\<close>

lemma keys_update: "fst ` set (AList.update k v m) = insert k (fst ` set m)"
  by (simp add: AList.dom_update)

lemma update_new: "k \<notin> fst ` set al \<Longrightarrow> AList.update k v al = al @ [(k, v)]"
  by (induction al) auto

lemma map_of_map_snd: "map_of (map (\<lambda>(k, v). (k, f k v)) m) k = map_option (f k) (map_of m k)"
  by (induction m) auto

lemma map_fst_map_snd [simp]: "map fst (map (\<lambda>(k, v). (k, f k v)) m) = map fst m"
  by (induction m) auto

section \<open>Quoting\<close>

text \<open>
  The verb \<open>%q\<close>: \<open>strconv.Quote\<close> on text whose non-ASCII characters are printable, which are
  kept as they are.
\<close>

definition hex_char :: "nat \<Rightarrow> char" where
  "hex_char d = (if d < 10 then char_of (48 + d) else char_of (87 + d))"

definition quote_char :: "char \<Rightarrow> string" where
  "quote_char c =
     (let n = of_char c :: nat in
      if n = 34 then [CHR 0x5C, CHR 0x22]
      else if n = 92 then [CHR 0x5C, CHR 0x5C]
      else if n = 7 then [CHR 0x5C, CHR ''a'']
      else if n = 8 then [CHR 0x5C, CHR ''b'']
      else if n = 12 then [CHR 0x5C, CHR ''f'']
      else if n = 10 then [CHR 0x5C, CHR ''n'']
      else if n = 13 then [CHR 0x5C, CHR ''r'']
      else if n = 9 then [CHR 0x5C, CHR ''t'']
      else if n = 11 then [CHR 0x5C, CHR ''v'']
      else if n < 32 \<or> n = 127 then [CHR 0x5C, CHR ''x'', hex_char (n div 16), hex_char (n mod 16)]
      else [c])"

definition go_quote :: "string \<Rightarrow> string" where
  "go_quote s = [CHR 0x22] @ concat (map quote_char s) @ [CHR 0x22]"

end
