(* ===== verification/Proc_State.thy ===== *)
theory Proc_State
  imports Kahi_Prelude
begin

text \<open>
  \<open>internal/process/state.go\<close>: the process state machine.  \<open>State\<close> is the
  enumeration, \<open>validTransitions\<close> its table, \<open>StateMachine\<close> the guarded record.
  Every operation takes the lock for its whole body, so it is one function from the
  record to the record and its error.  The clock reading is the argument \<open>now\<close>
  (nanoseconds); durations are Go's 64-bit \<open>time.Duration\<close>.  The abstract specification
  is the state diagram of \<open>docs/process-lifecycle.md\<close> (\<open>doc_edge\<close>).
\<close>

section \<open>States and transitions\<close>

datatype State = Stopped | Starting | Running | Backoff | Stopping | Exited | Fatal

fun state_code :: "State \<Rightarrow> int" where
  "state_code Stopped = 0" | "state_code Starting = 1" | "state_code Running = 2"
| "state_code Backoff = 3" | "state_code Stopping = 4" | "state_code Exited = 5"
| "state_code Fatal = 6"

fun state_name :: "State \<Rightarrow> string" where
  "state_name Stopped = ''STOPPED''"
| "state_name Starting = ''STARTING''"
| "state_name Running = ''RUNNING''"
| "state_name Backoff = ''BACKOFF''"
| "state_name Stopping = ''STOPPING''"
| "state_name Exited = ''EXITED''"
| "state_name Fatal = ''FATAL''"

fun validTransitions :: "State \<Rightarrow> State list" where
  "validTransitions Stopped = [Starting]"
| "validTransitions Starting = [Running, Backoff, Stopping]"
| "validTransitions Running = [Stopping, Exited]"
| "validTransitions Backoff = [Starting, Fatal, Stopped]"
| "validTransitions Stopping = [Stopped, Exited]"
| "validTransitions Exited = [Starting]"
| "validTransitions Fatal = [Starting]"

instantiation State :: linorder
begin

definition less_eq_State :: "State \<Rightarrow> State \<Rightarrow> bool" where
  "s \<le> t \<longleftrightarrow> state_code s \<le> state_code t"

definition less_State :: "State \<Rightarrow> State \<Rightarrow> bool" where
  "s < t \<longleftrightarrow> state_code s < state_code t"

instance
proof
  fix s t :: State
  assume "s \<le> t" "t \<le> s"
  then show "s = t" by (cases s; cases t) (auto simp: less_eq_State_def)
qed (auto simp: less_eq_State_def less_State_def)

end

text \<open>The diagram of \<open>docs/process-lifecycle.md\<close>, edge by edge.\<close>

fun doc_edge :: "State \<Rightarrow> State \<Rightarrow> bool" where
  "doc_edge Stopped t = (t = Starting)"
| "doc_edge Starting t = (t \<in> {Running, Backoff, Fatal, Stopping})"
| "doc_edge Backoff t = (t \<in> {Starting, Stopped})"
| "doc_edge Running t = (t \<in> {Stopping, Exited})"
| "doc_edge Stopping t = (t = Stopped)"
| "doc_edge Exited t = (t = Starting)"
| "doc_edge Fatal t = (t = Starting)"

text \<open>A sequence of states along the diagram, in which a state may be repeated.\<close>

fun doc_path :: "State list \<Rightarrow> bool" where
  "doc_path [] = True"
| "doc_path [s] = True"
| "doc_path (s # t # ts) = ((s = t \<or> doc_edge s t) \<and> doc_path (t # ts))"

lemma doc_path_append:
  "xs \<noteq> [] \<Longrightarrow> doc_path (xs @ ys) = (doc_path xs \<and> doc_path (last xs # ys))"
  by (induction xs rule: doc_path.induct) auto

lemma doc_path_snoc:
  "xs \<noteq> [] \<Longrightarrow> doc_path (xs @ [t]) = (doc_path xs \<and> (last xs = t \<or> doc_edge (last xs) t))"
  by (simp add: doc_path_append)

section \<open>The machine\<close>

record StateMachine =
  sm_state :: State
  sm_retries :: int
  sm_maxRetries :: int
  sm_startsecs :: int
  sm_startedAt :: int
  sm_manualStop :: bool

text \<open>\<open>time.Duration(n) * time.Second\<close>, a 64-bit product of nanoseconds.\<close>

definition seconds :: "int \<Rightarrow> int" where "seconds n = i64 (n * 1000000000)"

text \<open>\<open>Time.Sub\<close>, which saturates at the ends of \<open>Duration\<close>.\<close>

definition time_sub :: "int \<Rightarrow> int \<Rightarrow> int" where
  "time_sub a b = max (- (2 ^ 63)) (min (2 ^ 63 - 1) (a - b))"

definition NewStateMachine :: "int \<Rightarrow> int \<Rightarrow> StateMachine" where
  "NewStateMachine startsecs startretries =
     \<lparr>sm_state = Stopped, sm_retries = 0, sm_maxRetries = startretries,
      sm_startsecs = seconds startsecs, sm_startedAt = 0, sm_manualStop = False\<rparr>"

definition SetLimits :: "int \<Rightarrow> int \<Rightarrow> StateMachine \<Rightarrow> StateMachine" where
  "SetLimits startsecs startretries sm =
     sm\<lparr>sm_startsecs := seconds startsecs, sm_maxRetries := startretries\<rparr>"

definition applyTransition :: "int \<Rightarrow> State \<Rightarrow> StateMachine \<Rightarrow> StateMachine" where
  "applyTransition now target sm =
     (let sm' = sm\<lparr>sm_state := target\<rparr> in
      case target of
        Starting \<Rightarrow> sm'\<lparr>sm_startedAt := now\<rparr>
      | Running \<Rightarrow> sm'\<lparr>sm_retries := 0\<rparr>
      | Backoff \<Rightarrow> sm'\<lparr>sm_retries := sm_retries sm + 1\<rparr>
      | _ \<Rightarrow> sm')"

definition transition_error :: "State \<Rightarrow> State \<Rightarrow> string" where
  "transition_error s t =
     ''cannot transition from '' @ state_name s @ '' to '' @ state_name t"

definition transitionLocked :: "int \<Rightarrow> State \<Rightarrow> StateMachine \<Rightarrow> StateMachine \<times> string option" where
  "transitionLocked now target sm =
     (if target \<in> set (validTransitions (sm_state sm))
      then (applyTransition now target sm, None)
      else (sm, Some (transition_error (sm_state sm) target)))"

definition Transition :: "int \<Rightarrow> State \<Rightarrow> StateMachine \<Rightarrow> StateMachine \<times> string option" where
  "Transition now target sm = transitionLocked now target sm"

definition RequestStart :: "int \<Rightarrow> StateMachine \<Rightarrow> StateMachine \<times> string option" where
  "RequestStart now sm = transitionLocked now Starting (sm\<lparr>sm_manualStop := False\<rparr>)"

definition RequestStop :: "int \<Rightarrow> StateMachine \<Rightarrow> StateMachine \<times> string option" where
  "RequestStop now sm = transitionLocked now Stopping (sm\<lparr>sm_manualStop := True\<rparr>)"

definition ProcessStarted :: "int \<Rightarrow> StateMachine \<Rightarrow> StateMachine \<times> string option" where
  "ProcessStarted now sm =
     (if sm_state sm \<noteq> Starting then (sm, None)
      else if time_sub now (sm_startedAt sm) \<ge> sm_startsecs sm
           then transitionLocked now Running sm
           else (sm, None))"

definition ProcessExitedEarly :: "int \<Rightarrow> StateMachine \<Rightarrow> StateMachine \<times> string option" where
  "ProcessExitedEarly now sm =
     (if sm_state sm \<noteq> Starting
      then (sm, Some (''ProcessExitedEarly called in '' @ state_name (sm_state sm) @ '' state''))
      else case transitionLocked now Backoff sm of
        (sm1, Some e) \<Rightarrow> (sm1, Some e)
      | (sm1, None) \<Rightarrow>
          if sm_retries sm1 > sm_maxRetries sm1 then transitionLocked now Fatal sm1
          else (sm1, None))"

definition ProcessExited :: "int \<Rightarrow> StateMachine \<Rightarrow> StateMachine \<times> string option" where
  "ProcessExited now sm =
     (case sm_state sm of
        Running \<Rightarrow> transitionLocked now Exited sm
      | Stopping \<Rightarrow> transitionLocked now Stopped sm
      | s \<Rightarrow> (sm, Some (''ProcessExited called in '' @ state_name s @ '' state'')))"

text \<open>\<open>time.Second << uint(r-1)\<close> keeps the low 64 bits, as a signed number.\<close>

definition BackoffDelay :: "StateMachine \<Rightarrow> int" where
  "BackoffDelay sm =
     (let r = sm_retries sm in
      if r \<le> 0 then 1000000000
      else let d = i64 (1000000000 * 2 ^ nat (r - 1))
           in if d > 60 * 1000000000 then 60 * 1000000000 else d)"

definition RetryFromBackoff :: "int \<Rightarrow> StateMachine \<Rightarrow> StateMachine \<times> string option" where
  "RetryFromBackoff now sm =
     (if sm_state sm \<noteq> Backoff
      then (sm, Some (''RetryFromBackoff called in '' @ state_name (sm_state sm) @ '' state''))
      else transitionLocked now Starting sm)"

lemmas sm_defs = transitionLocked_def applyTransition_def RequestStart_def RequestStop_def
  ProcessStarted_def ProcessExitedEarly_def ProcessExited_def RetryFromBackoff_def
  Transition_def SetLimits_def NewStateMachine_def

section \<open>Correctness of the operations\<close>

inductive sm_op :: "StateMachine \<Rightarrow> StateMachine \<Rightarrow> bool" where
  request_start: "RequestStart now sm = (sm', e) \<Longrightarrow> sm_op sm sm'"
| request_stop: "RequestStop now sm = (sm', e) \<Longrightarrow> sm_op sm sm'"
| started: "ProcessStarted now sm = (sm', e) \<Longrightarrow> sm_op sm sm'"
| exited_early: "ProcessExitedEarly now sm = (sm', e) \<Longrightarrow> sm_op sm sm'"
| exited: "ProcessExited now sm = (sm', e) \<Longrightarrow> sm_op sm sm'"
| retry: "RetryFromBackoff now sm = (sm', e) \<Longrightarrow> sm_op sm sm'"
| stop_backoff: "sm_state sm = Backoff \<Longrightarrow> Transition now Stopped sm = (sm', e) \<Longrightarrow> sm_op sm sm'"
| set_limits: "sm_op sm (SetLimits a b sm)"

lemma transitionLocked_state:
  "transitionLocked now t sm = (sm', None) \<Longrightarrow> sm_state sm' = t"
  by (cases t) (auto simp: sm_defs Let_def split: if_splits)

lemma transitionLocked_error:
  "transitionLocked now t sm = (sm', Some e) \<Longrightarrow> sm' = sm"
  by (auto simp: sm_defs split: if_splits)

lemma applyTransition_frame:
  "sm_maxRetries (applyTransition now t sm) = sm_maxRetries sm"
  "sm_startsecs (applyTransition now t sm) = sm_startsecs sm"
  "sm_manualStop (applyTransition now t sm) = sm_manualStop sm"
  "sm_state (applyTransition now t sm) = t"
  by (cases t; simp add: applyTransition_def)+

text \<open>
  \<open>Transition\<close> follows the table exactly: it succeeds precisely for the
  targets the table lists and then the machine is in the target state, and a refused
  transition reports an error and changes nothing.
\<close>

lemma transition_table:
  "(snd (Transition now t sm) = None \<longleftrightarrow> t \<in> set (validTransitions (sm_state sm))) \<and>
   sm_state (fst (Transition now t sm)) =
     (if t \<in> set (validTransitions (sm_state sm)) then t else sm_state sm) \<and>
   (t \<in> set (validTransitions (sm_state sm)) \<or> fst (Transition now t sm) = sm)"
  by (simp add: Transition_def transitionLocked_def applyTransition_frame)

lemma sm_op_doc_edge:
  assumes "sm_op sm sm'" shows "sm_state sm = sm_state sm' \<or> doc_edge (sm_state sm) (sm_state sm')"
  using assms
proof (cases rule: sm_op.cases)
  case (exited_early now e)
  then show ?thesis
    by (auto simp: ProcessExitedEarly_def transitionLocked_def applyTransition_frame
        split: if_splits)
next
  case (exited now e)
  then show ?thesis
    by (cases "sm_state sm") (auto simp: ProcessExited_def transitionLocked_def applyTransition_frame)
qed (cases "sm_state sm"; auto simp: RequestStart_def RequestStop_def ProcessStarted_def
      RetryFromBackoff_def Transition_def transitionLocked_def applyTransition_frame SetLimits_def
      split: if_splits)+

section \<open>Back-off\<close>

lemma backoff_small:
  assumes "1 \<le> r" "r \<le> 34" and "r = sm_retries sm"
  shows "BackoffDelay sm = min (2 ^ nat (r - 1)) 60 * 1000000000"
proof -
  define k where "k = nat (r - 1)"
  have k: "k \<le> 33" using assms by (simp add: k_def)
  have p: "(2::int) ^ k \<le> 2 ^ 33" using k by (intro power_increasing) auto
  then have "1000000000 * 2 ^ k < (2::int) ^ 63" by simp
  then have "i64 (1000000000 * 2 ^ k) = 1000000000 * 2 ^ k"
    by (intro i64_id) (auto intro: order_trans [of _ 0])
  moreover have "nat (sm_retries sm - 1) = k" using assms(3) by (simp add: k_def)
  moreover have "nat (r - 1) = k" by (simp add: k_def)
  ultimately show ?thesis using assms by (auto simp: BackoffDelay_def Let_def min_def)
qed

text \<open>
  For the first 34 retries the back-off delay doubles from one second and
  is capped at sixty: after the \<open>r\<close>-th failed attempt it is \<open>min (2^(r-1)) 60\<close> seconds.
\<close>

theorem backoff_delay_exponential:
  assumes "1 \<le> sm_retries sm" and "sm_retries sm \<le> 34"
  shows "BackoffDelay sm = min (2 ^ nat (sm_retries sm - 1)) 60 * 1000000000"
  using backoff_small [OF assms] by simp

theorem backoff_delay_exponential_witness:
  "BackoffDelay (NewStateMachine 1 3\<lparr>sm_retries := 7\<rparr>) = 60 * 1000000000"
  using backoff_delay_exponential [of "NewStateMachine 1 3\<lparr>sm_retries := 7\<rparr>"] by simp

text \<open>
  The shift overflows a 64-bit duration: after the 35th failure the delay is
  negative, and from the 56th on it is zero, so the retry timer fires at once.
\<close>

theorem backoff_delay_overflow:
  "BackoffDelay (sm\<lparr>sm_retries := 35\<rparr>) < 0 \<and> BackoffDelay (sm\<lparr>sm_retries := 56 + int n\<rparr>) = 0"
proof -
  have "(1000000000 :: int) * 2 ^ (55 + n) = 1953125 * 2 ^ n * 2 ^ 64"
    by (simp add: power_add)
  then have "i64 (1000000000 * 2 ^ (55 + n)) = 0"
    by (simp only: i64_high_bits)
  moreover have "nat (56 + int n - 1) = 55 + n" by simp
  ultimately show ?thesis by (simp add: BackoffDelay_def i64_def)
qed

section \<open>The retry budget\<close>

text \<open>
  One failed retry: the back-off timer restarts the process, and the new attempt ends
  before \<open>startsecs\<close>.
\<close>

definition retry_cycle :: "int \<Rightarrow> StateMachine \<Rightarrow> StateMachine" where
  "retry_cycle now sm = fst (ProcessExitedEarly now (fst (RetryFromBackoff now sm)))"

lemma retry_cycle_step:
  assumes "sm_state sm = Backoff"
  shows "sm_state (retry_cycle now sm) = (if sm_retries sm + 1 > sm_maxRetries sm then Fatal else Backoff)"
    and "sm_retries (retry_cycle now sm) = sm_retries sm + 1"
    and "sm_maxRetries (retry_cycle now sm) = sm_maxRetries sm"
  using assms
  by (auto simp: retry_cycle_def sm_defs Let_def)

lemma retry_cycles:
  assumes "sm_state sm = Backoff" and "sm_retries sm + int k \<le> sm_maxRetries sm"
  shows "sm_state ((retry_cycle now ^^ k) sm) = Backoff \<and>
         sm_retries ((retry_cycle now ^^ k) sm) = sm_retries sm + int k \<and>
         sm_maxRetries ((retry_cycle now ^^ k) sm) = sm_maxRetries sm"
  using assms
proof (induction k)
  case (Suc k)
  then show ?case by (simp add: retry_cycle_step)
qed simp

text \<open>
  The retry budget: a process that was started afresh (no failures counted)
  and whose every attempt ends before \<open>startsecs\<close> is in BACKOFF after each of its first
  \<open>startretries\<close> failures and in FATAL after failure number \<open>startretries + 1\<close>, neither
  earlier nor later.
\<close>

theorem retry_budget:
  assumes "sm_state sm = Starting" and "sm_retries sm = 0" and "sm_maxRetries sm = int n"
  shows "(\<forall>k<n. sm_state ((retry_cycle now ^^ k) (fst (ProcessExitedEarly now sm))) = Backoff) \<and>
         sm_state ((retry_cycle now ^^ n) (fst (ProcessExitedEarly now sm))) = Fatal"
proof -
  let ?s = "fst (ProcessExitedEarly now sm)"
  show ?thesis
  proof (cases n)
    case 0
    then show ?thesis using assms by (simp add: sm_defs Let_def)
  next
    case (Suc m)
    have s: "sm_state ?s = Backoff" "sm_retries ?s = 1" "sm_maxRetries ?s = int n"
      using assms Suc by (auto simp: sm_defs Let_def)
    have b: "sm_state ((retry_cycle now ^^ k) ?s) = Backoff \<and>
        sm_retries ((retry_cycle now ^^ k) ?s) = 1 + int k \<and>
        sm_maxRetries ((retry_cycle now ^^ k) ?s) = int n" if "k < n" for k
      using retry_cycles [OF s(1), of k now] s that by simp
    have "sm_state (retry_cycle now ((retry_cycle now ^^ m) ?s)) = Fatal"
      using b [of m] Suc by (simp add: retry_cycle_step)
    then show ?thesis using b Suc by simp
  qed
qed

theorem retry_budget_witness:
  "sm_state ((retry_cycle 0 ^^ 3)
     (fst (ProcessExitedEarly 0 (fst (RequestStart 0 (NewStateMachine 1 3)))))) = Fatal"
  using retry_budget [of "fst (RequestStart 0 (NewStateMachine 1 3))" 3 0]
  by (simp add: RequestStart_def transitionLocked_def applyTransition_def NewStateMachine_def)

end
