(* ===== verification/Config_Types.thy ===== *)
theory Config_Types
  imports Kahi_Prelude
begin

text \<open>
  \<open>internal/config/config.go\<close>, \<open>defaults.go\<close> and \<open>socket.go\<close>: the configuration records and
  the default values.  A TOML table is an association list, in the order the code ranges over
  it; \<open>md.IsDefined\<close> of the TOML library is the parameter \<open>defined\<close>.
\<close>

section \<open>The records\<close>

record SupervisorConfig =
  sv_Logfile :: string
  sv_LogLevel :: string
  sv_LogFormat :: string
  sv_Directory :: string
  sv_Identifier :: string
  sv_Minfds :: int
  sv_Minprocs :: int
  sv_Nocleanup :: bool
  sv_ShutdownTimeout :: int

record ProgramConfig =
  pc_Command :: string
  pc_ProcessName :: string
  pc_Numprocs :: int
  pc_NumprocsStart :: int
  pc_Priority :: int
  pc_Autostart :: "bool option"
  pc_Autorestart :: string
  pc_Startsecs :: int
  pc_Startretries :: int
  pc_Exitcodes :: "int list"
  pc_Stopsignal :: string
  pc_Stopwaitsecs :: int
  pc_Stopasgroup :: bool
  pc_Killasgroup :: bool
  pc_User :: string
  pc_Directory :: string
  pc_Umask :: string
  pc_Environment :: "(string \<times> string) list"
  pc_CleanEnvironment :: bool
  pc_InheritEnvironment :: bool
  pc_StdoutLogfile :: string
  pc_StdoutLogfileMaxbytes :: string
  pc_StdoutLogfileBackups :: int
  pc_StdoutCaptureMaxbytes :: string
  pc_StdoutSyslog :: bool
  pc_StderrLogfile :: string
  pc_StderrLogfileMaxbytes :: string
  pc_StderrLogfileBackups :: int
  pc_StderrCaptureMaxbytes :: string
  pc_StderrSyslog :: bool
  pc_RedirectStderr :: bool
  pc_StripAnsi :: bool
  pc_Description :: string

record GroupConfig =
  gc_Programs :: "string list"
  gc_Priority :: int

record UnixServerConfig =
  ux_File :: string
  ux_Chmod :: string
  ux_Chown :: string

record HTTPServerConfig =
  ht_Enabled :: bool
  ht_Listen :: string
  ht_Username :: string
  ht_Password :: string

record WebServerConfig =
  wb_Enabled :: bool
  wb_StaticDir :: string

record ServerConfig =
  sc_Unix :: UnixServerConfig
  sc_HTTP :: HTTPServerConfig
  sc_Web :: WebServerConfig

record WebhookConfig =
  wc_URL :: string
  wc_Events :: "string list"
  wc_Headers :: "(string \<times> string) list"
  wc_Timeout :: int
  wc_Retries :: int

record Config =
  cf_Supervisor :: SupervisorConfig
  cf_Programs :: "(string \<times> ProgramConfig) list"
  cf_Groups :: "(string \<times> GroupConfig) list"
  cf_Server :: ServerConfig
  cf_Webhooks :: "(string \<times> WebhookConfig) list"
  cf_Include :: "string list"

text \<open>A TOML value as \<open>UnmarshalTOML\<close> tells it apart; the error is the second component.\<close>

datatype toml_value = TBool bool | TString string | TOther

definition UnmarshalTOML :: "toml_value \<Rightarrow> string \<Rightarrow> string \<times> bool" where
  "UnmarshalTOML v a =
     (case v of
        TBool b \<Rightarrow> (if b then ''true'' else ''false'', False)
      | TString s \<Rightarrow> (s, False)
      | TOther \<Rightarrow> (a, True))"

text \<open>The zero value a decoder starts from.\<close>

definition zero_program :: ProgramConfig where
  "zero_program = \<lparr>pc_Command = [], pc_ProcessName = [], pc_Numprocs = 0, pc_NumprocsStart = 0,
     pc_Priority = 0, pc_Autostart = None, pc_Autorestart = [], pc_Startsecs = 0,
     pc_Startretries = 0, pc_Exitcodes = [], pc_Stopsignal = [], pc_Stopwaitsecs = 0,
     pc_Stopasgroup = False, pc_Killasgroup = False, pc_User = [], pc_Directory = [],
     pc_Umask = [], pc_Environment = [], pc_CleanEnvironment = False, pc_InheritEnvironment = False,
     pc_StdoutLogfile = [], pc_StdoutLogfileMaxbytes = [], pc_StdoutLogfileBackups = 0,
     pc_StdoutCaptureMaxbytes = [], pc_StdoutSyslog = False, pc_StderrLogfile = [],
     pc_StderrLogfileMaxbytes = [], pc_StderrLogfileBackups = 0, pc_StderrCaptureMaxbytes = [],
     pc_StderrSyslog = False, pc_RedirectStderr = False, pc_StripAnsi = False, pc_Description = []\<rparr>"

section \<open>The default socket\<close>

definition RootSocketPath :: string where "RootSocketPath = ''/var/run/kahi.sock''"

text \<open>\<open>filepath.Join\<close> of a cleaned directory and a plain name; \<open>Clean\<close> is the parameter \<open>clean\<close>.\<close>

definition path_join :: "(string \<Rightarrow> string) \<Rightarrow> string \<Rightarrow> string \<Rightarrow> string" where
  "path_join clean dir name = (if dir = [] then clean name else clean (dir @ ''/'' @ name))"

definition is_abs :: "string \<Rightarrow> bool" where "is_abs p = has_prefix p ''/''"

definition privateSocketDir :: "(string \<Rightarrow> string) \<Rightarrow> int \<Rightarrow> string \<Rightarrow> string" where
  "privateSocketDir clean euid tmp = path_join clean tmp (''kahi-'' @ itoa euid)"

definition defaultSocketPath :: "(string \<Rightarrow> string) \<Rightarrow> int \<Rightarrow> string \<Rightarrow> string \<Rightarrow> string" where
  "defaultSocketPath clean euid xdg tmp =
     (if euid = 0 then RootSocketPath
      else if is_abs xdg then path_join clean xdg ''kahi.sock''
      else path_join clean (privateSocketDir clean euid tmp) ''kahi.sock'')"

section \<open>Defaults\<close>

definition unset :: "(string list \<Rightarrow> bool) \<Rightarrow> int \<Rightarrow> string list \<Rightarrow> bool" where
  "unset defined v key \<longleftrightarrow> v = 0 \<and> \<not> defined key"

definition or_default :: "string \<Rightarrow> string \<Rightarrow> string" where
  "or_default s d = (if s = [] then d else s)"

definition default_supervisor :: "(string list \<Rightarrow> bool) \<Rightarrow> SupervisorConfig \<Rightarrow> SupervisorConfig" where
  "default_supervisor defined s =
     s\<lparr>sv_LogLevel := or_default (sv_LogLevel s) ''info'',
       sv_LogFormat := or_default (sv_LogFormat s) ''json'',
       sv_Minfds := (if sv_Minfds s = 0 then 1024 else sv_Minfds s),
       sv_Minprocs := (if sv_Minprocs s = 0 then 200 else sv_Minprocs s),
       sv_ShutdownTimeout := (if unset defined (sv_ShutdownTimeout s) [''supervisor'', ''shutdown_timeout'']
          then 30 else sv_ShutdownTimeout s)\<rparr>"

definition default_unix :: "string \<Rightarrow> UnixServerConfig \<Rightarrow> UnixServerConfig" where
  "default_unix sock u =
     u\<lparr>ux_File := or_default (ux_File u) sock, ux_Chmod := or_default (ux_Chmod u) ''0700''\<rparr>"

definition default_program :: "(string list \<Rightarrow> bool) \<Rightarrow> string \<Rightarrow> ProgramConfig \<Rightarrow> ProgramConfig" where
  "default_program defined name p =
     (let dflt = (\<lambda>v key d. if unset defined v [''programs'', name, key] then d else v) in
      p\<lparr>pc_Numprocs := dflt (pc_Numprocs p) ''numprocs'' 1,
        pc_Priority := dflt (pc_Priority p) ''priority'' 999,
        pc_Autostart := (case pc_Autostart p of None \<Rightarrow> Some True | Some b \<Rightarrow> Some b),
        pc_Autorestart := or_default (pc_Autorestart p) ''unexpected'',
        pc_Startsecs := dflt (pc_Startsecs p) ''startsecs'' 1,
        pc_Startretries := dflt (pc_Startretries p) ''startretries'' 3,
        pc_Exitcodes := (if pc_Exitcodes p = [] \<and> \<not> defined [''programs'', name, ''exitcodes'']
           then [0] else pc_Exitcodes p),
        pc_Stopsignal := or_default (pc_Stopsignal p) ''TERM'',
        pc_Stopwaitsecs := dflt (pc_Stopwaitsecs p) ''stopwaitsecs'' 10,
        pc_StdoutLogfileMaxbytes := or_default (pc_StdoutLogfileMaxbytes p) ''50MB'',
        pc_StdoutLogfileBackups := dflt (pc_StdoutLogfileBackups p) ''stdout_logfile_backups'' 10,
        pc_StderrLogfileMaxbytes := or_default (pc_StderrLogfileMaxbytes p) ''50MB'',
        pc_StderrLogfileBackups := dflt (pc_StderrLogfileBackups p) ''stderr_logfile_backups'' 10\<rparr>)"

definition default_group :: "(string list \<Rightarrow> bool) \<Rightarrow> string \<Rightarrow> GroupConfig \<Rightarrow> GroupConfig" where
  "default_group defined name g =
     g\<lparr>gc_Priority := (if unset defined (gc_Priority g) [''groups'', name, ''priority'']
        then 999 else gc_Priority g)\<rparr>"

definition ApplyDefaults :: "(string list \<Rightarrow> bool) \<Rightarrow> string \<Rightarrow> Config \<Rightarrow> Config" where
  "ApplyDefaults defined sock cfg =
     cfg\<lparr>cf_Supervisor := default_supervisor defined (cf_Supervisor cfg),
        cf_Server := (cf_Server cfg)\<lparr>sc_Unix := default_unix sock (sc_Unix (cf_Server cfg))\<rparr>,
        cf_Programs := map (\<lambda>(name, p). (name, default_program defined name p)) (cf_Programs cfg),
        cf_Groups := map (\<lambda>(name, g). (name, default_group defined name g)) (cf_Groups cfg)\<rparr>"

lemma or_default_idem: "d \<noteq> [] \<Longrightarrow> or_default (or_default s d) d = or_default s d"
  by (simp add: or_default_def)

lemma default_program_idem:
  "default_program defined n (default_program defined n p) = default_program defined n p"
  by (simp add: default_program_def Let_def unset_def or_default_def split: option.splits)

lemma default_supervisor_idem:
  "default_supervisor defined (default_supervisor defined s) = default_supervisor defined s"
  by (simp add: default_supervisor_def unset_def or_default_def)

lemma default_unix_idem:
  "sock \<noteq> [] \<Longrightarrow> default_unix sock (default_unix sock u) = default_unix sock u"
  by (simp add: default_unix_def or_default_def)

lemma default_group_idem: "default_group defined n (default_group defined n g) = default_group defined n g"
  by (simp add: default_group_def unset_def)

lemma ApplyDefaults_idem:
  assumes "sock \<noteq> []"
  shows "ApplyDefaults defined sock (ApplyDefaults defined sock cfg) = ApplyDefaults defined sock cfg"
proof -
  let ?c = "ApplyDefaults defined sock cfg"
  have "map (\<lambda>(n, p). (n, default_program defined n p)) (cf_Programs ?c) = cf_Programs ?c"
    by (simp add: ApplyDefaults_def default_program_idem case_prod_beta)
  moreover have "map (\<lambda>(n, g). (n, default_group defined n g)) (cf_Groups ?c) = cf_Groups ?c"
    by (simp add: ApplyDefaults_def default_group_idem case_prod_beta)
  moreover have "default_supervisor defined (cf_Supervisor ?c) = cf_Supervisor ?c"
    by (simp add: ApplyDefaults_def default_supervisor_idem)
  moreover have "default_unix sock (sc_Unix (cf_Server ?c)) = sc_Unix (cf_Server ?c)"
    using assms by (simp add: ApplyDefaults_def default_unix_idem)
  ultimately show ?thesis by (simp add: ApplyDefaults_def [of defined sock ?c])
qed

text \<open>
  Defaults are filled in once: applying them to a configuration that already
  has them changes nothing, and of a program every number or list the file sets, an explicit 0
  included, is kept.
\<close>

theorem defaults_keep_explicit_settings:
  assumes "sock \<noteq> []" and "map_of (cf_Programs cfg) name = Some p"
    and "\<And>key. defined [''programs'', name, key]"
  shows "ApplyDefaults defined sock (ApplyDefaults defined sock cfg) = ApplyDefaults defined sock cfg \<and>
   (\<exists>q. map_of (cf_Programs (ApplyDefaults defined sock cfg)) name = Some q \<and>
      pc_Startretries q = pc_Startretries p \<and> pc_Priority q = pc_Priority p \<and>
      pc_Exitcodes q = pc_Exitcodes p \<and> pc_Stopwaitsecs q = pc_Stopwaitsecs p \<and>
      pc_StdoutLogfileBackups q = pc_StdoutLogfileBackups p)"
proof -
  have "map_of (cf_Programs (ApplyDefaults defined sock cfg)) name = Some (default_program defined name p)"
    by (simp add: ApplyDefaults_def map_of_map_snd assms(2))
  moreover have "pc_Startretries (default_program defined name p) = pc_Startretries p \<and>
      pc_Priority (default_program defined name p) = pc_Priority p \<and>
      pc_Exitcodes (default_program defined name p) = pc_Exitcodes p \<and>
      pc_Stopwaitsecs (default_program defined name p) = pc_Stopwaitsecs p \<and>
      pc_StdoutLogfileBackups (default_program defined name p) = pc_StdoutLogfileBackups p"
    by (simp add: default_program_def unset_def Let_def assms(3))
  ultimately show ?thesis using ApplyDefaults_idem [OF assms(1)] by simp
qed

definition sample_program :: ProgramConfig where
  "sample_program = zero_program\<lparr>pc_Command := ''/bin/web -v'', pc_Stopwaitsecs := 5\<rparr>"

definition sample_config :: Config where
  "sample_config = \<lparr>cf_Supervisor = \<lparr>sv_Logfile = [], sv_LogLevel = [], sv_LogFormat = [],
       sv_Directory = [], sv_Identifier = [], sv_Minfds = 0, sv_Minprocs = 0, sv_Nocleanup = False,
       sv_ShutdownTimeout = 0\<rparr>,
     cf_Programs = [(''web'', sample_program)], cf_Groups = [],
     cf_Server = \<lparr>sc_Unix = \<lparr>ux_File = [], ux_Chmod = [], ux_Chown = []\<rparr>,
       sc_HTTP = \<lparr>ht_Enabled = False, ht_Listen = [], ht_Username = [], ht_Password = []\<rparr>,
       sc_Web = \<lparr>wb_Enabled = False, wb_StaticDir = []\<rparr>\<rparr>,
     cf_Webhooks = [], cf_Include = []\<rparr>"

theorem defaults_keep_explicit_settings_witness:
  "\<exists>q. map_of (cf_Programs (ApplyDefaults (\<lambda>_. True) RootSocketPath sample_config)) ''web'' = Some q \<and>
     pc_Startretries q = 0"
  using defaults_keep_explicit_settings
    [of RootSocketPath sample_config "''web''" sample_program "\<lambda>_. True"]
  by (auto simp: RootSocketPath_def sample_config_def sample_program_def zero_program_def)

end
