(* ===== verification/Log_Files.thy ===== *)
theory Log_Files
  imports Kahi_Prelude
begin

text \<open>
  \<open>internal/logging/rotation.go\<close>: the sizes of \<open>stdout_logfile_maxbytes\<close>, parsed from a number
  with an optional unit into a signed 64-bit count of bytes.
\<close>

section \<open>Sizes\<close>

definition size_unit :: "string \<Rightarrow> int \<times> string" where
  "size_unit s =
     (if has_suffix s ''GB'' then (1024 * 1024 * 1024, trim_suffix s ''GB'')
      else if has_suffix s ''MB'' then (1024 * 1024, trim_suffix s ''MB'')
      else if has_suffix s ''KB'' then (1024, trim_suffix s ''KB'')
      else if has_suffix s ''B'' then (1, trim_suffix s ''B'')
      else (1, s))"

text \<open>\<open>None\<close> is the error; \<open>val * multiplier\<close> is a product of \<open>int64\<close> values.\<close>

definition parseSize :: "string \<Rightarrow> int option" where
  "parseSize s0 =
     (let s = TrimSpace s0 in
      if s = [] \<or> s = ''0'' then Some 0
      else let (multiplier, body) = size_unit (ToUpper s)
           in case parse_int 10 64 (TrimSpace body) of
                None \<Rightarrow> None
              | Some v \<Rightarrow> if v < 0 then None else Some (i64 (v * multiplier)))"

definition ParseSize :: "string \<Rightarrow> int" where
  "ParseSize s = (case parseSize s of None \<Rightarrow> 0 | Some n \<Rightarrow> n)"

definition CheckSize :: "string \<Rightarrow> bool" where
  "CheckSize s \<longleftrightarrow> parseSize s \<noteq> None"

lemma head_word_0: "(\<And>w. w \<in> set ws \<Longrightarrow> w \<noteq> [] \<Longrightarrow> hd w \<noteq> c) \<Longrightarrow> head_word ws (c # cs) = 0"
proof (induction ws)
  case (Cons w ws)
  have "\<not> (w \<noteq> [] \<and> has_prefix (c # cs) w)"
    using Cons.prems [of w] by (cases w) (auto simp: has_prefix_def)
  with Cons show ?case by auto
qed simp

definition plain_char :: "char \<Rightarrow> bool" where
  "plain_char c \<longleftrightarrow> 33 \<le> (of_char c :: nat) \<and> (of_char c :: nat) \<le> 126"

lemma go_spaces_hd: "plain_char c \<Longrightarrow> w \<in> set go_spaces \<Longrightarrow> w \<noteq> [] \<Longrightarrow> hd w \<noteq> c \<and> last w \<noteq> c"
  by (auto simp: go_spaces_def plain_char_def)

lemma trim_left_plain:
  "plain_char c \<Longrightarrow> trim_left_by go_spaces (c # cs) = c # cs"
  "plain_char c \<Longrightarrow> trim_left_by (map rev go_spaces) (c # cs) = c # cs"
proof -
  assume c: "plain_char c"
  have "head_word go_spaces (c # cs) = 0" using go_spaces_hd [OF c] by (intro head_word_0) auto
  then show "trim_left_by go_spaces (c # cs) = c # cs" by (subst trim_left_by.simps) simp
  have "head_word (map rev go_spaces) (c # cs) = 0"
    using go_spaces_hd [OF c] by (intro head_word_0) (fastforce simp: hd_rev)
  then show "trim_left_by (map rev go_spaces) (c # cs) = c # cs" by (subst trim_left_by.simps) simp
qed

lemma TrimSpace_plain: "s \<noteq> [] \<Longrightarrow> plain_char (hd s) \<Longrightarrow> plain_char (last s) \<Longrightarrow> TrimSpace s = s"
proof -
  assume s: "s \<noteq> []" "plain_char (hd s)" "plain_char (last s)"
  have "trim_left_by go_spaces s = s" using s trim_left_plain(1) [of "hd s" "tl s"] by simp
  moreover have "trim_left_by (map rev go_spaces) (rev s) = rev s"
  proof -
    obtain d ds where "rev s = d # ds" using s by (cases "rev s") auto
    moreover have "d = last s" using calculation by (metis hd_rev list.sel(1))
    ultimately show ?thesis using trim_left_plain(2) [of d ds] s(3) by metis
  qed
  ultimately show ?thesis by (simp add: TrimSpace_def)
qed

lemma digit_plain: "c \<in> set (nat_digits n) \<Longrightarrow> plain_char c \<and> upper_char c = c \<and> c \<noteq> CHR ''B'' \<and>
    c \<noteq> CHR ''G'' \<and> c \<noteq> CHR ''M'' \<and> c \<noteq> CHR ''K''"
  using nat_digits_range [of c n] by (auto simp: plain_char_def upper_char_def Let_def)

lemma ToUpper_digits: "ToUpper (nat_digits n) = nat_digits n"
  using digit_plain by (auto simp: ToUpper_def intro: map_idI)

lemma TrimSpace_digits: "TrimSpace (nat_digits n) = nat_digits n"
  using digit_plain [of "hd (nat_digits n)" n] digit_plain [of "last (nat_digits n)" n]
  by (intro TrimSpace_plain) auto

lemma parse_int_digits: "n < 2 ^ 63 \<Longrightarrow> parse_int 10 64 (nat_digits n) = Some (int n)"
  using atoi_itoa [of "int n"] by (simp add: atoi_def itoa_def)

lemma trim_suffix_append [simp]: "trim_suffix (s @ p) p = s"
  by (simp add: trim_suffix_def has_suffix_def)

lemma size_unit_digits:
  "size_unit (nat_digits n @ ''GB'') = (1024 * 1024 * 1024, nat_digits n)"
  "size_unit (nat_digits n @ ''MB'') = (1024 * 1024, nat_digits n)"
  "size_unit (nat_digits n @ ''KB'') = (1024, nat_digits n)"
  "size_unit (nat_digits n @ ''B'') = (1, nat_digits n)"
  "size_unit (nat_digits n) = (1, nat_digits n)"
proof -
  obtain d ds where r: "rev (nat_digits n) = d # ds" by (cases "rev (nat_digits n)") auto
  then have "d \<in> set (nat_digits n)" by (metis list.set_intros(1) set_rev)
  from digit_plain [OF this] r
  show "size_unit (nat_digits n @ ''GB'') = (1024 * 1024 * 1024, nat_digits n)"
    "size_unit (nat_digits n @ ''MB'') = (1024 * 1024, nat_digits n)"
    "size_unit (nat_digits n @ ''KB'') = (1024, nat_digits n)"
    "size_unit (nat_digits n @ ''B'') = (1, nat_digits n)"
    "size_unit (nat_digits n) = (1, nat_digits n)"
    using trim_suffix_append [of "nat_digits n"]
    by (simp_all add: size_unit_def has_suffix_def has_prefix_def)
qed

definition unit_bytes :: "(string \<times> int) list" where
  "unit_bytes = [([], 1), (''B'', 1), (''KB'', 1024), (''MB'', 1024 * 1024), (''GB'', 1024 * 1024 * 1024)]"

lemma parse_size_value:
  assumes "(u, m) \<in> set unit_bytes" and n: "n < 2 ^ 63"
  shows "parseSize (nat_digits n @ u) = Some (i64 (int n * m))"
proof -
  have d: "nat_digits n \<noteq> []" "plain_char (hd (nat_digits n))" "plain_char (last (nat_digits n))"
    using digit_plain [of "hd (nat_digits n)" n] digit_plain [of "last (nat_digits n)" n] by auto
  have t: "TrimSpace (nat_digits n @ u) = nat_digits n @ u"
    using assms(1) d by (intro TrimSpace_plain) (auto simp: unit_bytes_def plain_char_def)
  have up: "ToUpper (nat_digits n @ u) = nat_digits n @ u"
    using assms(1) ToUpper_digits [of n] by (auto simp: unit_bytes_def ToUpper_def upper_char_def Let_def)
  have su: "size_unit (nat_digits n @ u) = (m, nat_digits n)"
    using assms(1) size_unit_digits [of n] by (auto simp: unit_bytes_def)
  show ?thesis
  proof (cases "nat_digits n @ u = ''0''")
    case True
    then have "u = []" "nat_digits n = ''0''" using d(1) by (auto simp: append_eq_Cons_conv)
    then have "n = 0" using digits_val_nat_digits [of n] by (simp add: digit_val_def)
    then show ?thesis using True t by (simp add: parseSize_def Let_def i64_def)
  next
    case False
    moreover have "nat_digits n @ u \<noteq> []" using d(1) by simp
    ultimately show ?thesis unfolding parseSize_def Let_def t up su prod.case TrimSpace_digits
      parse_int_digits [OF n] option.case by simp
  qed
qed

text \<open>
  A decimal number followed by no unit or by B, KB, MB or GB is read as that
  many bytes, as long as the product fits an \<open>int64\<close>.
\<close>

theorem parse_size_units:
  assumes "(u, m) \<in> set unit_bytes" and "int n * m < 2 ^ 63"
  shows "ParseSize (nat_digits n @ u) = int n * m \<and> CheckSize (nat_digits n @ u)"
proof -
  have m: "1 \<le> m" using assms(1) by (auto simp: unit_bytes_def)
  have "int n \<le> int n * m" using mult_left_mono [OF m, of "int n"] by simp
  then have "n < 2 ^ 63" using assms(2) by simp
  moreover have "i64 (int n * m) = int n * m"
    using assms(2) m by (intro i64_id) (auto intro: order_trans [of _ 0])
  ultimately show ?thesis
    using parse_size_value [OF assms(1)] by (simp add: ParseSize_def CheckSize_def)
qed

theorem parse_size_units_witness: "ParseSize (nat_digits 50 @ ''MB'') = 52428800"
  using parse_size_units [of "''MB''" "1024 * 1024" 50] by (simp add: unit_bytes_def)

text \<open>
  Beyond that the product wraps around and \<open>CheckSize\<close> still accepts it: a
  configured 8589934592GB becomes a negative limit and 17179869184GB becomes 0, no limit.
\<close>

theorem parse_size_overflow:
  "CheckSize ''8589934592GB'' \<and> ParseSize ''8589934592GB'' = - (2 ^ 63) \<and>
   CheckSize ''17179869184GB'' \<and> ParseSize ''17179869184GB'' = 0"
proof -
  have "nat_digits 8589934592 = ''8589934592''" "nat_digits 17179869184 = ''17179869184''"
    by (simp_all add: nat_digits.simps)
  then show ?thesis
    using parse_size_value [of "''GB''" "1024 * 1024 * 1024" 8589934592]
      parse_size_value [of "''GB''" "1024 * 1024 * 1024" 17179869184]
    by (simp add: unit_bytes_def CheckSize_def ParseSize_def i64_def)
qed

end
