(* ===== verification/Config_Validate.thy ===== *)
theory Config_Validate
  imports Config_Types Log_Files
begin

text \<open>
  \<open>internal/config/names.go\<close> and \<open>validate.go\<close>: the names a program's processes get and the
  checks a configuration must pass.  A Go error is a constructor of \<open>cfg_error\<close>, which says
  what is refused and for which table; its text is not modelled.  \<open>net.SplitHostPort\<close> and
  \<open>net.LookupPort\<close> are the parameters \<open>split_host\<close> and \<open>lookup_port\<close>; \<open>runtime.GOOS\<close> is \<open>goos\<close>.
\<close>

section \<open>Process names\<close>

definition instanceName :: "string \<Rightarrow> ProgramConfig \<Rightarrow> int \<Rightarrow> string" where
  "instanceName program p num =
     (if pc_ProcessName p = [] then program @ ''_'' @ itoa num
      else replacer
        [(''%(program_name)s'', program), (''%(process_num)d'', itoa num),
         (''%(group_name)s'', program), (''%(numprocs)d'', itoa (pc_Numprocs p))]
        (pc_ProcessName p))"

text \<open>The loop bound \<open>NumprocsStart + Numprocs\<close> is a sum of 64-bit integers.\<close>

definition InstanceNames :: "string \<Rightarrow> ProgramConfig \<Rightarrow> string list" where
  "InstanceNames program p =
     (if pc_Numprocs p \<le> 1
      then (if pc_ProcessName p \<noteq> [] \<and> pc_ProcessName p \<noteq> program then [pc_ProcessName p] else [program])
      else map (instanceName program p)
        [pc_NumprocsStart p .. i64 (pc_NumprocsStart p + pc_Numprocs p) - 1])"

datatype name_error =
    MissingProcessNum string
  | DuplicateProcessName string string string

text \<open>The inner loop over the names of one program: the owners so far and the errors.\<close>

fun claim_names ::
  "string \<Rightarrow> string list \<Rightarrow> (string \<times> string) list \<Rightarrow> (string \<times> string) list \<times> name_error list" where
  "claim_names prog [] owner = (owner, [])"
| "claim_names prog (n # ns) owner =
     (case map_of owner n of
        Some other \<Rightarrow>
          (let (owner', errs) = claim_names prog ns owner
           in (owner', DuplicateProcessName n other prog # errs))
      | None \<Rightarrow> claim_names prog ns ((n, prog) # owner))"

fun validate_names_loop ::
  "(string \<times> ProgramConfig) list \<Rightarrow> string list \<Rightarrow> (string \<times> string) list \<Rightarrow> name_error list" where
  "validate_names_loop progs [] owner = []"
| "validate_names_loop progs (prog # rest) owner =
     (case map_of progs prog of
        None \<Rightarrow> validate_names_loop progs rest owner
      | Some p \<Rightarrow>
          if pc_Numprocs p > 1 \<and> pc_ProcessName p \<noteq> [] \<and> \<not> contains (pc_ProcessName p) ''%(process_num)d''
          then MissingProcessNum prog # validate_names_loop progs rest owner
          else let (owner', errs) = claim_names prog (InstanceNames prog p) owner
               in errs @ validate_names_loop progs rest owner')"

definition validateProcessNames :: "Config \<Rightarrow> name_error list" where
  "validateProcessNames cfg =
     validate_names_loop (cf_Programs cfg) (sort_strings (map fst (cf_Programs cfg))) []"

lemma claim_names_ok:
  "claim_names prog ns owner = (owner', []) \<Longrightarrow>
   distinct ns \<and> set ns \<inter> dom (map_of owner) = {} \<and> dom (map_of owner') = dom (map_of owner) \<union> set ns"
proof (induction ns arbitrary: owner)
  case (Cons n ns)
  have n: "map_of owner n = None"
    using Cons.prems by (cases "map_of owner n") (auto split: prod.splits)
  then have "claim_names prog ns ((n, prog) # owner) = (owner', [])" using Cons.prems by simp
  from Cons.IH [OF this] n show ?case by (auto simp: domIff)
qed simp

lemma validate_names_loop_ok:
  "validate_names_loop progs names owner = [] \<Longrightarrow> (\<And>n. n \<in> set names \<Longrightarrow> map_of progs n \<noteq> None) \<Longrightarrow>
   (let all = concat (map (\<lambda>n. InstanceNames n (the (map_of progs n))) names)
    in distinct all \<and> set all \<inter> dom (map_of owner) = {})"
proof (induction names arbitrary: owner)
  case (Cons n names)
  obtain p where p: "map_of progs n = Some p" using Cons.prems(2) [of n] by auto
  obtain owner' errs where c: "claim_names n (InstanceNames n p) owner = (owner', errs)" by fastforce
  have "errs = []" and loop: "validate_names_loop progs names owner' = []"
    using Cons.prems(1) p c by (auto split: if_splits)
  with c have ok: "distinct (InstanceNames n p)" "set (InstanceNames n p) \<inter> dom (map_of owner) = {}"
    "dom (map_of owner') = dom (map_of owner) \<union> set (InstanceNames n p)"
    using claim_names_ok by blast+
  have IH: "distinct (concat (map (\<lambda>n. InstanceNames n (the (map_of progs n))) names))"
    "set (concat (map (\<lambda>n. InstanceNames n (the (map_of progs n))) names)) \<inter> dom (map_of owner') = {}"
    using Cons.IH [OF loop] Cons.prems(2) by (simp_all add: Let_def)
  show ?case using IH ok p by (simp add: Let_def) blast
qed simp

text \<open>
  When the name check reports nothing, no two processes of the configuration
  share a name: the names all its programs expand to, instances of one program included, are
  pairwise distinct.
\<close>

theorem validated_process_names_distinct:
  assumes "validateProcessNames cfg = []"
  shows "distinct (concat (map (\<lambda>n. InstanceNames n (the (map_of (cf_Programs cfg) n)))
     (sort_strings (map fst (cf_Programs cfg)))))"
  using validate_names_loop_ok [OF assms [unfolded validateProcessNames_def]]
  by (force simp: Let_def map_of_eq_None_iff)

theorem validated_process_names_distinct_witness:
  "distinct (concat (map (\<lambda>n. InstanceNames n (the (map_of (cf_Programs sample_config) n)))
     (sort_strings (map fst (cf_Programs sample_config)))))"
  by (rule validated_process_names_distinct)
    (simp add: validateProcessNames_def sample_config_def sample_program_def zero_program_def
      sort_strings_def InstanceNames_def)

section \<open>Log level and format\<close>

definition ValidateLevel :: "string \<Rightarrow> bool" where
  "ValidateLevel s \<longleftrightarrow> ToLower (TrimSpace s) \<in> {''debug'', ''info'', ''warn'', ''error''}"

definition ValidateFormat :: "string \<Rightarrow> bool" where
  "ValidateFormat s \<longleftrightarrow> ToLower (TrimSpace s) \<in> {''json'', ''text''}"

datatype log_level = LevelDebug | LevelInfo | LevelWarn | LevelError

definition parseLevel :: "string \<Rightarrow> log_level" where
  "parseLevel s =
     (let l = ToLower (TrimSpace s) in
      if l = ''debug'' then LevelDebug else if l = ''warn'' then LevelWarn
      else if l = ''error'' then LevelError else LevelInfo)"

section \<open>Checks\<close>

definition validSignals :: "string list" where
  "validSignals = [''TERM'', ''HUP'', ''INT'', ''QUIT'', ''KILL'', ''USR1'', ''USR2'']"

definition knownRLimits :: "string list" where
  "knownRLimits = [''KAHI_RLIMIT_NOFILE'', ''KAHI_RLIMIT_NPROC'', ''KAHI_RLIMIT_CORE'',
     ''KAHI_RLIMIT_FSIZE'', ''KAHI_RLIMIT_AS'', ''KAHI_RLIMIT_DATA'', ''KAHI_RLIMIT_STACK'',
     ''KAHI_RLIMIT_RSS'']"

definition validAutorestartValues :: "string list" where
  "validAutorestartValues = [''true'', ''false'', ''unexpected'']"

datatype cfg_error =
    CommandRequired string
  | BadPriority string int
  | BadAutorestart string string
  | BadStopsignal string string
  | KillasgroupFalse string
  | BadNumprocs string int
  | BadStopwaitsecs string int
  | Negative string string int
  | BadSize string string string
  | UnknownRLimit string string
  | BadRLimit string string string
  | BadShutdownTimeout int
  | BadMinfds int
  | BadMinprocs int
  | MissingCredentials
  | BadListen string
  | PlainPassword
  | BadGroupPriority string int
  | BadLogLevel string
  | BadLogFormat string
  | ChownUnsupported
  | BadChmod string
  | OpenSocket string
  | SocketPathTooLong string int
  | WebWithoutHTTP

definition err_if :: "bool \<Rightarrow> 'e \<Rightarrow> 'e list" where
  "err_if b e = (if b then [e] else [])"

lemma err_if_Nil [simp]: "err_if b e = [] \<longleftrightarrow> \<not> b"
  by (simp add: err_if_def)

definition validRLimitComponent :: "string \<Rightarrow> bool" where
  "validRLimitComponent s0 =
     (let s = TrimSpace s0 in
      ToLower s = ''unlimited'' \<or> s = ''-1'' \<or> parse_uint 10 64 s \<noteq> None)"

definition validRLimitValue :: "string \<Rightarrow> bool" where
  "validRLimitValue s =
     (case cut (CHR '':'') s of
        (a, None) \<Rightarrow> validRLimitComponent a
      | (a, Some b) \<Rightarrow> validRLimitComponent a \<and> validRLimitComponent b)"

fun validateRLimits :: "string \<Rightarrow> (string \<times> string) list \<Rightarrow> cfg_error list" where
  "validateRLimits pre [] = []"
| "validateRLimits pre ((k, v) # env) =
     (let name = ToUpper k in
      if \<not> has_prefix name ''KAHI_RLIMIT_'' then []
      else if name \<notin> set knownRLimits then [UnknownRLimit pre name]
      else err_if (\<not> validRLimitValue v) (BadRLimit pre name v)) @ validateRLimits pre env"

definition stop_signal_name :: "string \<Rightarrow> string" where
  "stop_signal_name s = trim_prefix (ToUpper s) ''SIG''"

definition validate_program :: "string \<Rightarrow> ProgramConfig \<Rightarrow> cfg_error list" where
  "validate_program name p =
     err_if (TrimSpace (pc_Command p) = []) (CommandRequired name) @
     err_if (pc_Priority p < 0 \<or> pc_Priority p > 999) (BadPriority name (pc_Priority p)) @
     err_if (pc_Autorestart p \<notin> set validAutorestartValues) (BadAutorestart name (pc_Autorestart p)) @
     err_if (stop_signal_name (pc_Stopsignal p) \<notin> set validSignals) (BadStopsignal name (pc_Stopsignal p)) @
     err_if (pc_Stopasgroup p \<and> \<not> pc_Killasgroup p) (KillasgroupFalse name) @
     err_if (pc_Numprocs p < 1) (BadNumprocs name (pc_Numprocs p)) @
     err_if (pc_Stopwaitsecs p < 1) (BadStopwaitsecs name (pc_Stopwaitsecs p)) @
     concat (map (\<lambda>(key, v). err_if (v < 0) (Negative name key v))
       [(''startsecs'', pc_Startsecs p), (''startretries'', pc_Startretries p),
        (''stdout_logfile_backups'', pc_StdoutLogfileBackups p),
        (''stderr_logfile_backups'', pc_StderrLogfileBackups p)]) @
     concat (map (\<lambda>(key, v). err_if (\<not> CheckSize v) (BadSize name key v))
       [(''stdout_logfile_maxbytes'', pc_StdoutLogfileMaxbytes p),
        (''stderr_logfile_maxbytes'', pc_StderrLogfileMaxbytes p)]) @
     validateRLimits name (pc_Environment p)"

definition maxSocketPath :: "string \<Rightarrow> int" where
  "maxSocketPath goos = (if goos = ''linux'' then 107 else 103)"

text \<open>The mask \<open>0o077\<close> is 63.\<close>

definition validateUnixServer :: "string \<Rightarrow> UnixServerConfig \<Rightarrow> cfg_error list" where
  "validateUnixServer goos u =
     err_if (TrimSpace (ux_Chown u) \<noteq> []) ChownUnsupported @
     (let mode = TrimSpace (ux_Chmod u) in
      if mode = [] then []
      else case parse_uint 8 32 mode of
        None \<Rightarrow> [BadChmod mode]
      | Some perm \<Rightarrow> err_if (and perm 63 \<noteq> 0) (OpenSocket mode)) @
     err_if (int (length (ux_File u)) > maxSocketPath goos)
       (SocketPathTooLong (ux_File u) (int (length (ux_File u))))"

definition validateListen ::
  "(string \<Rightarrow> (string \<times> string) option) \<Rightarrow> (string \<Rightarrow> bool) \<Rightarrow> string \<Rightarrow> bool" where
  "validateListen split_host lookup_port listen =
     (case split_host listen of None \<Rightarrow> False | Some (_, port) \<Rightarrow> lookup_port port)"

definition Validate ::
  "(string \<Rightarrow> (string \<times> string) option) \<Rightarrow> (string \<Rightarrow> bool) \<Rightarrow> string \<Rightarrow> Config \<Rightarrow> cfg_error list" where
  "Validate split_host lookup_port goos cfg =
     (let sv = cf_Supervisor cfg; http = sc_HTTP (cf_Server cfg) in
      concat (map (\<lambda>(name, p). validate_program name p) (cf_Programs cfg)) @
      err_if (sv_ShutdownTimeout sv < 1) (BadShutdownTimeout (sv_ShutdownTimeout sv)) @
      err_if (sv_Minfds sv < 0) (BadMinfds (sv_Minfds sv)) @
      err_if (sv_Minprocs sv < 0) (BadMinprocs (sv_Minprocs sv)) @
      (if ht_Enabled http
       then err_if (TrimSpace (ht_Username http) = [] \<or> ht_Password http = []) MissingCredentials @
            err_if (\<not> validateListen split_host lookup_port (ht_Listen http)) (BadListen (ht_Listen http))
       else []) @
      err_if (ht_Password http \<noteq> [] \<and> \<not> has_prefix (ht_Password http) ''$2'') PlainPassword @
      concat (map (\<lambda>(name, g). err_if (gc_Priority g < 0 \<or> gc_Priority g > 999)
        (BadGroupPriority name (gc_Priority g))) (cf_Groups cfg)) @
      err_if (sv_LogLevel sv \<noteq> [] \<and> \<not> ValidateLevel (sv_LogLevel sv)) (BadLogLevel (sv_LogLevel sv)) @
      err_if (sv_LogFormat sv \<noteq> [] \<and> \<not> ValidateFormat (sv_LogFormat sv)) (BadLogFormat (sv_LogFormat sv)) @
      validateUnixServer goos (sc_Unix (cf_Server cfg)) @
      err_if (wb_Enabled (sc_Web (cf_Server cfg)) \<and> \<not> ht_Enabled http) WebWithoutHTTP)"

definition listenWarnings :: "(string \<Rightarrow> (string \<times> string) option) \<Rightarrow> Config \<Rightarrow> string list" where
  "listenWarnings split_host cfg =
     (let http = sc_HTTP (cf_Server cfg) in
      if \<not> ht_Enabled http then []
      else case split_host (ht_Listen http) of
        None \<Rightarrow> []
      | Some (host, _) \<Rightarrow>
          if host \<noteq> [] \<and> host \<noteq> ''0.0.0.0'' \<and> host \<noteq> ''::'' then []
          else [''server.http.listen '' @ ht_Listen http @
                '' binds all interfaces; the API is reachable from the network''])"

section \<open>What validation guarantees\<close>

lemma validate_program_ok:
  assumes "Validate split_host lookup_port goos cfg = []" and "(name, p) \<in> set (cf_Programs cfg)"
  shows "validate_program name p = []"
  using assms by (auto simp: Validate_def Let_def)

lemma validated_stop_signal:
  "validate_program name p = [] \<Longrightarrow> stop_signal_name (pc_Stopsignal p) \<in> set validSignals"
  by (simp add: validate_program_def)

lemma validated_stopasgroup:
  "validate_program name p = [] \<Longrightarrow> pc_Stopasgroup p \<Longrightarrow> pc_Killasgroup p"
  by (simp add: validate_program_def)

lemma validated_limits:
  "validate_program name p = [] \<Longrightarrow>
   1 \<le> pc_Numprocs p \<and> 1 \<le> pc_Stopwaitsecs p \<and> 0 \<le> pc_Startsecs p \<and> 0 \<le> pc_Startretries p \<and>
   0 \<le> pc_Priority p \<and> pc_Priority p \<le> 999"
  by (simp add: validate_program_def)

lemma validated_rlimits:
  "validateRLimits pre env = [] \<Longrightarrow> (k, v) \<in> set env \<Longrightarrow> has_prefix (ToUpper k) ''KAHI_RLIMIT_'' \<Longrightarrow>
   ToUpper k \<in> set knownRLimits \<and> validRLimitValue v"
  by (induction pre env rule: validateRLimits.induct) (auto simp: Let_def split: if_splits)

text \<open>
  A configuration that passes validation is not open to others: a TCP listener
  has a user name and a bcrypt password, the control socket's mode gives group and others no
  permission bit, and the web interface is only on together with the authenticated listener.
\<close>

theorem validated_access_is_closed:
  assumes "Validate split_host lookup_port goos cfg = []"
  shows "(ht_Enabled (sc_HTTP (cf_Server cfg)) \<longrightarrow>
            TrimSpace (ht_Username (sc_HTTP (cf_Server cfg))) \<noteq> [] \<and>
            has_prefix (ht_Password (sc_HTTP (cf_Server cfg))) ''$2'') \<and>
         (TrimSpace (ux_Chmod (sc_Unix (cf_Server cfg))) \<noteq> [] \<longrightarrow>
            (\<exists>perm. parse_uint 8 32 (TrimSpace (ux_Chmod (sc_Unix (cf_Server cfg)))) = Some perm \<and>
                    (\<forall>i<6. \<not> bit perm i))) \<and>
         (wb_Enabled (sc_Web (cf_Server cfg)) \<longrightarrow> ht_Enabled (sc_HTTP (cf_Server cfg)))"
proof -
  have http: "ht_Enabled (sc_HTTP (cf_Server cfg)) \<longrightarrow>
            TrimSpace (ht_Username (sc_HTTP (cf_Server cfg))) \<noteq> [] \<and>
            has_prefix (ht_Password (sc_HTTP (cf_Server cfg))) ''$2''"
    and web: "wb_Enabled (sc_Web (cf_Server cfg)) \<longrightarrow> ht_Enabled (sc_HTTP (cf_Server cfg))"
    and unix: "validateUnixServer goos (sc_Unix (cf_Server cfg)) = []"
    using assms by (auto simp: Validate_def Let_def)
  have bits: "\<not> bit perm i" if "and perm 63 = 0" "i < 6" for perm i :: nat
  proof -
    have "(63 :: nat) = mask 6" by (simp add: mask_eq_exp_minus_1)
    then have "bit (and perm 63) i = bit perm i"
      using that(2) by (simp only: bit_and_iff bit_mask_iff) auto
    then show ?thesis using that(1) by simp
  qed
  have "\<exists>perm. parse_uint 8 32 m = Some perm \<and> (\<forall>i<6. \<not> bit perm i)"
    if "m = TrimSpace (ux_Chmod (sc_Unix (cf_Server cfg)))" "m \<noteq> []" for m
    using unix that bits
    by (cases "parse_uint 8 32 m") (simp_all add: validateUnixServer_def Let_def)
  then show ?thesis using http web by blast
qed

definition bare_config :: Config where
  "bare_config = ApplyDefaults (\<lambda>_. False) RootSocketPath (sample_config\<lparr>cf_Programs := []\<rparr>)"

lemma bare_config_chmod: "TrimSpace (ux_Chmod (sc_Unix (cf_Server bare_config))) = ''0700''"
  by code_simp

lemma bare_config_valid: "Validate (\<lambda>_. None) (\<lambda>_. True) ''linux'' bare_config = []"
proof -
  have "validateUnixServer ''linux'' (sc_Unix (cf_Server bare_config)) = []"
  proof -
    have "parse_uint 8 32 ''0700'' = Some 448" by (simp add: parse_uint_def digit_val_def)
    moreover have "and 448 63 = (0 :: nat)" by simp
    moreover have "TrimSpace (ux_Chown (sc_Unix (cf_Server bare_config))) = []" by code_simp
    moreover have "length (ux_File (sc_Unix (cf_Server bare_config))) = 18" by code_simp
    ultimately show ?thesis
      by (simp add: validateUnixServer_def bare_config_chmod maxSocketPath_def)
  qed
  moreover have "ValidateLevel ''info''" "ValidateFormat ''json''" by code_simp+
  ultimately show ?thesis
    by (simp add: Validate_def Let_def)
      (simp add: bare_config_def ApplyDefaults_def sample_config_def default_supervisor_def
        or_default_def unset_def)
qed

theorem validated_access_is_closed_witness:
  "\<exists>perm. parse_uint 8 32 ''0700'' = Some perm \<and> (\<forall>i<6. \<not> bit perm (i::nat))"
  using validated_access_is_closed [OF bare_config_valid] by (simp add: bare_config_chmod)

end
