(* ===== verification/Spawn_Params.thy ===== *)
theory Spawn_Params
  imports Config_Validate
begin

text \<open>
  \<open>internal/process/rlimit.go\<close>, \<open>umask.go\<close>, \<open>credential.go\<close>, \<open>childinit.go\<close> and the argument
  vector of \<open>spawner.go\<close>: the parameters a child is started with, and the trampoline through
  which resource limits and the umask reach it.  The constants are those of Linux.
\<close>

section \<open>A list codec\<close>

text \<open>Items whose encodings are free of the separator can be joined and split again.\<close>

locale sep_codec =
  fixes enc :: "'a \<Rightarrow> string" and dec :: "string \<Rightarrow> 'a option" and ok :: "'a \<Rightarrow> bool" and sep :: char
  assumes dec_enc: "ok x \<Longrightarrow> dec (enc x) = Some x"
    and enc_free: "ok x \<Longrightarrow> sep \<notin> set (enc x)"
    and enc_not_Nil: "enc x \<noteq> []"
begin

fun dec_all :: "string list \<Rightarrow> 'a list option" where
  "dec_all [] = Some []"
| "dec_all (w # ws) =
     (case dec w of None \<Rightarrow> None | Some x \<Rightarrow> map_option ((#) x) (dec_all ws))"

lemma dec_all_enc: "list_all ok xs \<Longrightarrow> dec_all (map enc xs) = Some xs"
  by (induction xs) (auto simp: dec_enc)

lemma split_enc: "xs \<noteq> [] \<Longrightarrow> list_all ok xs \<Longrightarrow> split_on sep (join [sep] (map enc xs)) = map enc xs"
  using enc_free by (intro split_on_join) (auto simp: list_all_iff)

lemma dec_join: "xs \<noteq> [] \<Longrightarrow> list_all ok xs \<Longrightarrow> dec_all (split_on sep (join [sep] (map enc xs))) = Some xs"
  by (simp add: split_enc dec_all_enc)

lemma join_enc_not_Nil: "xs \<noteq> [] \<Longrightarrow> join [sep] (map enc xs) \<noteq> []"
  using enc_not_Nil by (cases xs; cases "tl xs") auto

end

section \<open>Resource limits\<close>

record RLimit =
  rl_Resource :: int
  rl_Cur :: "64 word"
  rl_Max :: "64 word"

definition rlimit_resource :: "string \<Rightarrow> int option" where
  "rlimit_resource k =
     map_of [(''KAHI_RLIMIT_NOFILE'', 7), (''KAHI_RLIMIT_NPROC'', 6), (''KAHI_RLIMIT_CORE'', 4),
       (''KAHI_RLIMIT_FSIZE'', 1), (''KAHI_RLIMIT_AS'', 9), (''KAHI_RLIMIT_DATA'', 2),
       (''KAHI_RLIMIT_STACK'', 3), (''KAHI_RLIMIT_RSS'', 5)] k"

definition parseUint64 :: "string \<Rightarrow> 64 word option" where
  "parseUint64 s0 =
     (let s = TrimSpace s0 in
      if ToLower s = ''unlimited'' \<or> s = ''-1'' then Some (not 0)
      else map_option word_of_nat (parse_uint 10 64 s))"

definition parseRLimitValue :: "string \<Rightarrow> (64 word \<times> 64 word) option" where
  "parseRLimitValue s =
     (case cut (CHR '':'') s of
        (a, Some b) \<Rightarrow>
          (case (parseUint64 a, parseUint64 b) of
             (Some c, Some m) \<Rightarrow> Some (c, m)
           | _ \<Rightarrow> None)
      | (a, None) \<Rightarrow>
          (case parseUint64 a of None \<Rightarrow> None | Some v \<Rightarrow> Some (v, v)))"

fun parse_rlimit_env :: "(string \<times> string) list \<Rightarrow> RLimit list" where
  "parse_rlimit_env [] = []"
| "parse_rlimit_env ((k, v) # env) =
     (case rlimit_resource (ToUpper k) of
        None \<Rightarrow> parse_rlimit_env env
      | Some r \<Rightarrow>
          (case parseRLimitValue v of
             None \<Rightarrow> parse_rlimit_env env
           | Some (c, m) \<Rightarrow> \<lparr>rl_Resource = r, rl_Cur = c, rl_Max = m\<rparr> # parse_rlimit_env env))"

definition ParseRLimits :: "ProgramConfig \<Rightarrow> RLimit list" where
  "ParseRLimits cfg = parse_rlimit_env (pc_Environment cfg)"

section \<open>Umask and credentials\<close>

text \<open>\<open>None\<close> is the error.\<close>

definition ParseUmask :: "string \<Rightarrow> int option" where
  "ParseUmask s =
     (if s = [] then Some (- 1)
      else case parse_int 8 32 s of
        None \<Rightarrow> None
      | Some v \<Rightarrow> if v < 0 \<or> v > 511 then None else Some v)"

record Credential =
  cr_Uid :: "32 word"
  cr_Gid :: "32 word"

text \<open>The outer option is the error, the inner one the nil pointer.\<close>

definition ParseCredential :: "string \<Rightarrow> Credential option option" where
  "ParseCredential user =
     (if user = [] then Some None
      else case cut (CHR '':'') user of
        (u, g) \<Rightarrow>
          (case parse_uint 10 32 u of
             None \<Rightarrow> None
           | Some uid \<Rightarrow>
               (case g of
                  None \<Rightarrow> Some (Some \<lparr>cr_Uid = word_of_nat uid, cr_Gid = word_of_nat uid\<rparr>)
                | Some gs \<Rightarrow>
                    (case parse_uint 10 32 gs of
                       None \<Rightarrow> None
                     | Some gid \<Rightarrow> Some (Some \<lparr>cr_Uid = word_of_nat uid, cr_Gid = word_of_nat gid\<rparr>)))))"

record SysProcAttr =
  sp_Setpgid :: bool
  sp_Credential :: "Credential option"

definition BuildSysProcAttr :: "string \<Rightarrow> SysProcAttr option" where
  "BuildSysProcAttr user =
     map_option (\<lambda>cred. \<lparr>sp_Setpgid = True, sp_Credential = cred\<rparr>) (ParseCredential user)"

section \<open>The trampoline\<close>

definition ChildInitArg :: string where "ChildInitArg = ''__spawn''"

definition encode_rlimit :: "RLimit \<Rightarrow> string" where
  "encode_rlimit rl =
     itoa (rl_Resource rl) @ '':'' @ nat_digits (unat (rl_Cur rl)) @ '':'' @ nat_digits (unat (rl_Max rl))"

definition encodeRLimits :: "RLimit list \<Rightarrow> string" where
  "encodeRLimits limits = (if limits = [] then [] else join '','' (map encode_rlimit limits))"

definition decode_rlimit :: "string \<Rightarrow> RLimit option" where
  "decode_rlimit entry =
     (case split_on (CHR '':'') entry of
        [r, c, m] \<Rightarrow>
          (case (atoi r, parse_uint 10 64 c, parse_uint 10 64 m) of
             (Some resource, Some cur, Some maxval) \<Rightarrow>
               Some \<lparr>rl_Resource = resource, rl_Cur = word_of_nat cur, rl_Max = word_of_nat maxval\<rparr>
           | _ \<Rightarrow> None)
      | _ \<Rightarrow> None)"

fun decode_entries :: "string list \<Rightarrow> RLimit list option" where
  "decode_entries [] = Some []"
| "decode_entries (entry # entries) =
     (case decode_rlimit entry of
        None \<Rightarrow> None
      | Some rl \<Rightarrow> map_option ((#) rl) (decode_entries entries))"

definition decodeRLimits :: "string \<Rightarrow> RLimit list option" where
  "decodeRLimits s = (if s = [] then Some [] else decode_entries (split_on (CHR '','') s))"

definition IsChildInit :: "string list \<Rightarrow> bool" where
  "IsChildInit argv \<longleftrightarrow> length argv > 1 \<and> argv ! 1 = ChildInitArg"

datatype child_error = Malformed | BadUmask string | BadLimits string | LimitRefused RLimit | ExecFailed string

definition parseChildInit :: "string list \<Rightarrow> child_error + (int \<times> RLimit list \<times> string list)" where
  "parseChildInit argv =
     (if length argv < 6 \<or> argv ! 1 \<noteq> ChildInitArg \<or> argv ! 4 \<noteq> ''--'' then Inl Malformed
      else case atoi (argv ! 2) of
        None \<Rightarrow> Inl (BadUmask (argv ! 2))
      | Some umask \<Rightarrow>
          (case decodeRLimits (argv ! 3) of
             None \<Rightarrow> Inl (BadLimits (argv ! 3))
           | Some limits \<Rightarrow>
               let real = drop 5 argv in
               if real = [] then Inl Malformed else Inr (umask, limits, real)))"

text \<open>
  \<open>RunChildInit\<close>: the effects in order, up to the \<open>exec\<close> that ends the trampoline.  \<open>setrlimit\<close> and
  \<open>exec\<close> say whether the call succeeds; \<open>look\<close> is \<open>exec.LookPath\<close>.
\<close>

datatype child_effect = SetLimit RLimit | SetUmask int | Exec string "string list"

fun ApplyRLimits :: "(RLimit \<Rightarrow> bool) \<Rightarrow> RLimit list \<Rightarrow> child_effect list \<times> RLimit option" where
  "ApplyRLimits setrlimit [] = ([], None)"
| "ApplyRLimits setrlimit (rl # rls) =
     (if \<not> setrlimit rl then ([], Some rl)
      else let (effs, err) = ApplyRLimits setrlimit rls in (SetLimit rl # effs, err))"

definition ApplyUmask :: "int \<Rightarrow> child_effect list" where
  "ApplyUmask m = (if m < 0 then [] else [SetUmask m])"

definition RunChildInit ::
  "(RLimit \<Rightarrow> bool) \<Rightarrow> (string \<Rightarrow> string option) \<Rightarrow> (string \<Rightarrow> bool) \<Rightarrow> string list
     \<Rightarrow> child_effect list \<times> child_error option" where
  "RunChildInit setrlimit look exec_ok argv =
     (case parseChildInit argv of
        Inl e \<Rightarrow> ([], Some e)
      | Inr (umask, limits, real) \<Rightarrow>
          (case ApplyRLimits setrlimit limits of
             (effs, Some rl) \<Rightarrow> (effs, Some (LimitRefused rl))
           | (effs, None) \<Rightarrow>
               let effs1 = effs @ ApplyUmask umask;
                   path0 = hd real;
                   path = (if \<not> contains path0 ''/'' then (case look path0 of Some p \<Rightarrow> p | None \<Rightarrow> path0) else path0)
               in if exec_ok path then (effs1 @ [Exec path real], None) else (effs1, Some (ExecFailed path))))"

text \<open>The parameters of a spawn, and the command and arguments \<open>ExecSpawner.Spawn\<close> hands to the system.\<close>

record SpawnConfig =
  sc_Command :: string
  sc_Args :: "string list"
  sc_Dir :: string
  sc_Env :: "string list"
  sc_Umask :: int
  sc_RLimits :: "RLimit list"
  sc_SysProcAttr :: "SysProcAttr option"

definition spawn_argv :: "string \<Rightarrow> SpawnConfig \<Rightarrow> string list" where
  "spawn_argv self cfg =
     (if sc_RLimits cfg \<noteq> [] \<or> sc_Umask cfg \<ge> 0
      then [self, ChildInitArg, itoa (sc_Umask cfg), encodeRLimits (sc_RLimits cfg), ''--'', sc_Command cfg] @
           sc_Args cfg
      else sc_Command cfg # sc_Args cfg)"

section \<open>Correctness\<close>

lemma parseUint64_valid: "validRLimitComponent s \<longleftrightarrow> parseUint64 s \<noteq> None"
  by (simp add: validRLimitComponent_def parseUint64_def Let_def)

text \<open>
  The configuration check and the spawn agree on resource limits: a value
  passes \<open>validRLimitValue\<close> exactly if \<open>parseRLimitValue\<close> reads it, so no limit of a validated
  configuration is silently dropped.
\<close>

theorem rlimit_check_matches_spawn: "validRLimitValue s \<longleftrightarrow> parseRLimitValue s \<noteq> None"
  by (auto simp: validRLimitValue_def parseRLimitValue_def parseUint64_valid split: prod.splits option.splits)

definition rlimit_ok :: "RLimit \<Rightarrow> bool" where
  "rlimit_ok rl \<longleftrightarrow> - (2 ^ 63) \<le> rl_Resource rl \<and> rl_Resource rl < 2 ^ 63"

lemma itoa_free: "(of_char x :: nat) < 45 \<or> 57 < (of_char x :: nat) \<Longrightarrow> x \<notin> set (itoa n)"
  using nat_digits_free [of x] by (auto simp: itoa_def)

lemma colon_free: "CHR '':'' \<notin> set (itoa n)" "CHR '':'' \<notin> set (nat_digits k)"
  by (simp_all add: itoa_free nat_digits_free)

lemma comma_free: "CHR '','' \<notin> set (itoa n)" "CHR '','' \<notin> set (nat_digits k)"
  by (simp_all add: itoa_free nat_digits_free)

lemma decode_encode_rlimit: "rlimit_ok rl \<Longrightarrow> decode_rlimit (encode_rlimit rl) = Some rl"
proof -
  assume ok: "rlimit_ok rl"
  have u: "unat (w :: 64 word) < 2 ^ 64" for w using unsigned_less [of w, where ?'a = nat] by simp
  have "split_on (CHR '':'') (encode_rlimit rl) =
      [itoa (rl_Resource rl), nat_digits (unat (rl_Cur rl)), nat_digits (unat (rl_Max rl))]"
    by (simp add: encode_rlimit_def split_on_append colon_free)
  moreover have "parse_uint 10 64 (nat_digits (unat w)) = Some (unat w)" for w :: "64 word"
    by (rule parse_uint_nat_digits [OF u])
  ultimately show ?thesis
    using ok by (simp add: decode_rlimit_def atoi_itoa rlimit_ok_def)
qed

interpretation rl: sep_codec encode_rlimit decode_rlimit rlimit_ok "CHR '',''"
proof (unfold_locales, goal_cases)
  case (2 x)
  then show ?case by (simp add: comma_free encode_rlimit_def)
next
  case (3 x)
  then show ?case by (simp add: encode_rlimit_def)
qed (rule decode_encode_rlimit)

lemma decode_entries_dec_all: "decode_entries ws = rl.dec_all ws"
  by (induction ws) (auto split: option.splits)

lemma decode_encode_rlimits: "list_all rlimit_ok limits \<Longrightarrow> decodeRLimits (encodeRLimits limits) = Some limits"
  using rl.dec_join rl.join_enc_not_Nil
  by (auto simp: decodeRLimits_def encodeRLimits_def decode_entries_dec_all)

lemma ParseRLimits_ok: "list_all rlimit_ok (ParseRLimits cfg)"
proof -
  have "rlimit_resource k = Some r \<Longrightarrow> 0 \<le> r \<and> r < 10" for k r
    by (auto simp: rlimit_resource_def split: if_splits)
  then have "list_all rlimit_ok (parse_rlimit_env env)" for env
    by (induction env rule: parse_rlimit_env.induct)
      (force simp: rlimit_ok_def split: option.splits)+
  then show ?thesis by (simp add: ParseRLimits_def)
qed

lemma ParseUmask_range: "ParseUmask s = Some m \<Longrightarrow> - 1 \<le> m \<and> m \<le> 511"
  by (auto simp: ParseUmask_def split: if_splits option.splits)

text \<open>
  What a program configures reaches its child: when the configuration asks for
  resource limits or a umask, the supervisor starts itself as a trampoline, and the trampoline
  decodes exactly these limits, this umask and the program's own command line; otherwise the
  command line is started as it is.
\<close>

theorem trampoline_roundtrip:
  assumes "ParseUmask (pc_Umask pc) = Some umask" and "sc_RLimits cfg = ParseRLimits pc"
    and "sc_Umask cfg = umask"
    and "case sc_Args cfg of [] \<Rightarrow> True | a # _ \<Rightarrow> a \<noteq> ChildInitArg"
  shows "if IsChildInit (spawn_argv self cfg)
     then parseChildInit (spawn_argv self cfg) = Inr (umask, ParseRLimits pc, sc_Command cfg # sc_Args cfg)
     else spawn_argv self cfg = sc_Command cfg # sc_Args cfg \<and> ParseRLimits pc = [] \<and> umask < 0"
proof -
  have u: "atoi (itoa umask) = Some umask" using ParseUmask_range [OF assms(1)] by (intro atoi_itoa) auto
  have r: "decodeRLimits (encodeRLimits (ParseRLimits pc)) = Some (ParseRLimits pc)"
    by (rule decode_encode_rlimits [OF ParseRLimits_ok])
  show ?thesis
  proof (cases "ParseRLimits pc \<noteq> [] \<or> umask \<ge> 0")
    case True
    then show ?thesis
      using assms u r by (simp add: spawn_argv_def IsChildInit_def parseChildInit_def nth_Cons numeral_eq_Suc)
  next
    case False
    then show ?thesis using assms by (cases "sc_Args cfg") (simp_all add: spawn_argv_def IsChildInit_def)
  qed
qed

definition sample_spawn :: SpawnConfig where
  "sample_spawn = \<lparr>sc_Command = ''/bin/web'', sc_Args = [''-v''], sc_Dir = [], sc_Env = [], sc_Umask = 18,
     sc_RLimits = [\<lparr>rl_Resource = 7, rl_Cur = 10, rl_Max = 20\<rparr>], sc_SysProcAttr = None\<rparr>"

theorem trampoline_roundtrip_witness:
  "parseChildInit (spawn_argv ''kahi'' sample_spawn) =
     Inr (18, [\<lparr>rl_Resource = 7, rl_Cur = 10, rl_Max = 20\<rparr>], [''/bin/web'', ''-v''])"
proof -
  let ?pc = "zero_program\<lparr>pc_Umask := ''022'', pc_Environment := [(''KAHI_RLIMIT_NOFILE'', ''10:20'')]\<rparr>"
  have u: "ParseUmask (pc_Umask ?pc) = Some 18"
    by (simp add: ParseUmask_def parse_int_def parse_magnitude_def digit_val_def)
  have t: "TrimSpace ''10'' = ''10''" "TrimSpace ''20'' = ''20''" by code_simp+
  have r: "ParseRLimits ?pc = [\<lparr>rl_Resource = 7, rl_Cur = 10, rl_Max = 20\<rparr>]"
    by (simp add: ParseRLimits_def rlimit_resource_def ToUpper_def upper_char_def parseRLimitValue_def
        parseUint64_def t Let_def ToLower_def lower_char_def parse_uint_def digit_val_def)
  have "IsChildInit (spawn_argv ''kahi'' sample_spawn)"
    by (simp add: sample_spawn_def spawn_argv_def IsChildInit_def)
  then show ?thesis
    using trampoline_roundtrip [OF u, of sample_spawn "''kahi''"] r by (simp add: sample_spawn_def ChildInitArg_def)
qed

end
