(* ===== verification/Line_Splitter.thy ===== *)
theory Line_Splitter
  imports Kahi_Prelude
begin

text \<open>
  \<open>internal/logging/lines.go\<close>: the splitter that turns a stream of output chunks into
  lines.  The state is the buffered partial line; an operation returns the new buffer and
  the lines passed to \<open>Emit\<close>, in order.
\<close>

definition maxLineBytes :: nat where "maxLineBytes = 64 * 1024"

definition newline :: char where "newline = CHR 0x0A"
definition carriage_return :: char where "carriage_return = CHR 0x0D"

definition trim_cr :: "string \<Rightarrow> string" where "trim_cr w = trim_suffix w [carriage_return]"

section \<open>The code\<close>

text \<open>The first loop of \<open>Write\<close>: emit up to each newline; the rest stays in the buffer.\<close>

function emit_lines :: "string \<Rightarrow> string list \<times> string" where
  "emit_lines s =
     (case cut newline s of
        (a, None) \<Rightarrow> ([], a)
      | (a, Some r) \<Rightarrow> (let (ls, rest) = emit_lines r in (trim_cr a # ls, rest)))"
  by pat_completeness auto
termination by (relation "measure length") (auto dest: cut_shorter [OF sym])

declare emit_lines.simps [simp del]

text \<open>The second loop: a buffer at the cap is emitted in pieces of the cap's size.\<close>

function emit_pieces :: "string \<Rightarrow> string list \<times> string" where
  "emit_pieces s =
     (if maxLineBytes \<le> length s
      then (let (ls, rest) = emit_pieces (drop maxLineBytes s) in (take maxLineBytes s # ls, rest))
      else ([], s))"
  by pat_completeness auto
termination by (relation "measure length") (auto simp: maxLineBytes_def)

declare emit_pieces.simps [simp del]

definition ls_Write :: "string \<Rightarrow> string \<Rightarrow> string \<times> string list" where
  "ls_Write chunk buf =
     (let (lines, rest) = emit_lines (buf @ chunk); (pieces, rest') = emit_pieces rest
      in (rest', lines @ pieces))"

definition ls_Flush :: "string \<Rightarrow> string \<times> string list" where
  "ls_Flush buf = (if buf \<noteq> [] then ([], [buf]) else (buf, []))"

fun ls_writes :: "string list \<Rightarrow> string \<Rightarrow> string \<times> string list" where
  "ls_writes [] buf = (buf, [])"
| "ls_writes (c # cs) buf =
     (let (b1, l1) = ls_Write c buf; (b2, l2) = ls_writes cs b1 in (b2, l1 @ l2))"

section \<open>Correctness\<close>

lemma emit_lines_split:
  "emit_lines s = (map trim_cr (butlast (split_on newline s)), last (split_on newline s))"
proof (induction s rule: emit_lines.induct)
  case (1 s)
  show ?case
  proof (cases "newline \<in> set s")
    case True
    then obtain a r where s: "s = a @ newline # r" "newline \<notin> set a" by (meson split_list_first)
    then have c: "cut newline s = (a, Some r)" by (simp add: cut_append)
    have "emit_lines r = (map trim_cr (butlast (split_on newline r)), last (split_on newline r))"
      using "1.IH" [OF c [symmetric] refl] by simp
    then show ?thesis using s c
      by (subst emit_lines.simps) (simp add: split_on_append)
  next
    case False
    then show ?thesis by (subst emit_lines.simps) (simp add: cut_free)
  qed
qed

lemma emit_lines_rest_free: "newline \<notin> set (snd (emit_lines s))"
  using split_on_parts [of "last (split_on newline s)" newline s] by (simp add: emit_lines_split)

lemma emit_pieces_bound: "length (snd (emit_pieces s)) < maxLineBytes"
proof (induction s rule: emit_pieces.induct)
  case (1 s)
  then show ?case by (subst emit_pieces.simps) (auto split: prod.splits)
qed

lemma emit_pieces_content: "concat (fst (emit_pieces s)) @ snd (emit_pieces s) = s"
proof (induction s rule: emit_pieces.induct)
  case (1 s)
  show ?case
  proof (cases "maxLineBytes \<le> length s")
    case True
    then have "concat (fst (emit_pieces s)) @ snd (emit_pieces s) =
        take maxLineBytes s @ concat (fst (emit_pieces (drop maxLineBytes s))) @
          snd (emit_pieces (drop maxLineBytes s))"
      by (subst (1 2) emit_pieces.simps) (simp add: case_prod_beta)
    then show ?thesis using 1 True by simp
  qed (subst (1 2) emit_pieces.simps, simp)
qed

lemma emit_pieces_short: "length s < maxLineBytes \<Longrightarrow> emit_pieces s = ([], s)"
  by (subst emit_pieces.simps) simp

lemma split_on_concat_last:
  "split_on d (a @ b) = butlast (split_on d a) @ split_on d (last (split_on d a) @ b)"
proof (induction a)
  case (Cons c a)
  show ?case
  proof (cases "c = d")
    case True
    then show ?thesis using Cons.IH by simp
  next
    case False
    obtain w ws where w: "split_on d a = w # ws" by (cases "split_on d a") auto
    show ?thesis
    proof (cases "ws = []")
      case True
      then show ?thesis using Cons.IH w False by simp
    next
      case ne: False
      then have "split_on d (a @ b) = w # butlast ws @ split_on d (last ws @ b)"
        using Cons.IH w by simp
      then show ?thesis using False w ne by simp
    qed
  qed
qed simp

lemma hd_split_on_append: "d \<notin> set r \<Longrightarrow> length r \<le> length (hd (split_on d (r @ b)))"
proof (induction r)
  case (Cons c r)
  then show ?case by (cases "split_on d (r @ b)") auto
qed simp

lemma last_part_short:
  assumes "\<forall>w \<in> set (split_on d (a @ b)). length w < n"
  shows "length (last (split_on d a)) < n"
proof -
  have "d \<notin> set (last (split_on d a))" by (rule split_on_parts [of _ _ a]) simp
  then have "length (last (split_on d a)) \<le> length (hd (split_on d (last (split_on d a) @ b)))"
    by (rule hd_split_on_append)
  moreover have "hd (split_on d (last (split_on d a) @ b)) \<in> set (split_on d (a @ b))"
    by (simp add: split_on_concat_last [of d a b])
  ultimately show ?thesis using assms by fastforce
qed

lemma ls_writes_lines:
  assumes "newline \<notin> set buf" and "\<forall>w \<in> set (split_on newline (buf @ concat cs)). length w < maxLineBytes"
  shows "ls_writes cs buf = (last (split_on newline (buf @ concat cs)),
      map trim_cr (butlast (split_on newline (buf @ concat cs))))"
  using assms
proof (induction cs arbitrary: buf)
  case (Cons c cs)
  let ?l = "split_on newline (buf @ c)"
  have "length (last ?l) < maxLineBytes"
    using Cons.prems(2) last_part_short [of newline "buf @ c" "concat cs" maxLineBytes] by simp
  then have w: "ls_Write c buf = (last ?l, map trim_cr (butlast ?l))"
    by (simp add: ls_Write_def emit_lines_split emit_pieces_short)
  have sp: "split_on newline (buf @ concat (c # cs)) =
      butlast ?l @ split_on newline (last ?l @ concat cs)"
    using split_on_concat_last [of newline "buf @ c" "concat cs"] by simp
  have "newline \<notin> set (last ?l)" by (rule split_on_parts [of _ _ "buf @ c"]) simp
  then have "ls_writes cs (last ?l) = (last (split_on newline (last ?l @ concat cs)),
      map trim_cr (butlast (split_on newline (last ?l @ concat cs))))"
    using Cons.prems(2) sp by (intro Cons.IH) auto
  then show ?case using w by (simp only: sp ls_writes.simps) (simp add: butlast_append)
qed simp

text \<open>
  The lines do not depend on how the output was cut into reads: as long
  as no line reaches 64 KB, the splitter has emitted exactly the newline-terminated lines of
  the whole output, without a trailing CR, and holds its last partial line.
\<close>

theorem lines_independent_of_chunks:
  assumes "\<forall>w \<in> set (split_on newline (concat cs)). length w < maxLineBytes"
  shows "ls_writes cs [] = (last (split_on newline (concat cs)),
      map trim_cr (butlast (split_on newline (concat cs))))"
  using ls_writes_lines [of "[]" cs] assms by simp

theorem lines_independent_of_chunks_witness:
  "ls_writes [''ab'', [CHR ''c'', carriage_return], [newline, CHR ''d'']] [] = (''d'', [''abc''])"
  using lines_independent_of_chunks [of "[''ab'', [CHR ''c'', carriage_return], [newline, CHR ''d'']]"]
  by (simp add: newline_def carriage_return_def maxLineBytes_def trim_cr_def trim_suffix_def
      has_suffix_def has_prefix_def)

lemma ls_Write_bound:
  "length (fst (ls_Write c buf)) < maxLineBytes \<and> newline \<notin> set (fst (ls_Write c buf))"
proof -
  let ?r = "snd (emit_lines (buf @ c))"
  have "fst (ls_Write c buf) = snd (emit_pieces ?r)" by (simp add: ls_Write_def case_prod_beta)
  moreover have "set (snd (emit_pieces ?r)) \<subseteq> set ?r"
    by (metis emit_pieces_content set_append Un_upper2)
  ultimately show ?thesis using emit_pieces_bound [of ?r] emit_lines_rest_free [of "buf @ c"] by auto
qed

text \<open>
  However long a child goes without a newline, the buffer never holds 64 KB
  after a write, and it never holds a newline.
\<close>

lemma line_buffer_bounded:
  "length (fst (ls_writes cs [])) < maxLineBytes \<and> newline \<notin> set (fst (ls_writes cs []))"
proof -
  have "length buf < maxLineBytes \<and> newline \<notin> set buf \<Longrightarrow>
      length (fst (ls_writes cs buf)) < maxLineBytes \<and> newline \<notin> set (fst (ls_writes cs buf))" for buf
  proof (induction cs arbitrary: buf)
    case (Cons c cs)
    have "fst (ls_writes (c # cs) buf) = fst (ls_writes cs (fst (ls_Write c buf)))"
      by (simp add: case_prod_beta)
    then show ?case using Cons.IH [OF ls_Write_bound] by simp
  qed simp
  then show ?thesis by (simp add: maxLineBytes_def)
qed

end
