(* ===== verification/Process_Model.thy ===== *)
theory Process_Model
  imports Proc_State Spawn_Params Line_Splitter
begin

text \<open>
  \<open>internal/process/process.go\<close>: one supervised process.  \<open>Process\<close> has the fields of the Go
  struct; its goroutines are the tasks in \<open>pr_tasks\<close>, channels are numbers and \<open>pr_closed\<close> the
  closed ones.  \<open>pr_trace\<close> records, newest first, what the process does to the outside: events,
  spawns, signals, reaped children and a panic.  The outside world during a step is \<open>penv\<close>.
  Operations that hold the mutex are one function each; \<open>watchStart\<close>, which does not, is
  split at the points where it takes and releases it.
\<close>

section \<open>Signals\<close>

datatype signal = SIGTERM | SIGHUP | SIGINT | SIGQUIT | SIGKILL | SIGUSR1 | SIGUSR2 | SIGSTOP | SIGCONT

definition signal_table :: "(string \<times> signal) list" where
  "signal_table = [(''TERM'', SIGTERM), (''HUP'', SIGHUP), (''INT'', SIGINT), (''QUIT'', SIGQUIT),
     (''KILL'', SIGKILL), (''USR1'', SIGUSR1), (''USR2'', SIGUSR2), (''STOP'', SIGSTOP), (''CONT'', SIGCONT)]"

definition ParseSignal :: "string \<Rightarrow> signal option" where
  "ParseSignal name = map_of signal_table (trim_prefix (ToUpper name) ''SIG'')"

section \<open>The process\<close>

datatype effect =
    Published State nat
  | Spawned SpawnConfig nat
  | Reaped nat
  | Signalled nat "signal option"
  | SignalledGroup nat signal
  | WroteStdin nat string
  | Panicked

text \<open>\<open>WatchStartState\<close> and \<open>WatchStartPid\<close> are \<open>watchStart\<close> after its transition, before it has
  read the state, and after it has read the state but not the pid; \<open>WatchStartEvent\<close> before it publishes.\<close>

datatype task =
    WatchStart nat
  | WatchStartState
  | WatchStartPid State
  | WatchStartEvent State nat
  | WatchStop nat
  | RetryAfterBackoff nat
  | RestartAfterExit

record Process =
  pr_name :: string
  pr_group :: string
  pr_config :: ProgramConfig
  pr_sm :: StateMachine
  pr_spawned :: "nat option"
  pr_exitCode :: int
  pr_exitSignal :: string
  pr_startedAt :: "int option"
  pr_stopCh :: nat
  pr_killDoneCh :: "nat option"
  pr_shutdown :: bool
  pr_retired :: bool
  pr_spawnErr :: string
  pr_closed :: "nat list"
  pr_nextCh :: nat
  pr_tasks :: "task list"
  pr_trace :: "effect list"

record penv =
  pe_now :: int
  pe_dir_ok :: "string \<Rightarrow> bool"
  pe_preSpawn :: "string option"
  pe_euid :: int
  pe_uid :: int
  pe_environ :: "string list"
  pe_path :: string
  pe_home :: "32 word \<Rightarrow> string option"
  pe_spawn :: "SpawnConfig \<Rightarrow> string + nat"
  pe_signal_ok :: bool
  pe_stdin :: "string \<Rightarrow> string option option"

abbreviation pr_state :: "Process \<Rightarrow> State" where "pr_state p \<equiv> sm_state (pr_sm p)"

definition NewProcess :: "string \<Rightarrow> string \<Rightarrow> ProgramConfig \<Rightarrow> bool \<Rightarrow> Process" where
  "NewProcess name grp cfg shutdown =
     \<lparr>pr_name = name, pr_group = grp, pr_config = cfg,
      pr_sm = NewStateMachine (pc_Startsecs cfg) (pc_Startretries cfg), pr_spawned = None,
      pr_exitCode = 0, pr_exitSignal = [], pr_startedAt = None, pr_stopCh = 0, pr_killDoneCh = None,
      pr_shutdown = shutdown, pr_retired = False, pr_spawnErr = [], pr_closed = [], pr_nextCh = 1,
      pr_tasks = [], pr_trace = []\<rparr>"

definition UpdateConfig :: "ProgramConfig \<Rightarrow> Process \<Rightarrow> Process" where
  "UpdateConfig cfg p =
     p\<lparr>pr_config := cfg, pr_sm := SetLimits (pc_Startsecs cfg) (pc_Startretries cfg) (pr_sm p)\<rparr>"

definition pidLocked :: "Process \<Rightarrow> nat" where
  "pidLocked p = (case pr_spawned p of Some pid \<Rightarrow> pid | None \<Rightarrow> 0)"

definition Uptime :: "int \<Rightarrow> Process \<Rightarrow> int" where
  "Uptime now p =
     (case pr_startedAt p of
        None \<Rightarrow> 0
      | Some t \<Rightarrow>
          if pr_state p = Running \<or> pr_state p = Starting then time_sub now t div 1000000000 else 0)"

definition emit :: "effect \<Rightarrow> Process \<Rightarrow> Process" where
  "emit e p = p\<lparr>pr_trace := e # pr_trace p\<rparr>"

definition go :: "task \<Rightarrow> Process \<Rightarrow> Process" where
  "go t p = p\<lparr>pr_tasks := t # pr_tasks p\<rparr>"

definition publishStateLocked :: "State \<Rightarrow> Process \<Rightarrow> Process" where
  "publishStateLocked s p = emit (Published s (pidLocked p)) p"

definition set_sm :: "StateMachine \<Rightarrow> Process \<Rightarrow> Process" where
  "set_sm sm p = p\<lparr>pr_sm := sm\<rparr>"

text \<open>\<open>select\<close> on the stop channel, closing it unless it is closed.\<close>

definition close_stopCh :: "Process \<Rightarrow> Process" where
  "close_stopCh p =
     (if pr_stopCh p \<in> set (pr_closed p) then p else p\<lparr>pr_closed := pr_stopCh p # pr_closed p\<rparr>)"

definition new_stopCh :: "Process \<Rightarrow> Process" where
  "new_stopCh p = p\<lparr>pr_stopCh := pr_nextCh p, pr_nextCh := pr_nextCh p + 1\<rparr>"

section \<open>The child's environment and command\<close>

definition defaultCleanPath :: string where "defaultCleanPath = ''/usr/local/bin:/usr/bin:/bin''"

definition privilegeDiffers :: "penv \<Rightarrow> Process \<Rightarrow> 32 word \<times> bool" where
  "privilegeDiffers e p =
     (case ParseCredential (pc_User (pr_config p)) of
        Some (Some cred) \<Rightarrow> (cr_Uid cred, uint (cr_Uid cred) \<noteq> pe_uid e)
      | _ \<Rightarrow> (0, False))"

definition resolveHome :: "penv \<Rightarrow> 32 word \<Rightarrow> string" where
  "resolveHome e uid = (case pe_home e uid of None \<Rightarrow> ''/'' | Some h \<Rightarrow> if h = [] then ''/'' else h)"

definition minimalBaseEnv :: "penv \<Rightarrow> 32 word \<Rightarrow> string list" where
  "minimalBaseEnv e uid =
     [''PATH='' @ (if pe_path e = [] then defaultCleanPath else pe_path e), ''HOME='' @ resolveHome e uid]"

definition buildEnv :: "penv \<Rightarrow> Process \<Rightarrow> string list" where
  "buildEnv e p =
     (let (targetUID, differs) = privilegeDiffers e p;
          cfg = pr_config p;
          env = (if differs \<and> \<not> pc_InheritEnvironment cfg then minimalBaseEnv e targetUID
                 else if pc_CleanEnvironment cfg then []
                 else pe_environ e)
      in env @ [''SUPERVISOR_ENABLED=1'', ''SUPERVISOR_PROCESS_NAME='' @ pr_name p,
                ''SUPERVISOR_GROUP_NAME='' @ pr_group p] @
         map (\<lambda>(k, v). k @ ''='' @ v) (pc_Environment cfg))"

definition parseCommand :: "Process \<Rightarrow> string \<times> string list" where
  "parseCommand p =
     (case Fields (pc_Command (pr_config p)) of [] \<Rightarrow> ([], []) | c # args \<Rightarrow> (c, args))"

section \<open>Starting\<close>

text \<open>The error texts of the Go code, which the API inspects.\<close>

definition failStartLocked :: "penv \<Rightarrow> string \<Rightarrow> string \<Rightarrow> Process \<Rightarrow> Process \<times> string option" where
  "failStartLocked e desc err p =
     (let p1 = p\<lparr>pr_spawnErr := desc\<rparr>;
          (sm, fErr) = ProcessExitedEarly (pe_now e) (pr_sm p1);
          p2 = publishStateLocked (sm_state sm) (set_sm sm p1);
          p3 = (if sm_state sm = Backoff then go (RetryAfterBackoff (pr_stopCh p2)) p2 else p2)
      in (p3, Some (''process '' @ pr_name p @ '': spawn failed: '' @ err)))"

definition failSpawnLocked :: "penv \<Rightarrow> string \<Rightarrow> Process \<Rightarrow> Process \<times> string option" where
  "failSpawnLocked e err p = failStartLocked e (''spawn error: '' @ trim_prefix err ''fork/exec '') err p"

text \<open>
  The parameters of the spawn, or the error that fails it: the checks \<open>spawnLocked\<close> makes after
  the command line is built.  The messages of the called parsers are cut short.
\<close>

definition spawn_config :: "penv \<Rightarrow> Process \<Rightarrow> string + SpawnConfig" where
  "spawn_config e p =
     (let cfg = pr_config p; (cmd, args) = parseCommand p in
      case ParseUmask (pc_Umask cfg) of
        None \<Rightarrow> Inl (''invalid umask '' @ go_quote (pc_Umask cfg))
      | Some umask \<Rightarrow>
          let sc = \<lparr>sc_Command = cmd, sc_Args = args, sc_Dir = pc_Directory cfg, sc_Env = buildEnv e p,
                    sc_Umask = umask, sc_RLimits = ParseRLimits cfg, sc_SysProcAttr = None\<rparr>
          in if pc_User cfg \<noteq> [] \<and> pe_euid e = 0
             then (case BuildSysProcAttr (pc_User cfg) of
                     None \<Rightarrow> Inl (''cannot apply user '' @ go_quote (pc_User cfg))
                   | Some attr \<Rightarrow> Inr (sc\<lparr>sc_SysProcAttr := Some attr\<rparr>))
             else Inr sc)"

definition spawnLocked :: "penv \<Rightarrow> Process \<Rightarrow> Process \<times> string option" where
  "spawnLocked e p =
     (let dir = pc_Directory (pr_config p) in
      if dir \<noteq> [] \<and> \<not> pe_dir_ok e dir
      then failSpawnLocked e (''directory '' @ dir @ '' does not exist'') p
      else case pe_preSpawn e of
        Some err \<Rightarrow> failStartLocked e err err p
      | None \<Rightarrow>
          (case spawn_config e p of
             Inl err \<Rightarrow> failSpawnLocked e err p
           | Inr sc \<Rightarrow>
               (case pe_spawn e sc of
                  Inl err \<Rightarrow> failSpawnLocked e err p
                | Inr pid \<Rightarrow>
                    let p1 = emit (Spawned sc pid)
                          (p\<lparr>pr_spawned := Some pid, pr_spawnErr := [], pr_startedAt := Some (pe_now e)\<rparr>)
                    in if pc_Startsecs (pr_config p) = 0
                       then (let sm = fst (ProcessStarted (pe_now e) (pr_sm p1))
                             in (publishStateLocked (sm_state sm) (set_sm sm p1), None))
                       else (go (WatchStart (pr_stopCh p1)) p1, None))))"

definition startLocked :: "penv \<Rightarrow> Process \<Rightarrow> Process \<times> string option" where
  "startLocked e p =
     (if pr_retired p then (p, Some (''process '' @ pr_name p @ '': removed by config reload''))
      else if pr_state p = Starting \<or> pr_state p = Running \<or> pr_state p = Backoff
      then (p, Some (''process already started: '' @ pr_name p))
      else case RequestStart (pe_now e) (pr_sm p) of
        (sm, Some err) \<Rightarrow> (set_sm sm p, Some (''process '' @ pr_name p @ '': '' @ err))
      | (sm, None) \<Rightarrow> spawnLocked e (publishStateLocked Starting (set_sm sm p)))"

definition Start :: "penv \<Rightarrow> Process \<Rightarrow> Process \<times> string option" where
  "Start e p = startLocked e p"

section \<open>Stopping\<close>

definition send_stop :: "Process \<Rightarrow> Process" where
  "send_stop p =
     (let sig = ParseSignal (pc_Stopsignal (pr_config p)) in
      case pr_spawned p of
        None \<Rightarrow> p
      | Some pid \<Rightarrow>
          if pc_Stopasgroup (pr_config p)
          then (case sig of None \<Rightarrow> emit Panicked p | Some s \<Rightarrow> emit (SignalledGroup pid s) p)
          else emit (Signalled pid sig) p)"

definition stopLocked :: "penv \<Rightarrow> Process \<Rightarrow> Process \<times> string option" where
  "stopLocked e p =
     (if pr_state p = Backoff then
        (case Transition (pe_now e) Stopped (pr_sm p) of
           (sm, Some err) \<Rightarrow> (set_sm sm p, Some (''process '' @ pr_name p @ '': '' @ err))
         | (sm, None) \<Rightarrow> (new_stopCh (close_stopCh (publishStateLocked Stopped (set_sm sm p))), None))
      else if pr_state p = Stopping then (p, None)
      else if pr_state p \<noteq> Running \<and> pr_state p \<noteq> Starting
      then (p, Some (''process not running: '' @ pr_name p))
      else case RequestStop (pe_now e) (pr_sm p) of
        (sm, Some err) \<Rightarrow> (set_sm sm p, Some (''process '' @ pr_name p @ '': '' @ err))
      | (sm, None) \<Rightarrow>
          let p1 = send_stop (close_stopCh (publishStateLocked Stopping (set_sm sm p)));
              killDone = pr_nextCh p1;
              p2 = p1\<lparr>pr_nextCh := killDone + 1, pr_killDoneCh := Some killDone\<rparr>
          in (go (WatchStop killDone) p2, None))"

definition Stop :: "penv \<Rightarrow> Process \<Rightarrow> Process \<times> string option" where
  "Stop e p = stopLocked e p"

definition killLocked :: "Process \<Rightarrow> Process" where
  "killLocked p =
     (if pc_Killasgroup (pr_config p) then emit (SignalledGroup (pidLocked p) SIGKILL) p
      else emit (Signalled (pidLocked p) (Some SIGKILL)) p)"

definition Kill :: "Process \<Rightarrow> Process" where
  "Kill p = (if pr_spawned p \<noteq> None then killLocked p else p)"

definition Retire :: "Process \<Rightarrow> Process" where
  "Retire p = p\<lparr>pr_retired := True\<rparr>"

definition Signal :: "penv \<Rightarrow> string \<Rightarrow> Process \<Rightarrow> Process \<times> string option" where
  "Signal e sig p =
     (case pr_spawned p of
        None \<Rightarrow> (p, Some (''process not running: '' @ pr_name p))
      | Some pid \<Rightarrow>
          (case ParseSignal sig of
             None \<Rightarrow> (p, Some (''process '' @ pr_name p @ '': invalid signal '' @ go_quote sig))
           | Some s \<Rightarrow> (emit (Signalled pid (Some s)) p, if pe_signal_ok e then None else Some ''signal failed'')))"

text \<open>\<open>pe_stdin\<close> is \<open>None\<close> when the child has no stdin pipe, and else the error of the write.\<close>

definition WriteStdin :: "penv \<Rightarrow> string \<Rightarrow> Process \<Rightarrow> Process \<times> string option" where
  "WriteStdin e data p =
     (case pr_spawned p of
        None \<Rightarrow> (p, Some (''process not running: '' @ pr_name p))
      | Some pid \<Rightarrow>
          (case pe_stdin e data of
             None \<Rightarrow> (p, Some (''process '' @ pr_name p @ '': does not accept stdin''))
           | Some err \<Rightarrow> (emit (WroteStdin pid data) p, err)))"

section \<open>Exits and restarts\<close>

definition shouldRestart :: "int \<Rightarrow> Process \<Rightarrow> bool" where
  "shouldRestart exitCode p =
     (if pr_shutdown p then False
      else if sm_manualStop (pr_sm p) then False
      else if pc_Autorestart (pr_config p) = ''true'' then True
      else if pc_Autorestart (pr_config p) = ''false'' then False
      else if pc_Autorestart (pr_config p) = ''unexpected'' then exitCode \<notin> set (pc_Exitcodes (pr_config p))
      else False)"

definition exit_by_state :: "penv \<Rightarrow> int \<Rightarrow> Process \<Rightarrow> Process" where
  "exit_by_state e exitCode p =
     (case pr_state p of
        Starting \<Rightarrow>
          (let sm = fst (ProcessExitedEarly (pe_now e) (pr_sm p));
               p1 = publishStateLocked (sm_state sm) (set_sm sm p)
           in if sm_state sm = Backoff
              then (if pr_shutdown p1 then fst (stopLocked e p1)
                    else go (RetryAfterBackoff (pr_stopCh p1)) p1)
              else p1)
      | Running \<Rightarrow>
          (let p1 = publishStateLocked Exited (set_sm (fst (ProcessExited (pe_now e) (pr_sm p))) p)
           in if shouldRestart exitCode p1 then go RestartAfterExit p1 else p1)
      | Stopping \<Rightarrow> publishStateLocked Stopped (set_sm (fst (ProcessExited (pe_now e) (pr_sm p))) p)
      | _ \<Rightarrow> p)"

text \<open>The reaped child is recorded first; \<open>waitpid\<close> has returned it.\<close>

definition HandleExitStatus :: "penv \<Rightarrow> int \<Rightarrow> string \<Rightarrow> Process \<Rightarrow> Process" where
  "HandleExitStatus e exitCode sig p =
     (let p0 = (case pr_spawned p of None \<Rightarrow> p | Some pid \<Rightarrow> emit (Reaped pid) p);
          p1 = exit_by_state e exitCode (p0\<lparr>pr_exitCode := exitCode, pr_exitSignal := sig\<rparr>);
          p2 = (case pr_killDoneCh p1 of
                  None \<Rightarrow> p1
                | Some ch \<Rightarrow> p1\<lparr>pr_closed := ch # pr_closed p1, pr_killDoneCh := None\<rparr>)
      in new_stopCh (p2\<lparr>pr_spawned := None\<rparr>))"

section \<open>The goroutines\<close>

definition watchStart :: "penv \<Rightarrow> Process \<Rightarrow> Process" where
  "watchStart e p = go WatchStartState (set_sm (fst (ProcessStarted (pe_now e) (pr_sm p))) p)"

definition watchStop :: "Process \<Rightarrow> Process" where
  "watchStop p = (if pr_state p = Stopping \<and> pr_spawned p \<noteq> None then killLocked p else p)"

definition retryAfterBackoff :: "penv \<Rightarrow> Process \<Rightarrow> Process" where
  "retryAfterBackoff e p =
     (if pr_state p \<noteq> Backoff \<or> pr_retired p then p
      else if pr_shutdown p then fst (stopLocked e p)
      else case RetryFromBackoff (pe_now e) (pr_sm p) of
        (sm, Some err) \<Rightarrow> set_sm sm p
      | (sm, None) \<Rightarrow> fst (spawnLocked e (publishStateLocked Starting (set_sm sm p))))"

definition restartAfterExit :: "penv \<Rightarrow> Process \<Rightarrow> Process" where
  "restartAfterExit e p =
     (if pr_state p \<noteq> Exited \<or> pr_shutdown p then p else fst (startLocked e p))"

definition drop_task :: "task \<Rightarrow> Process \<Rightarrow> Process" where
  "drop_task t p = p\<lparr>pr_tasks := remove1 t (pr_tasks p)\<rparr>"

text \<open>One turn of a goroutine whose timer has fired.\<close>

definition run_task :: "penv \<Rightarrow> task \<Rightarrow> Process \<Rightarrow> Process" where
  "run_task e t p0 =
     (let p = drop_task t p0 in
      case t of
        WatchStart ch \<Rightarrow> watchStart e p
      | WatchStartState \<Rightarrow> go (WatchStartPid (pr_state p)) p
      | WatchStartPid s \<Rightarrow> go (WatchStartEvent s (pidLocked p)) p
      | WatchStartEvent s pid \<Rightarrow> emit (Published s pid) p
      | WatchStop ch \<Rightarrow> watchStop p
      | RetryAfterBackoff ch \<Rightarrow> retryAfterBackoff e p
      | RestartAfterExit \<Rightarrow> restartAfterExit e p)"

fun task_channel :: "task \<Rightarrow> nat option" where
  "task_channel (WatchStart ch) = Some ch"
| "task_channel (WatchStop ch) = Some ch"
| "task_channel (RetryAfterBackoff ch) = Some ch"
| "task_channel _ = None"

text \<open>\<open>readPipe\<close>: the reads of a pipe, each handed to the handler, and the lines for \<open>onLine\<close>.\<close>

fun readPipe :: "string list \<Rightarrow> string list \<times> string list" where
  "readPipe reads =
     (let (buf, ls) = ls_writes (filter (\<lambda>d. d \<noteq> []) reads) [];
          (buf', last_line) = ls_Flush buf
      in (filter (\<lambda>d. d \<noteq> []) reads, ls @ last_line))"

section \<open>Steps\<close>

datatype action =
    AStart | AStop | AKill | ARetire | AShutdown
  | ASignal string | AStdin string | AUpdate ProgramConfig
  | AExit int string | ATask task | ACancel task

inductive pstep :: "action \<Rightarrow> Process \<Rightarrow> Process \<Rightarrow> bool" where
  p_start: "pstep AStart p (fst (Start e p))"
| p_stop: "pstep AStop p (fst (Stop e p))"
| p_kill: "pstep AKill p (Kill p)"
| p_retire: "pstep ARetire p (Retire p)"
| p_shutdown: "pstep AShutdown p (p\<lparr>pr_shutdown := True\<rparr>)"
| p_signal: "pstep (ASignal s) p (fst (Signal e s p))"
| p_stdin: "pstep (AStdin d) p (fst (WriteStdin e d p))"
| p_update: "pstep (AUpdate cfg) p (UpdateConfig cfg p)"
| p_exit: "pr_spawned p \<noteq> None \<Longrightarrow> pstep (AExit code s) p (HandleExitStatus e code s p)"
| p_task: "t \<in> set (pr_tasks p) \<Longrightarrow> pstep (ATask t) p (run_task e t p)"
| p_cancel: "t \<in> set (pr_tasks p) \<Longrightarrow> task_channel t = Some ch \<Longrightarrow> ch \<in> set (pr_closed p) \<Longrightarrow>
    pstep (ACancel t) p (drop_task t p)"

inductive pruns :: "action list \<Rightarrow> Process \<Rightarrow> Process \<Rightarrow> bool" where
  runs_Nil: "pruns [] p p"
| runs_snoc: "pruns as p q \<Longrightarrow> pstep a q r \<Longrightarrow> pruns (as @ [a]) p r"

end
