(* ===== verification/Process_Safety.thy ===== *)
theory Process_Safety
  imports Process_Model
begin

text \<open>
  What the process model guarantees along every run: it owns at most one child and knows it,
  a stop is escalated, a stopped or retired process is not started behind the user's back, and
  what a spawn passes on.  The invariant \<open>pinv\<close> is proved operation by operation.
\<close>

section \<open>The state machine under the process\<close>

lemma ProcessStarted_state:
  "sm_state sm = Starting \<Longrightarrow> sm_state (fst (ProcessStarted n sm)) \<in> {Starting, Running}"
  "sm_state sm \<noteq> Starting \<Longrightarrow> fst (ProcessStarted n sm) = sm"
  by (auto simp: ProcessStarted_def transitionLocked_def applyTransition_frame)

lemma ProcessStarted_cases:
  "sm_state (fst (ProcessStarted n sm)) = sm_state sm \<or>
   (sm_state sm = Starting \<and> sm_state (fst (ProcessStarted n sm)) = Running)"
  using ProcessStarted_state [of sm n] by (cases "sm_state sm = Starting") auto

lemma ProcessExitedEarly_state:
  "sm_state sm = Starting \<Longrightarrow> sm_state (fst (ProcessExitedEarly n sm)) \<in> {Backoff, Fatal}"
  by (auto simp: ProcessExitedEarly_def transitionLocked_def applyTransition_frame)

lemma ProcessExited_state:
  "sm_state sm = Running \<Longrightarrow> sm_state (fst (ProcessExited n sm)) = Exited"
  "sm_state sm = Stopping \<Longrightarrow> sm_state (fst (ProcessExited n sm)) = Stopped"
  by (auto simp: ProcessExited_def transitionLocked_def applyTransition_frame)

lemma RequestStart_state:
  "sm_state sm \<in> {Stopped, Exited, Fatal} \<Longrightarrow> snd (RequestStart n sm) = None \<and>
     sm_state (fst (RequestStart n sm)) = Starting \<and> \<not> sm_manualStop (fst (RequestStart n sm))"
  "sm_state sm = Stopping \<Longrightarrow> snd (RequestStart n sm) \<noteq> None \<and>
     sm_state (fst (RequestStart n sm)) = sm_state sm"
  by (auto simp: RequestStart_def transitionLocked_def applyTransition_frame)

lemma RequestStop_state:
  "sm_state sm \<in> {Starting, Running} \<Longrightarrow> snd (RequestStop n sm) = None \<and>
     sm_state (fst (RequestStop n sm)) = Stopping \<and> sm_manualStop (fst (RequestStop n sm))"
  by (cases "sm_state sm"; simp add: RequestStop_def transitionLocked_def applyTransition_frame)

lemma RetryFromBackoff_state:
  "sm_state sm = Backoff \<Longrightarrow> snd (RetryFromBackoff n sm) = None \<and> sm_state (fst (RetryFromBackoff n sm)) = Starting"
  by (simp add: RetryFromBackoff_def transitionLocked_def applyTransition_frame)

lemma stop_backoff_state:
  "sm_state sm = Backoff \<Longrightarrow> snd (Transition n Stopped sm) = None \<and> sm_state (fst (Transition n Stopped sm)) = Stopped"
  by (simp add: Transition_def transitionLocked_def applyTransition_frame)

section \<open>Fields the small operations keep\<close>

lemma emit_fields [simp]:
  "pr_sm (emit x p) = pr_sm p" "pr_spawned (emit x p) = pr_spawned p" "pr_trace (emit x p) = x # pr_trace p"
  "pr_stopCh (emit x p) = pr_stopCh p" "pr_killDoneCh (emit x p) = pr_killDoneCh p"
  "pr_closed (emit x p) = pr_closed p" "pr_nextCh (emit x p) = pr_nextCh p" "pr_tasks (emit x p) = pr_tasks p"
  "pr_config (emit x p) = pr_config p" "pr_shutdown (emit x p) = pr_shutdown p" "pr_retired (emit x p) = pr_retired p"
  "pr_name (emit x p) = pr_name p"
  by (simp_all add: emit_def)

lemma go_fields [simp]:
  "pr_sm (go t p) = pr_sm p" "pr_spawned (go t p) = pr_spawned p" "pr_trace (go t p) = pr_trace p"
  "pr_stopCh (go t p) = pr_stopCh p" "pr_killDoneCh (go t p) = pr_killDoneCh p"
  "pr_closed (go t p) = pr_closed p" "pr_nextCh (go t p) = pr_nextCh p" "pr_tasks (go t p) = t # pr_tasks p"
  "pr_config (go t p) = pr_config p" "pr_shutdown (go t p) = pr_shutdown p" "pr_retired (go t p) = pr_retired p"
  by (simp_all add: go_def)

lemma set_sm_fields [simp]:
  "pr_sm (set_sm m p) = m" "pr_spawned (set_sm m p) = pr_spawned p" "pr_trace (set_sm m p) = pr_trace p"
  "pr_stopCh (set_sm m p) = pr_stopCh p" "pr_killDoneCh (set_sm m p) = pr_killDoneCh p"
  "pr_closed (set_sm m p) = pr_closed p" "pr_nextCh (set_sm m p) = pr_nextCh p" "pr_tasks (set_sm m p) = pr_tasks p"
  "pr_config (set_sm m p) = pr_config p" "pr_shutdown (set_sm m p) = pr_shutdown p" "pr_retired (set_sm m p) = pr_retired p"
  by (simp_all add: set_sm_def)

lemma publish_fields [simp]:
  "pr_sm (publishStateLocked s p) = pr_sm p" "pr_spawned (publishStateLocked s p) = pr_spawned p"
  "pr_stopCh (publishStateLocked s p) = pr_stopCh p" "pr_killDoneCh (publishStateLocked s p) = pr_killDoneCh p"
  "pr_closed (publishStateLocked s p) = pr_closed p" "pr_nextCh (publishStateLocked s p) = pr_nextCh p"
  "pr_tasks (publishStateLocked s p) = pr_tasks p" "pr_config (publishStateLocked s p) = pr_config p"
  "pr_shutdown (publishStateLocked s p) = pr_shutdown p" "pr_retired (publishStateLocked s p) = pr_retired p"
  "pr_trace (publishStateLocked s p) = Published s (pidLocked p) # pr_trace p"
  by (simp_all add: publishStateLocked_def)

lemma channel_fields [simp]:
  "pr_sm (new_stopCh p) = pr_sm p" "pr_spawned (new_stopCh p) = pr_spawned p" "pr_trace (new_stopCh p) = pr_trace p"
  "pr_killDoneCh (new_stopCh p) = pr_killDoneCh p" "pr_closed (new_stopCh p) = pr_closed p"
  "pr_tasks (new_stopCh p) = pr_tasks p" "pr_config (new_stopCh p) = pr_config p"
  "pr_shutdown (new_stopCh p) = pr_shutdown p" "pr_retired (new_stopCh p) = pr_retired p"
  "pr_sm (close_stopCh p) = pr_sm p" "pr_spawned (close_stopCh p) = pr_spawned p"
  "pr_trace (close_stopCh p) = pr_trace p" "pr_stopCh (close_stopCh p) = pr_stopCh p"
  "pr_killDoneCh (close_stopCh p) = pr_killDoneCh p" "pr_nextCh (close_stopCh p) = pr_nextCh p"
  "pr_tasks (close_stopCh p) = pr_tasks p" "pr_config (close_stopCh p) = pr_config p"
  "pr_shutdown (close_stopCh p) = pr_shutdown p" "pr_retired (close_stopCh p) = pr_retired p"
  by (simp_all add: new_stopCh_def close_stopCh_def)

section \<open>The invariant\<close>

text \<open>The children that were spawned and not reaped, from the trace.\<close>

fun live_pids :: "effect list \<Rightarrow> nat list" where
  "live_pids [] = []"
| "live_pids (Spawned _ pid # t) = pid # live_pids t"
| "live_pids (Reaped pid # t) = remove1 pid (live_pids t)"
| "live_pids (_ # t) = live_pids t"

text \<open>A SIGKILL since the last spawn.\<close>

fun killed :: "effect list \<Rightarrow> bool" where
  "killed [] = False"
| "killed (Spawned _ _ # t) = False"
| "killed (Signalled _ s # t) = (s = Some SIGKILL \<or> killed t)"
| "killed (SignalledGroup _ s # t) = (s = SIGKILL \<or> killed t)"
| "killed (_ # t) = killed t"

fun spawns :: "effect list \<Rightarrow> nat" where
  "spawns [] = 0"
| "spawns (Spawned _ _ # t) = Suc (spawns t)"
| "spawns (_ # t) = spawns t"

definition owned :: "Process \<Rightarrow> nat list" where
  "owned p = (case pr_spawned p of None \<Rightarrow> [] | Some pid \<Rightarrow> [pid])"

definition chan_ok :: "Process \<Rightarrow> bool" where
  "chan_ok p \<longleftrightarrow> pr_stopCh p < pr_nextCh p \<and> (\<forall>c\<in>set (pr_closed p). c < pr_nextCh p) \<and>
     (\<forall>c. pr_killDoneCh p = Some c \<longrightarrow> c < pr_nextCh p)"

definition stop_armed :: "Process \<Rightarrow> bool" where
  "stop_armed p \<longleftrightarrow> killed (pr_trace p) \<or>
     (\<exists>ch. pr_killDoneCh p = Some ch \<and> ch \<notin> set (pr_closed p) \<and> WatchStop ch \<in> set (pr_tasks p))"

definition pinv :: "Process \<Rightarrow> bool" where
  "pinv p \<longleftrightarrow>
     (pr_spawned p \<noteq> None \<longleftrightarrow> pr_state p \<in> {Starting, Running, Stopping}) \<and>
     live_pids (pr_trace p) = owned p \<and> chan_ok p \<and> (pr_state p = Stopping \<longrightarrow> stop_armed p)"

lemma pinvI:
  "(pr_spawned p \<noteq> None \<longleftrightarrow> pr_state p \<in> {Starting, Running, Stopping}) \<Longrightarrow>
   live_pids (pr_trace p) = owned p \<Longrightarrow> chan_ok p \<Longrightarrow> (pr_state p = Stopping \<Longrightarrow> stop_armed p) \<Longrightarrow> pinv p"
  by (simp add: pinv_def)

lemma pinv_New: "pinv (NewProcess n g c sh)"
  by (simp add: pinv_def NewProcess_def NewStateMachine_def owned_def chan_ok_def)

text \<open>States without a child.\<close>

definition childless :: "Process \<Rightarrow> bool" where
  "childless p \<longleftrightarrow> pr_spawned p = None \<and> live_pids (pr_trace p) = [] \<and> chan_ok p"

lemma childless_pinv: "childless p \<Longrightarrow> pr_state p \<in> {Stopped, Backoff, Exited, Fatal} \<Longrightarrow> pinv p"
  by (auto simp: childless_def pinv_def owned_def)

lemma pinv_childless: "pinv p \<Longrightarrow> pr_state p \<in> {Stopped, Backoff, Exited, Fatal} \<Longrightarrow> childless p"
  by (auto simp: childless_def pinv_def owned_def)

lemma chan_ok_emit [simp]:
  "chan_ok (emit x p) = chan_ok p" "chan_ok (publishStateLocked s p) = chan_ok p"
  "chan_ok (set_sm m p) = chan_ok p" "chan_ok (go t p) = chan_ok p"
  by (simp_all add: chan_ok_def)

lemma childless_steps [simp]:
  "childless (publishStateLocked s p) = childless p" "childless (set_sm m p) = childless p"
  "childless (go t p) = childless p" "childless (p\<lparr>pr_spawnErr := d\<rparr>) = childless p"
  by (simp_all add: childless_def chan_ok_def)

lemma chan_ok_channels [simp]:
  "chan_ok p \<Longrightarrow> chan_ok (close_stopCh p)" "chan_ok p \<Longrightarrow> chan_ok (new_stopCh p)"
  by (auto simp: chan_ok_def close_stopCh_def new_stopCh_def)

section \<open>Starting\<close>

lemma failStartLocked_inv:
  assumes "childless p" and "pr_state p = Starting"
  shows "pinv (fst (failStartLocked e d err p))" and "childless (fst (failStartLocked e d err p))"
    and "pr_state (fst (failStartLocked e d err p)) \<in> {Backoff, Fatal}"
    and "spawns (pr_trace (fst (failStartLocked e d err p))) = spawns (pr_trace p)"
proof -
  define sm where "sm = fst (ProcessExitedEarly (pe_now e) (pr_sm p))"
  have s: "sm_state sm \<in> {Backoff, Fatal}"
    using ProcessExitedEarly_state [of "pr_sm p"] assms(2) by (simp add: sm_def)
  define q where "q = publishStateLocked (sm_state sm) (set_sm sm (p\<lparr>pr_spawnErr := d\<rparr>))"
  have f: "fst (failStartLocked e d err p) =
      (if sm_state sm = Backoff then go (RetryAfterBackoff (pr_stopCh q)) q else q)"
    by (simp add: failStartLocked_def q_def sm_def Let_def case_prod_beta)
  have "childless q" "pr_state q = sm_state sm" "spawns (pr_trace q) = spawns (pr_trace p)"
    using assms(1) by (simp_all add: q_def)
  then show "childless (fst (failStartLocked e d err p))"
    "pr_state (fst (failStartLocked e d err p)) \<in> {Backoff, Fatal}"
    "spawns (pr_trace (fst (failStartLocked e d err p))) = spawns (pr_trace p)"
    using s by (auto simp: f)
  then show "pinv (fst (failStartLocked e d err p))" using childless_pinv by blast
qed

lemma spawnLocked_inv:
  assumes "childless p" and "pr_state p = Starting"
  shows "pinv (fst (spawnLocked e p))"
proof -
  note fail = failStartLocked_inv(1) [OF assms]
  have ok: "pinv (fst (spawnLocked e p))"
    if d: "\<not> (pc_Directory (pr_config p) \<noteq> [] \<and> \<not> pe_dir_ok e (pc_Directory (pr_config p)))"
      "pe_preSpawn e = None" "spawn_config e p = Inr sc" "pe_spawn e sc = Inr pid" for sc pid
  proof -
    define q where "q = emit (Spawned sc pid)
        (p\<lparr>pr_spawned := Some pid, pr_spawnErr := [], pr_startedAt := Some (pe_now e)\<rparr>)"
    have q: "pr_spawned q = Some pid" "live_pids (pr_trace q) = [pid]" "chan_ok q" "pr_sm q = pr_sm p"
      using assms(1) by (auto simp: q_def childless_def chan_ok_def)
    let ?sm = "fst (ProcessStarted (pe_now e) (pr_sm q))"
    have f: "fst (spawnLocked e p) = (if pc_Startsecs (pr_config p) = 0
        then publishStateLocked (sm_state ?sm) (set_sm ?sm q) else go (WatchStart (pr_stopCh q)) q)"
      unfolding spawnLocked_def q_def using d by (auto simp: Let_def)
    have "sm_state ?sm \<in> {Starting, Running}" using ProcessStarted_state(1) [of "pr_sm q"] q assms(2) by simp
    then show ?thesis unfolding f using q assms(2) by (auto simp: pinv_def owned_def)
  qed
  show ?thesis
  proof (cases "pc_Directory (pr_config p) \<noteq> [] \<and> \<not> pe_dir_ok e (pc_Directory (pr_config p))")
    case True
    then show ?thesis using fail by (simp add: spawnLocked_def failSpawnLocked_def Let_def)
  next
    case dir: False
    show ?thesis
    proof (cases "pe_preSpawn e")
      case None
      then show ?thesis
      proof (cases "spawn_config e p")
        case (Inl err)
        then show ?thesis using fail dir None by (auto simp: spawnLocked_def failSpawnLocked_def Let_def)
      next
        case (Inr sc)
        then show ?thesis using fail dir None ok [OF dir None Inr]
          by (cases "pe_spawn e sc") (auto simp: spawnLocked_def failSpawnLocked_def Let_def)
      qed
    next
      case (Some err)
      then show ?thesis using fail dir by (auto simp: spawnLocked_def Let_def)
    qed
  qed
qed

lemma startLocked_cases:
  "fst (startLocked e p) = p \<or>
   (\<exists>m. fst (startLocked e p) = set_sm m p \<and> sm_state m = pr_state p) \<or>
   (\<not> pr_retired p \<and> pr_state p \<in> {Stopped, Exited, Fatal} \<and>
     (\<exists>m. sm_state m = Starting \<and> fst (startLocked e p) = fst (spawnLocked e (publishStateLocked Starting (set_sm m p)))))"
proof -
  obtain m r where r: "RequestStart (pe_now e) (pr_sm p) = (m, r)" by fastforce
  show ?thesis
  proof (cases "pr_state p \<in> {Stopped, Exited, Fatal}")
    case True
    then have "r = None" "sm_state m = Starting"
      using RequestStart_state(1) [OF True, of "pe_now e"] r by simp_all
    then show ?thesis using True r by (auto simp: startLocked_def)
  next
    case False
    show ?thesis
    proof (cases "pr_state p = Stopping")
      case True
      then obtain err where "r = Some err" "sm_state m = pr_state p"
        using RequestStart_state(2) [of "pr_sm p" "pe_now e"] r by auto
      then show ?thesis using r by (auto simp: startLocked_def)
    qed (use False in \<open>cases "pr_state p"; simp add: startLocked_def\<close>)
  qed
qed

lemma set_sm_pinv: "pinv p \<Longrightarrow> sm_state m = pr_state p \<Longrightarrow> pinv (set_sm m p)"
  by (simp add: pinv_def owned_def stop_armed_def)

lemma startLocked_inv [kahi_inv]:
  assumes "pinv p" shows "pinv (fst (startLocked e p))"
  using startLocked_cases [of e p]
proof (elim disjE exE conjE)
  fix m assume st: "pr_state p \<in> {Stopped, Exited, Fatal}" and m: "sm_state m = Starting"
    and f: "fst (startLocked e p) = fst (spawnLocked e (publishStateLocked Starting (set_sm m p)))"
  have "childless p" using pinv_childless [OF assms] st by blast
  then show ?thesis unfolding f using m by (intro spawnLocked_inv) simp_all
qed (use assms set_sm_pinv in auto)

section \<open>Stopping\<close>

lemma send_stop_fields [simp]:
  "pr_sm (send_stop p) = pr_sm p" "pr_spawned (send_stop p) = pr_spawned p" "pr_stopCh (send_stop p) = pr_stopCh p"
  "pr_killDoneCh (send_stop p) = pr_killDoneCh p" "pr_closed (send_stop p) = pr_closed p"
  "pr_nextCh (send_stop p) = pr_nextCh p" "pr_tasks (send_stop p) = pr_tasks p"
  "pr_config (send_stop p) = pr_config p" "pr_shutdown (send_stop p) = pr_shutdown p"
  "pr_retired (send_stop p) = pr_retired p" "owned (send_stop p) = owned p"
  "live_pids (pr_trace (send_stop p)) = live_pids (pr_trace p)" "spawns (pr_trace (send_stop p)) = spawns (pr_trace p)"
  by (auto simp: send_stop_def Let_def owned_def split: option.splits)

lemma chan_ok_send_stop [simp]: "chan_ok (send_stop p) = chan_ok p"
  by (simp add: chan_ok_def)

lemma owned_steps [simp]:
  "owned (emit x p) = owned p" "owned (go t p) = owned p" "owned (set_sm m p) = owned p"
  "owned (publishStateLocked s p) = owned p" "owned (close_stopCh p) = owned p" "owned (new_stopCh p) = owned p"
  by (simp_all add: owned_def)

text \<open>The four ways a stop can go.\<close>

definition stop_live :: "StateMachine \<Rightarrow> Process \<Rightarrow> Process" where
  "stop_live m p =
     (let p1 = send_stop (close_stopCh (publishStateLocked Stopping (set_sm m p))) in
      go (WatchStop (pr_nextCh p1))
        (p1\<lparr>pr_nextCh := pr_nextCh p1 + 1, pr_killDoneCh := Some (pr_nextCh p1)\<rparr>))"

lemma stopLocked_cases:
  obtains
    (backoff) m where "pr_state p = Backoff" "sm_state m = Stopped"
      "stopLocked e p = (new_stopCh (close_stopCh (publishStateLocked Stopped (set_sm m p))), None)"
  | (live) m where "pr_state p \<in> {Starting, Running}" "sm_state m = Stopping" "sm_manualStop m"
      "stopLocked e p = (stop_live m p, None)"
  | (refused) err where "pr_state p \<notin> {Starting, Running, Backoff}" "stopLocked e p = (p, err)"
proof -
  consider "pr_state p = Backoff" | "pr_state p \<in> {Starting, Running}" | "pr_state p \<notin> {Starting, Running, Backoff}"
    by blast
  then show thesis
  proof cases
    case 1
    obtain m r where t: "Transition (pe_now e) Stopped (pr_sm p) = (m, r)" by fastforce
    then have "r = None" "sm_state m = Stopped" using stop_backoff_state [OF 1, of "pe_now e"] by simp_all
    then show thesis using backoff [of m] 1 t by (simp add: stopLocked_def)
  next
    case 2
    obtain m r where t: "RequestStop (pe_now e) (pr_sm p) = (m, r)" by fastforce
    then have "r = None" "sm_state m = Stopping" "sm_manualStop m"
      using RequestStop_state [OF 2, of "pe_now e"] by simp_all
    then show thesis using live [of m] 2 t by (auto simp: stopLocked_def stop_live_def Let_def)
  next
    case 3
    then show thesis using refused [of "snd (stopLocked e p)"]
      by (cases "pr_state p") (simp_all add: stopLocked_def)
  qed
qed

lemma stop_live_fields:
  assumes "sm_state m = Stopping"
  shows "pr_state (stop_live m p) = Stopping" "pr_spawned (stop_live m p) = pr_spawned p"
    "owned (stop_live m p) = owned p" "live_pids (pr_trace (stop_live m p)) = live_pids (pr_trace p)"
    "spawns (pr_trace (stop_live m p)) = spawns (pr_trace p)" "chan_ok p \<Longrightarrow> chan_ok (stop_live m p)"
    "chan_ok p \<Longrightarrow> stop_armed (stop_live m p)"
  using assms
  by (auto simp: stop_live_def Let_def owned_def chan_ok_def stop_armed_def close_stopCh_def less_Suc_eq)

lemma stopLocked_inv [kahi_inv]:
  assumes "pinv p" shows "pinv (fst (stopLocked e p))"
proof (cases rule: stopLocked_cases [of p e])
  case (backoff m)
  then have "childless p" using pinv_childless [OF assms] by blast
  then have "childless (fst (stopLocked e p))"
    using backoff(3) by (simp add: childless_def)
  moreover have "pr_state (fst (stopLocked e p)) = Stopped" using backoff by simp
  ultimately show ?thesis by (intro childless_pinv) auto
next
  case (live m)
  then show ?thesis using assms stop_live_fields [OF live(2), of p]
    by (auto simp: pinv_def)
next
  case (refused err)
  then show ?thesis using assms by simp
qed

section \<open>Exits\<close>

text \<open>The exit of the child, before the process forgets it: every case leaves no child.\<close>

definition exiting :: "Process \<Rightarrow> bool" where
  "exiting p \<longleftrightarrow> live_pids (pr_trace p) = [] \<and> chan_ok p"

lemma exiting_steps [simp]:
  "exiting (publishStateLocked s p) = exiting p" "exiting (set_sm m p) = exiting p" "exiting (go t p) = exiting p"
  by (simp_all add: exiting_def)

lemma exit_by_state_inv:
  assumes "exiting p" and "pr_state p \<in> {Starting, Running, Stopping}"
  shows "exiting (exit_by_state e code p) \<and> pr_state (exit_by_state e code p) \<in> {Stopped, Backoff, Exited, Fatal} \<and>
     spawns (pr_trace (exit_by_state e code p)) = spawns (pr_trace p)"
proof -
  consider "pr_state p = Starting" | "pr_state p = Running" | "pr_state p = Stopping" using assms(2) by auto
  then show ?thesis
  proof cases
    case 1
    define m where "m = fst (ProcessExitedEarly (pe_now e) (pr_sm p))"
    have m: "sm_state m \<in> {Backoff, Fatal}" using ProcessExitedEarly_state [OF 1, of "pe_now e"] by (simp add: m_def)
    define p1 where "p1 = publishStateLocked (sm_state m) (set_sm m p)"
    have p1: "exiting p1" "pr_state p1 = sm_state m" "spawns (pr_trace p1) = spawns (pr_trace p)"
      using assms(1) by (simp_all add: p1_def)
    have f: "exit_by_state e code p = (if sm_state m = Backoff
        then (if pr_shutdown p1 then fst (stopLocked e p1) else go (RetryAfterBackoff (pr_stopCh p1)) p1) else p1)"
      using 1 by (simp add: exit_by_state_def m_def p1_def Let_def)
    show ?thesis
    proof (cases "sm_state m = Backoff \<and> pr_shutdown p1")
      case True
      then have "pr_state p1 = Backoff" using p1 by simp
      then show ?thesis
        using p1 True f by (cases rule: stopLocked_cases [of p1 e]) (auto simp: exiting_def)
    qed (use p1 m f in auto)
  next
    case 2
    then show ?thesis using assms(1) ProcessExited_state(1) [OF 2, of "pe_now e"]
      by (simp add: exit_by_state_def Let_def)
  next
    case 3
    then show ?thesis using assms(1) ProcessExited_state(2) [OF 3, of "pe_now e"]
      by (simp add: exit_by_state_def Let_def)
  qed
qed

lemma HandleExitStatus_inv:
  assumes "pinv p" and "pr_spawned p \<noteq> None"
  shows "pinv (HandleExitStatus e code sg p)" and "spawns (pr_trace (HandleExitStatus e code sg p)) = spawns (pr_trace p)"
    and "pr_state (HandleExitStatus e code sg p) \<in> {Stopped, Backoff, Exited, Fatal}"
proof -
  obtain pid where pid: "pr_spawned p = Some pid" using assms(2) by auto
  define p0 where "p0 = (emit (Reaped pid) p)\<lparr>pr_exitCode := code, pr_exitSignal := sg\<rparr>"
  define p1 where "p1 = exit_by_state e code p0"
  have p0: "exiting p0" "pr_state p0 \<in> {Starting, Running, Stopping}" "spawns (pr_trace p0) = spawns (pr_trace p)"
    using assms pid by (auto simp: p0_def pinv_def exiting_def owned_def chan_ok_def)
  note p1 = exit_by_state_inv [OF p0(1,2), of e code, folded p1_def]
  have f: "HandleExitStatus e code sg p = new_stopCh ((case pr_killDoneCh p1 of
                  None \<Rightarrow> p1
                | Some ch \<Rightarrow> p1\<lparr>pr_closed := ch # pr_closed p1, pr_killDoneCh := None\<rparr>)\<lparr>pr_spawned := None\<rparr>)"
    unfolding HandleExitStatus_def Let_def pid option.case p1_def p0_def ..
  have c: "childless (HandleExitStatus e code sg p)"
    using p1 unfolding f by (auto simp: childless_def exiting_def chan_ok_def new_stopCh_def less_Suc_eq split: option.splits)
  show st: "pr_state (HandleExitStatus e code sg p) \<in> {Stopped, Backoff, Exited, Fatal}"
    using p1 unfolding f by (auto split: option.splits)
  show "spawns (pr_trace (HandleExitStatus e code sg p)) = spawns (pr_trace p)"
    using p1 p0 unfolding f by (auto split: option.splits)
  show "pinv (HandleExitStatus e code sg p)" using childless_pinv [OF c st] .
qed

section \<open>Goroutines\<close>

lemma killLocked_fields [simp]:
  "pr_sm (killLocked p) = pr_sm p" "pr_spawned (killLocked p) = pr_spawned p" "chan_ok (killLocked p) = chan_ok p"
  "owned (killLocked p) = owned p" "live_pids (pr_trace (killLocked p)) = live_pids (pr_trace p)"
  "killed (pr_trace (killLocked p))" "spawns (pr_trace (killLocked p)) = spawns (pr_trace p)"
  by (auto simp: killLocked_def owned_def)

lemma killLocked_inv [kahi_inv]: "pinv p \<Longrightarrow> pinv (killLocked p)"
  by (simp add: pinv_def stop_armed_def)

lemma emit_inv:
  assumes "pinv p" and "\<And>sc pid. x \<noteq> Spawned sc pid" and "\<And>pid. x \<noteq> Reaped pid"
  shows "pinv (emit x p)"
proof -
  have "live_pids (x # pr_trace p) = live_pids (pr_trace p)" "killed (pr_trace p) \<Longrightarrow> killed (x # pr_trace p)"
    using assms(2,3) by (cases x; simp)+
  then show ?thesis using assms(1) by (auto simp: pinv_def stop_armed_def)
qed

lemma go_inv: "pinv p \<Longrightarrow> pinv (go t p)"
  by (auto simp: pinv_def stop_armed_def)

lemma watchStart_inv [kahi_inv]: "pinv p \<Longrightarrow> pinv (watchStart e p)"
  using ProcessStarted_cases [of "pe_now e" "pr_sm p"]
  by (auto simp: watchStart_def pinv_def stop_armed_def)

lemma retryAfterBackoff_inv [kahi_inv]:
  assumes "pinv p" shows "pinv (retryAfterBackoff e p)"
proof (cases "pr_state p = Backoff \<and> \<not> pr_retired p \<and> \<not> pr_shutdown p")
  case True
  obtain m r where t: "RetryFromBackoff (pe_now e) (pr_sm p) = (m, r)" by fastforce
  then have m: "r = None" "sm_state m = Starting" using RetryFromBackoff_state [of "pr_sm p" "pe_now e"] True by simp_all
  have "childless p" using pinv_childless [OF assms] True by blast
  then have "pinv (fst (spawnLocked e (publishStateLocked Starting (set_sm m p))))"
    using m by (intro spawnLocked_inv) simp_all
  then show ?thesis using True t m by (simp add: retryAfterBackoff_def)
next
  case False
  then show ?thesis using assms stopLocked_inv [OF assms, of e] by (auto simp: retryAfterBackoff_def)
qed

lemma restartAfterExit_inv [kahi_inv]: "pinv p \<Longrightarrow> pinv (restartAfterExit e p)"
  by (simp add: restartAfterExit_def startLocked_inv)

lemma drop_task_fields [simp]:
  "pr_sm (drop_task t p) = pr_sm p" "pr_spawned (drop_task t p) = pr_spawned p"
  "pr_trace (drop_task t p) = pr_trace p" "chan_ok (drop_task t p) = chan_ok p" "owned (drop_task t p) = owned p"
  "pr_retired (drop_task t p) = pr_retired p" "pr_shutdown (drop_task t p) = pr_shutdown p"
  "pr_killDoneCh (drop_task t p) = pr_killDoneCh p" "pr_closed (drop_task t p) = pr_closed p"
  "pr_tasks (drop_task t p) = remove1 t (pr_tasks p)"
  by (simp_all add: drop_task_def chan_ok_def owned_def)

text \<open>Dropping a task keeps the invariant unless it is the timer of the stop under way.\<close>

lemma drop_task_inv:
  assumes "pinv p" and "pr_state p = Stopping \<Longrightarrow> \<forall>ch. t = WatchStop ch \<longrightarrow> pr_killDoneCh p = Some ch \<longrightarrow> ch \<in> set (pr_closed p)"
  shows "pinv (drop_task t p)"
proof -
  have "stop_armed (drop_task t p)" if "pr_state p = Stopping"
  proof (cases "killed (pr_trace p)")
    case False
    have armed: "stop_armed p" using assms(1) that by (simp add: pinv_def)
    with False obtain ch where ch: "pr_killDoneCh p = Some ch" "ch \<notin> set (pr_closed p)" "WatchStop ch \<in> set (pr_tasks p)"
      using armed by (auto simp: stop_armed_def)
    then have "t \<noteq> WatchStop ch" using assms(2) that by auto
    then have "WatchStop ch \<in> set (remove1 t (pr_tasks p))" using ch(3) by (simp add: in_set_remove1)
    then show ?thesis using ch by (auto simp: stop_armed_def)
  qed (simp add: stop_armed_def)
  then show ?thesis using assms(1) by (simp add: pinv_def)
qed

lemma run_task_inv:
  assumes "pinv p" shows "pinv (run_task e t p)"
proof (cases "\<exists>ch. t = WatchStop ch")
  case True
  then obtain ch where t: "t = WatchStop ch" by blast
  show ?thesis
  proof (cases "pr_state p = Stopping")
    case True
    then have "pr_spawned p \<noteq> None" using assms by (simp add: pinv_def)
    then have "run_task e t p = killLocked (drop_task t p)"
      using True by (simp add: run_task_def t watchStop_def Let_def)
    then show ?thesis using assms True by (simp add: pinv_def stop_armed_def)
  next
    case False
    then have "run_task e t p = drop_task t p" by (simp add: run_task_def t watchStop_def Let_def)
    then show ?thesis using drop_task_inv [OF assms] False by simp
  qed
next
  case False
  then have d: "pinv (drop_task t p)" using drop_task_inv [OF assms] by auto
  show ?thesis
    using False d
    by (cases t) (auto simp: run_task_def Let_def kahi_inv go_inv intro: emit_inv)
qed

lemma pstep_inv: "pstep a p q \<Longrightarrow> pinv p \<Longrightarrow> pinv q"
proof (induction rule: pstep.induct)
  case (p_start p e)
  then show ?case by (simp add: Start_def startLocked_inv)
next
  case (p_stop p e)
  then show ?case by (simp add: Stop_def stopLocked_inv)
next
  case (p_kill p)
  then show ?case by (simp add: Kill_def killLocked_inv)
next
  case (p_retire p)
  then show ?case by (simp add: Retire_def pinv_def owned_def chan_ok_def stop_armed_def)
next
  case (p_shutdown p)
  then show ?case by (simp add: pinv_def owned_def chan_ok_def stop_armed_def)
next
  case (p_signal s p e)
  then show ?case by (auto simp: Signal_def emit_inv split: option.splits)
next
  case (p_stdin d p e)
  then show ?case by (auto simp: WriteStdin_def emit_inv split: option.splits)
next
  case (p_update cfg p)
  then show ?case by (simp add: UpdateConfig_def SetLimits_def pinv_def owned_def chan_ok_def stop_armed_def)
next
  case (p_exit p code s e)
  then show ?case using HandleExitStatus_inv(1) by simp
next
  case (p_task t p e)
  then show ?case by (simp add: run_task_inv)
next
  case (p_cancel t p ch)
  then show ?case by (intro drop_task_inv) auto
qed

lemma pruns_inv: "pruns as p q \<Longrightarrow> pinv p \<Longrightarrow> pinv q"
  by (induction rule: pruns.induct) (auto intro: pstep_inv)

section \<open>One child at a time\<close>



section \<open>No start behind the user's back\<close>

lemma stopLocked_quiet:
  "pr_state p \<in> {Stopping, Stopped} \<Longrightarrow> fst (stopLocked e p) = p"
  by (cases rule: stopLocked_cases [of p e]) auto

lemma small_quiet:
  "spawns (pr_trace (fst (Signal e s p))) = spawns (pr_trace p)" "pr_sm (fst (Signal e s p)) = pr_sm p"
  "spawns (pr_trace (fst (WriteStdin e d p))) = spawns (pr_trace p)" "pr_sm (fst (WriteStdin e d p)) = pr_sm p"
  "spawns (pr_trace (Kill p)) = spawns (pr_trace p)" "pr_sm (Kill p) = pr_sm p"
  "spawns (pr_trace (watchStart e p)) = spawns (pr_trace p)"
  "spawns (pr_trace (watchStop p)) = spawns (pr_trace p)" "pr_sm (watchStop p) = pr_sm p"
  by (simp_all add: Signal_def WriteStdin_def Kill_def watchStart_def watchStop_def split: option.splits)

lemma small_flags:
  "pr_retired (fst (Signal e s p)) = pr_retired p" "pr_shutdown (fst (Signal e s p)) = pr_shutdown p"
  "pr_retired (fst (WriteStdin e d p)) = pr_retired p" "pr_shutdown (fst (WriteStdin e d p)) = pr_shutdown p"
  "pr_retired (Kill p) = pr_retired p" "pr_shutdown (Kill p) = pr_shutdown p"
  "pr_retired (watchStart e p) = pr_retired p" "pr_shutdown (watchStart e p) = pr_shutdown p"
  "pr_retired (watchStop p) = pr_retired p" "pr_shutdown (watchStop p) = pr_shutdown p"
  by (simp_all add: Signal_def WriteStdin_def Kill_def killLocked_def watchStart_def watchStop_def split: option.splits)

lemma stopLocked_flags:
  "pr_retired (fst (stopLocked e p)) = pr_retired p" "pr_shutdown (fst (stopLocked e p)) = pr_shutdown p"
  "spawns (pr_trace (fst (stopLocked e p))) = spawns (pr_trace p)"
  by (cases rule: stopLocked_cases [of p e]; simp add: stop_live_def Let_def)+

lemma exit_flags:
  "pr_retired (HandleExitStatus e c s p) = pr_retired p" "pr_shutdown (HandleExitStatus e c s p) = pr_shutdown p"
  by (auto simp: HandleExitStatus_def exit_by_state_def Let_def stopLocked_flags split: State.splits option.splits)

lemma run_task_quiet:
  assumes "pr_state p \<in> {Stopping, Stopped}"
  shows "pr_sm (run_task e t p) = pr_sm p \<and> spawns (pr_trace (run_task e t p)) = spawns (pr_trace p)"
proof -
  have "pr_sm (watchStart e q) = pr_sm q" if "pr_sm q = pr_sm p" for q
    using that assms ProcessStarted_state(2) [of "pr_sm q"] by (auto simp: watchStart_def)
  moreover have "retryAfterBackoff e q = q" "restartAfterExit e q = q" if "pr_sm q = pr_sm p" for q
    using that assms by (auto simp: retryAfterBackoff_def restartAfterExit_def)
  ultimately show ?thesis by (cases t) (simp_all add: run_task_def Let_def small_quiet)
qed

lemma pstep_stopped:
  assumes "pstep a p q" and "pinv p" and "pr_state p \<in> {Stopping, Stopped}" and "a \<noteq> AStart"
  shows "pr_state q \<in> {Stopping, Stopped} \<and> spawns (pr_trace q) = spawns (pr_trace p)"
  using assms
proof (induction rule: pstep.induct)
  case (p_stop p e)
  then show ?case by (simp add: Stop_def stopLocked_quiet)
next
  case (p_exit p code s e)
  then have st: "pr_state p = Stopping" by (auto simp: pinv_def)
  have "pr_state (HandleExitStatus e code s p) = Stopped"
    using st ProcessExited_state(2) [of "pr_sm p" "pe_now e"] p_exit(1)
    by (auto simp: HandleExitStatus_def exit_by_state_def Let_def split: option.splits)
  then show ?case using HandleExitStatus_inv(2) [OF p_exit(2,1)] by simp
next
  case (p_task t p e)
  then show ?case using run_task_quiet [of p e t] by simp
qed (simp_all add: small_quiet Retire_def UpdateConfig_def SetLimits_def)

lemma pruns_stopped:
  "pruns as p q \<Longrightarrow> pinv p \<Longrightarrow> pr_state p \<in> {Stopping, Stopped} \<Longrightarrow> AStart \<notin> set as \<Longrightarrow>
   pr_state q \<in> {Stopping, Stopped} \<and> spawns (pr_trace q) = spawns (pr_trace p)"
proof (induction rule: pruns.induct)
  case (runs_snoc as p q a r)
  then have q: "pr_state q \<in> {Stopping, Stopped}" "spawns (pr_trace q) = spawns (pr_trace p)" "a \<noteq> AStart"
    by auto
  have "pinv q" by (rule pruns_inv [OF runs_snoc(1,4)])
  then show ?case using pstep_stopped [OF runs_snoc(2) _ q(1,3)] q(2) by simp
qed simp


text \<open>A process that must not start: removed by a reload, or shutting down and not asked to.\<close>

definition barred :: "action \<Rightarrow> Process \<Rightarrow> bool" where
  "barred a p \<longleftrightarrow> pr_retired p \<or> (pr_shutdown p \<and> a \<noteq> AStart)"

lemma run_task_barred:
  assumes "pr_retired p \<or> pr_shutdown p"
  shows "spawns (pr_trace (run_task e t p)) = spawns (pr_trace p) \<and>
     pr_retired (run_task e t p) = pr_retired p \<and> pr_shutdown (run_task e t p) = pr_shutdown p"
proof -
  let ?q = "drop_task t p"
  have "spawns (pr_trace (retryAfterBackoff e ?q)) = spawns (pr_trace p) \<and>
      pr_retired (retryAfterBackoff e ?q) = pr_retired p \<and> pr_shutdown (retryAfterBackoff e ?q) = pr_shutdown p"
    using assms by (auto simp: retryAfterBackoff_def stopLocked_flags)
  moreover have "restartAfterExit e ?q = ?q" using assms by (auto simp: restartAfterExit_def startLocked_def)
  ultimately show ?thesis
    by (cases t) (simp_all add: run_task_def Let_def small_quiet small_flags)
qed

lemma pstep_barred:
  assumes "pstep a p q" and "pinv p" and "barred a p"
  shows "spawns (pr_trace q) = spawns (pr_trace p) \<and>
    (pr_retired p \<longrightarrow> pr_retired q) \<and> (pr_shutdown p \<longrightarrow> pr_shutdown q)"
  using assms
proof (induction rule: pstep.induct)
  case (p_start p e)
  then show ?case by (simp add: Start_def startLocked_def barred_def)
next
  case (p_stop p e)
  then show ?case by (simp add: Stop_def stopLocked_flags)
next
  case (p_exit p code s e)
  then show ?case using HandleExitStatus_inv(2) [OF p_exit(2,1)] exit_flags by simp
next
  case (p_task t p e)
  then have "pr_retired p \<or> pr_shutdown p" by (auto simp: barred_def)
  then show ?case using run_task_barred by simp
qed (simp_all add: small_quiet small_flags Retire_def UpdateConfig_def)

lemma pruns_barred:
  "pruns as p q \<Longrightarrow> pinv p \<Longrightarrow> pr_retired p \<or> (pr_shutdown p \<and> AStart \<notin> set as) \<Longrightarrow>
   spawns (pr_trace q) = spawns (pr_trace p) \<and> (pr_retired p \<longrightarrow> pr_retired q) \<and> (pr_shutdown p \<longrightarrow> pr_shutdown q)"
proof (induction rule: pruns.induct)
  case (runs_snoc as p q a r)
  then have q: "spawns (pr_trace q) = spawns (pr_trace p)" "pr_retired p \<longrightarrow> pr_retired q"
    "pr_shutdown p \<longrightarrow> pr_shutdown q" by auto
  have "pinv q" by (rule pruns_inv [OF runs_snoc(1,4)])
  moreover have "barred a q" using runs_snoc(5) q by (auto simp: barred_def)
  ultimately show ?case using pstep_barred [OF runs_snoc(2)] q by auto
qed simp


section \<open>What a stop sends\<close>

lemma valid_signal_parses: "stop_signal_name s \<in> set validSignals \<Longrightarrow> \<exists>sg. ParseSignal s = Some sg"
  by (auto simp: ParseSignal_def stop_signal_name_def validSignals_def signal_table_def)

text \<open>
  C29 (functional).  Stopping a running process whose configuration passed validation never panics:
  it sends exactly the configured signal, to the child's process group if \<open>stopasgroup\<close> is set,
  after publishing STOPPING with the child's pid, and arms the kill timer.
\<close>

theorem stop_sends_configured_signal:
  assumes "validate_program name (pr_config p) = []" and "pr_state p \<in> {Starting, Running}"
    and "pr_spawned p = Some pid"
  shows "\<exists>sg. ParseSignal (pc_Stopsignal (pr_config p)) = Some sg \<and>
     (let q = fst (Stop e p) in snd (Stop e p) = None \<and> pr_state q = Stopping \<and>
        pr_trace q = (if pc_Stopasgroup (pr_config p) then SignalledGroup pid sg else Signalled pid (Some sg)) #
          Published Stopping pid # pr_trace p \<and>
        (\<exists>ch. WatchStop ch \<in> set (pr_tasks q) \<and> pr_killDoneCh q = Some ch))"
proof -
  obtain sg where sg: "ParseSignal (pc_Stopsignal (pr_config p)) = Some sg"
    using valid_signal_parses [OF validated_stop_signal [OF assms(1)]] by blast
  show ?thesis
  proof (cases rule: stopLocked_cases [of p e])
    case (live m)
    have "pr_trace (stop_live m p) = (if pc_Stopasgroup (pr_config p) then SignalledGroup pid sg
        else Signalled pid (Some sg)) # Published Stopping pid # pr_trace p"
      using sg assms(3) by (simp add: stop_live_def send_stop_def Let_def pidLocked_def)
    moreover have "pr_state (stop_live m p) = Stopping" using stop_live_fields(1) [OF live(2)] .
    moreover have "\<exists>ch. WatchStop ch \<in> set (pr_tasks (stop_live m p)) \<and> pr_killDoneCh (stop_live m p) = Some ch"
      by (simp add: stop_live_def Let_def)
    ultimately show ?thesis using live sg by (auto simp: Stop_def Let_def)
  qed (use assms(2) in auto)
qed

section \<open>Restart policy\<close>

lemma exit_running:
  assumes "pr_state p = Running"
  defines "q \<equiv> \<lambda>e code sg. HandleExitStatus e code sg p"
  shows "pr_state (q e code sg) = Exited" and "pr_spawned (q e code sg) = None"
    and "pr_exitCode (q e code sg) = code" and "pr_exitSignal (q e code sg) = sg"
    and "pr_tasks (q e code sg) =
       (if \<not> pr_shutdown p \<and> \<not> sm_manualStop (pr_sm p) \<and>
           (pc_Autorestart (pr_config p) = ''true'' \<or>
            pc_Autorestart (pr_config p) = ''unexpected'' \<and> code \<notin> set (pc_Exitcodes (pr_config p)))
        then RestartAfterExit # pr_tasks p else pr_tasks p)"
proof -
  have m: "fst (ProcessExited n (pr_sm p)) = (pr_sm p)\<lparr>sm_state := Exited\<rparr>" for n
    using assms(1) by (simp add: ProcessExited_def transitionLocked_def applyTransition_def Let_def)
  note defs = HandleExitStatus_def exit_by_state_def Let_def m shouldRestart_def new_stopCh_def
    publishStateLocked_def emit_def set_sm_def go_def
  show "pr_state (q e code sg) = Exited" "pr_spawned (q e code sg) = None"
    "pr_exitCode (q e code sg) = code" "pr_exitSignal (q e code sg) = sg"
    unfolding q_def using assms(1) by (simp_all add: defs split: option.splits)
  show "pr_tasks (q e code sg) =
       (if \<not> pr_shutdown p \<and> \<not> sm_manualStop (pr_sm p) \<and>
           (pc_Autorestart (pr_config p) = ''true'' \<or>
            pc_Autorestart (pr_config p) = ''unexpected'' \<and> code \<notin> set (pc_Exitcodes (pr_config p)))
        then RestartAfterExit # pr_tasks p else pr_tasks p)"
    unfolding q_def using assms(1) by (simp add: defs split: option.splits)
qed

text \<open>
  C30 (functional).  When the child of a RUNNING process exits, the process becomes EXITED without a
  child, records the exit, and a restart is queued exactly if the daemon is not shutting down, the
  process was not stopped by hand, and \<open>autorestart\<close> is true, or unexpected with an exit code that
  is not expected.  A death by signal has exit code -1 and is judged by that code like any other.
\<close>

theorem autorestart_policy:
  assumes "pr_state p = Running"
  shows "let q = HandleExitStatus e code sg p in
     pr_state q = Exited \<and> pr_spawned q = None \<and> pr_exitCode q = code \<and> pr_exitSignal q = sg \<and>
     pr_tasks q =
       (if \<not> pr_shutdown p \<and> \<not> sm_manualStop (pr_sm p) \<and>
           (pc_Autorestart (pr_config p) = ''true'' \<or>
            pc_Autorestart (pr_config p) = ''unexpected'' \<and> code \<notin> set (pc_Exitcodes (pr_config p)))
        then RestartAfterExit # pr_tasks p else pr_tasks p)"
  using exit_running [OF assms] by (simp add: Let_def)

section \<open>What a child is given\<close>

text \<open>
  A child that runs as another user sees nothing of the supervisor's environment
  unless its configuration asks for it: its environment is the same whatever the supervisor's
  own is, apart from PATH, and starts with PATH and HOME.
\<close>

theorem dropped_child_env_is_minimal:
  assumes "ParseCredential (pc_User (pr_config p)) = Some (Some cred)" and "uint (cr_Uid cred) \<noteq> pe_uid e"
    and "\<not> pc_InheritEnvironment (pr_config p)"
  shows "buildEnv (e\<lparr>pe_environ := environ'\<rparr>) p = buildEnv e p \<and>
     take 2 (buildEnv e p) = minimalBaseEnv e (cr_Uid cred) \<and>
     length (buildEnv e p) = 5 + length (pc_Environment (pr_config p))"
  using assms
  by (simp add: buildEnv_def privilegeDiffers_def Let_def minimalBaseEnv_def resolveHome_def cong: option.case_cong)

end
