(* ===== verification/Event_Bus.thy ===== *)
theory Event_Bus
  imports Kahi_Prelude
begin

text \<open>
  \<open>internal/events/events.go\<close>: the publish-subscribe bus.  The subscription table is an
  association list from event type to the subscriptions in registration order; ids are the
  code's \<open>uint64\<close> counter.  A handler is a value \<open>'h\<close>; what calling it does to the world
  \<open>'w\<close>, and whether it panics, is the argument \<open>run\<close>, since handlers are supplied by the
  bus's clients.  The interface the clients rely on is the locale \<open>pubsub\<close>.
\<close>

section \<open>Events\<close>

type_synonym event_type = string

definition ProcessStateStopped :: event_type where "ProcessStateStopped = ''PROCESS_STATE_STOPPED''"
definition ProcessStateStarting :: event_type where "ProcessStateStarting = ''PROCESS_STATE_STARTING''"
definition ProcessStateRunning :: event_type where "ProcessStateRunning = ''PROCESS_STATE_RUNNING''"
definition ProcessStateBackoff :: event_type where "ProcessStateBackoff = ''PROCESS_STATE_BACKOFF''"
definition ProcessStateStopping :: event_type where "ProcessStateStopping = ''PROCESS_STATE_STOPPING''"
definition ProcessStateExited :: event_type where "ProcessStateExited = ''PROCESS_STATE_EXITED''"
definition ProcessStateFatal :: event_type where "ProcessStateFatal = ''PROCESS_STATE_FATAL''"
definition ProcessLogStdout :: event_type where "ProcessLogStdout = ''PROCESS_LOG_STDOUT''"
definition ProcessLogStderr :: event_type where "ProcessLogStderr = ''PROCESS_LOG_STDERR''"
definition SupervisorStateRunning :: event_type where "SupervisorStateRunning = ''SUPERVISOR_STATE_RUNNING''"
definition SupervisorStateStopping :: event_type where "SupervisorStateStopping = ''SUPERVISOR_STATE_STOPPING''"
definition ProcessGroupAdded :: event_type where "ProcessGroupAdded = ''PROCESS_GROUP_ADDED''"
definition ProcessGroupRemoved :: event_type where "ProcessGroupRemoved = ''PROCESS_GROUP_REMOVED''"
definition Tick5 :: event_type where "Tick5 = ''TICK_5''"
definition Tick60 :: event_type where "Tick60 = ''TICK_60''"
definition Tick3600 :: event_type where "Tick3600 = ''TICK_3600''"

lemmas event_type_defs = ProcessStateStopped_def ProcessStateStarting_def ProcessStateRunning_def
  ProcessStateBackoff_def ProcessStateStopping_def ProcessStateExited_def ProcessStateFatal_def
  ProcessLogStdout_def ProcessLogStderr_def SupervisorStateRunning_def SupervisorStateStopping_def
  ProcessGroupAdded_def ProcessGroupRemoved_def Tick5_def Tick60_def Tick3600_def

text \<open>\<open>ev_time\<close> is the timestamp in nanoseconds; 0 is Go's zero time.\<close>

record Event =
  ev_type :: event_type
  ev_time :: int
  ev_data :: "(string \<times> string) list"

section \<open>The bus\<close>

record 'h subscription =
  sub_id :: "64 word"
  sub_handler :: 'h

record 'h Bus =
  bus_subs :: "(event_type \<times> 'h subscription list) list"
  bus_nextID :: "64 word"

definition NewBus :: "'h Bus" where
  "NewBus = \<lparr>bus_subs = [], bus_nextID = 0\<rparr>"

text \<open>\<open>b.subs[t]\<close>, which reads a missing key as the nil slice.\<close>

definition subs_of :: "'h Bus \<Rightarrow> event_type \<Rightarrow> 'h subscription list" where
  "subs_of b t = (case map_of (bus_subs b) t of None \<Rightarrow> [] | Some ss \<Rightarrow> ss)"

definition Subscribe :: "event_type \<Rightarrow> 'h \<Rightarrow> 'h Bus \<Rightarrow> 'h Bus \<times> 64 word" where
  "Subscribe t h b =
     (let i = bus_nextID b + 1 in
      (b\<lparr>bus_nextID := i,
         bus_subs := AList.update t (subs_of b t @ [\<lparr>sub_id = i, sub_handler = h\<rparr>]) (bus_subs b)\<rparr>,
       i))"

text \<open>
  The two loops of \<open>Unsubscribe\<close>: the first type, in the order of the \<open>range\<close>, whose list
  holds the id loses that subscription, and the type itself when its list is then empty.
\<close>

fun remove_first :: "64 word \<Rightarrow> 'h subscription list \<Rightarrow> 'h subscription list option" where
  "remove_first i [] = None"
| "remove_first i (s # ss) =
     (if sub_id s = i then Some ss else map_option ((#) s) (remove_first i ss))"

fun unsubscribe_loop ::
    "64 word \<Rightarrow> (event_type \<times> 'h subscription list) list \<Rightarrow> (event_type \<times> 'h subscription list) list" where
  "unsubscribe_loop i [] = []"
| "unsubscribe_loop i ((t, ss) # rest) =
     (case remove_first i ss of
        None \<Rightarrow> (t, ss) # unsubscribe_loop i rest
      | Some [] \<Rightarrow> rest
      | Some ss' \<Rightarrow> (t, ss') # rest)"

definition Unsubscribe :: "64 word \<Rightarrow> 'h Bus \<Rightarrow> 'h Bus" where
  "Unsubscribe i b = b\<lparr>bus_subs := unsubscribe_loop i (bus_subs b)\<rparr>"

text \<open>
  \<open>safeCall\<close>: the handler runs; when it panics the panic is recovered and logged.  The log is
  the list of event types whose handler panicked.
\<close>

definition safeCall ::
    "('h \<Rightarrow> Event \<Rightarrow> 'w \<Rightarrow> 'w \<times> bool) \<Rightarrow> 'h \<Rightarrow> Event \<Rightarrow> 'w \<times> string list \<Rightarrow> 'w \<times> string list" where
  "safeCall run h e wl =
     (case run h e (fst wl) of
        (w', panicked) \<Rightarrow> (w', if panicked then snd wl @ [ev_type e] else snd wl))"

definition Publish ::
    "('h \<Rightarrow> Event \<Rightarrow> 'w \<Rightarrow> 'w \<times> bool) \<Rightarrow> int \<Rightarrow> Event \<Rightarrow> 'h Bus \<Rightarrow> 'w \<times> string list \<Rightarrow> 'w \<times> string list" where
  "Publish run now e b wl =
     (let e' = (if ev_time e = 0 then e\<lparr>ev_time := now\<rparr> else e);
          handlers = subs_of b (ev_type e')
      in if handlers = [] then wl
         else fold (\<lambda>s. safeCall run (sub_handler s) e') handlers wl)"

definition SubscriberCount :: "'h Bus \<Rightarrow> event_type \<Rightarrow> nat" where
  "SubscriberCount b t = length (subs_of b t)"

text \<open>
  The ticker goroutine, one \<open>select\<close> round at a time: it ends on the stop channel and
  otherwise publishes the tick that fired, with the Unix time of the tick as \<open>when\<close>.
\<close>

datatype tick = TStop | TTick5 int | TTick60 int | TTick3600 int

definition tick_event :: "event_type \<Rightarrow> int \<Rightarrow> Event" where
  "tick_event t now =
     \<lparr>ev_type = t, ev_time = now, ev_data = [(''when'', itoa (now div 1000000000))]\<rparr>"

fun ticker_run :: "tick list \<Rightarrow> Event list" where
  "ticker_run [] = []"
| "ticker_run (TStop # ts) = []"
| "ticker_run (TTick5 now # ts) = tick_event Tick5 now # ticker_run ts"
| "ticker_run (TTick60 now # ts) = tick_event Tick60 now # ticker_run ts"
| "ticker_run (TTick3600 now # ts) = tick_event Tick3600 now # ticker_run ts"

section \<open>Well-formed buses\<close>

definition all_subs :: "'h Bus \<Rightarrow> 'h subscription list" where
  "all_subs b = concat (map snd (bus_subs b))"

definition bus_wf :: "'h Bus \<Rightarrow> bool" where
  "bus_wf b \<longleftrightarrow> distinct (map fst (bus_subs b)) \<and> (\<forall>(t, ss) \<in> set (bus_subs b). ss \<noteq> []) \<and>
     distinct (map sub_id (all_subs b)) \<and> (\<forall>s \<in> set (all_subs b). sub_id s \<le> bus_nextID b)"

lemma subs_of_in_all: "s \<in> set (subs_of b t) \<Longrightarrow> s \<in> set (all_subs b)"
  by (cases "map_of (bus_subs b) t") (force simp: subs_of_def all_subs_def dest: map_of_SomeD)+

lemma subs_of_Subscribe:
  "subs_of (fst (Subscribe t h b)) u =
     (if u = t then subs_of b t @ [\<lparr>sub_id = bus_nextID b + 1, sub_handler = h\<rparr>] else subs_of b u)"
  by (simp add: Subscribe_def subs_of_def Let_def update_conv')

lemma remove_first_None: "remove_first i ss = None \<longleftrightarrow> i \<notin> sub_id ` set ss"
  by (induction ss) auto

lemma remove_first_filter:
  "remove_first i ss = Some ss' \<Longrightarrow> distinct (map sub_id ss) \<Longrightarrow>
   ss' = filter (\<lambda>s. sub_id s \<noteq> i) ss"
proof (induction ss arbitrary: ss')
  case (Cons s ss)
  show ?case
  proof (cases "sub_id s = i")
    case True
    with Cons.prems have "i \<notin> sub_id ` set ss" by simp
    then have "\<forall>x \<in> set ss. sub_id x \<noteq> i" by blast
    with True Cons.prems show ?thesis by simp
  next
    case False
    with Cons show ?thesis by auto
  qed
qed simp

lemma filter_ids_idem: "i \<notin> sub_id ` set ss \<Longrightarrow> filter (\<lambda>s. sub_id s \<noteq> i) ss = ss"
  by (auto simp: filter_id_conv)

definition lookup_subs :: "(event_type \<times> 'h subscription list) list \<Rightarrow> event_type \<Rightarrow> 'h subscription list" where
  "lookup_subs m t = (case map_of m t of None \<Rightarrow> [] | Some ss \<Rightarrow> ss)"

lemma subs_of_lookup: "subs_of b t = lookup_subs (bus_subs b) t"
  by (simp add: subs_of_def lookup_subs_def)

lemma lookup_subs_empty: "t \<notin> fst ` set m \<Longrightarrow> lookup_subs m t = []"
  by (auto simp: lookup_subs_def split: option.splits dest: map_of_SomeD intro: rev_image_eqI)

lemma lookup_subs_Cons:
  "lookup_subs ((u, ss) # m) t = (if t = u then ss else lookup_subs m t)"
  by (simp add: lookup_subs_def)

lemma lookup_subs_in: "s \<in> set (lookup_subs m t) \<Longrightarrow> s \<in> set (concat (map snd m))"
  by (cases "map_of m t") (force simp: lookup_subs_def dest: map_of_SomeD)+

lemma lookup_subs_free:
  assumes "i \<notin> sub_id ` set (concat (map snd m))"
  shows "filter (\<lambda>s. sub_id s \<noteq> i) (lookup_subs m t) = lookup_subs m t"
proof (rule filter_ids_idem)
  show "i \<notin> sub_id ` set (lookup_subs m t)" using assms lookup_subs_in [of _ m t] by blast
qed

lemma unsubscribe_loop_lookup:
  "distinct (map fst m) \<Longrightarrow> distinct (map sub_id (concat (map snd m))) \<Longrightarrow>
   lookup_subs (unsubscribe_loop i m) t = filter (\<lambda>s. sub_id s \<noteq> i) (lookup_subs m t)"
proof (induction m rule: unsubscribe_loop.induct)
  case (2 i u ss rest)
  show ?case
  proof (cases "remove_first i ss")
    case None
    then have f: "filter (\<lambda>s. sub_id s \<noteq> i) ss = ss" by (simp add: filter_ids_idem remove_first_None)
    with None 2 show ?thesis by (simp add: lookup_subs_Cons)
  next
    case (Some ss')
    then have ss': "ss' = filter (\<lambda>s. sub_id s \<noteq> i) ss"
      using 2 by (intro remove_first_filter) auto
    have "i \<in> sub_id ` set ss" using Some remove_first_None [of i ss] by auto
    then have "i \<notin> sub_id ` set (concat (map snd rest))" using 2 by auto
    then have f: "filter (\<lambda>s. sub_id s \<noteq> i) (lookup_subs rest t) = lookup_subs rest t"
      by (rule lookup_subs_free)
    have u: "lookup_subs rest u = []" using 2 by (intro lookup_subs_empty) auto
    show ?thesis
    proof (cases ss')
      case Nil
      then show ?thesis using Some f u ss' by (auto simp: lookup_subs_Cons)
    next
      case (Cons a as)
      then show ?thesis using Some f ss' by (simp add: lookup_subs_Cons)
    qed
  qed
qed (simp add: lookup_subs_def)

lemma subs_of_Unsubscribe:
  "bus_wf b \<Longrightarrow> subs_of (Unsubscribe i b) t = filter (\<lambda>s. sub_id s \<noteq> i) (subs_of b t)"
  by (simp add: subs_of_lookup Unsubscribe_def unsubscribe_loop_lookup bus_wf_def all_subs_def)

lemma unsubscribe_loop_keys: "fst ` set (unsubscribe_loop i m) \<subseteq> fst ` set m"
  by (induction m rule: unsubscribe_loop.induct) (auto split: option.splits list.splits)

lemma unsubscribe_loop_distinct: "distinct (map fst m) \<Longrightarrow> distinct (map fst (unsubscribe_loop i m))"
proof (induction m rule: unsubscribe_loop.induct)
  case (2 i u ss rest)
  then have "u \<notin> fst ` set (unsubscribe_loop i rest)"
    using unsubscribe_loop_keys [of i rest] by auto
  with 2 show ?case by (auto split: option.splits list.splits)
qed simp

lemma remove_first_ids:
  "remove_first i ss = Some ss' \<Longrightarrow> mset (map sub_id ss) = add_mset i (mset (map sub_id ss'))"
  by (induction ss arbitrary: ss') (auto split: if_splits)

lemma unsubscribe_loop_ids:
  "mset (map sub_id (concat (map snd (unsubscribe_loop i m)))) \<subseteq># mset (map sub_id (concat (map snd m)))"
proof (induction m rule: unsubscribe_loop.induct)
  case (2 i u ss rest)
  show ?case
  proof (cases "remove_first i ss")
    case None
    with 2 show ?thesis by simp
  next
    case (Some ss')
    from remove_first_ids [OF this] Some show ?thesis
      by (cases ss') (auto simp: subset_mset.add_increasing2 subset_mset.add_increasing)
  qed
qed simp

lemma distinct_submset:
  assumes "mset xs \<subseteq># mset ys" and "distinct ys" shows "distinct xs"
proof -
  have "count (mset xs) a = (if a \<in> set xs then 1 else 0)" for a
  proof -
    have "count (mset xs) a \<le> count (mset ys) a" using assms(1) by (simp add: subseteq_mset_def)
    also have "\<dots> \<le> 1" using assms(2) by (simp add: distinct_count_atmost_1)
    finally have "count (mset xs) a \<le> 1" .
    moreover have "0 < count (mset xs) a \<longleftrightarrow> a \<in> set xs" by simp
    ultimately show ?thesis by (cases "a \<in> set xs") (simp_all add: le_Suc_eq)
  qed
  then show ?thesis by (simp add: distinct_count_atmost_1)
qed

lemma unsubscribe_loop_subset: "set (concat (map snd (unsubscribe_loop i m))) \<subseteq> set (concat (map snd m))"
proof (induction m rule: unsubscribe_loop.induct)
  case (2 i u ss rest)
  have "set ss' \<subseteq> set ss" if "remove_first i ss = Some ss'" for ss'
    using that by (induction ss arbitrary: ss') (fastforce split: if_splits)+
  with 2 show ?case by (fastforce split: option.splits list.splits)
qed simp

lemma unsubscribe_loop_nonempty:
  "\<forall>(t, ss) \<in> set m. ss \<noteq> [] \<Longrightarrow> \<forall>(t, ss) \<in> set (unsubscribe_loop i m). ss \<noteq> []"
  by (induction m rule: unsubscribe_loop.induct) (auto split: option.splits list.splits)

lemma bus_wf_New: "bus_wf NewBus"
  by (simp add: bus_wf_def NewBus_def all_subs_def)

lemma bus_wf_Unsubscribe [kahi_inv]:
  assumes "bus_wf b" shows "bus_wf (Unsubscribe i b)"
  unfolding bus_wf_def
proof (intro conjI)
  show "distinct (map fst (bus_subs (Unsubscribe i b)))"
    using assms by (simp add: bus_wf_def Unsubscribe_def unsubscribe_loop_distinct)
  show "\<forall>(t, ss) \<in> set (bus_subs (Unsubscribe i b)). ss \<noteq> []"
    using assms unsubscribe_loop_nonempty [of "bus_subs b" i] by (simp add: bus_wf_def Unsubscribe_def)
  show "distinct (map sub_id (all_subs (Unsubscribe i b)))"
    using assms distinct_submset [OF unsubscribe_loop_ids [of i "bus_subs b"]]
    by (simp add: bus_wf_def Unsubscribe_def all_subs_def)
  have "set (all_subs (Unsubscribe i b)) \<subseteq> set (all_subs b)"
    using unsubscribe_loop_subset [of i "bus_subs b"] by (simp add: Unsubscribe_def all_subs_def)
  then show "\<forall>s \<in> set (all_subs (Unsubscribe i b)). sub_id s \<le> bus_nextID (Unsubscribe i b)"
    using assms by (auto simp: bus_wf_def Unsubscribe_def)
qed

lemma word_less_inc: "x \<noteq> -1 \<Longrightarrow> x < x + 1" for x :: "64 word"
  by (metis add.commute add_eq_0_iff lessI unatSuc word_less_nat_alt)

lemma mset_update_subs:
  "distinct (map fst m) \<Longrightarrow>
   mset (concat (map snd (AList.update t (lookup_subs m t @ [s]) m))) =
     add_mset s (mset (concat (map snd m)))"
proof (induction m)
  case (Cons p m)
  obtain u ss where p: "p = (u, ss)" by (cases p)
  show ?case
  proof (cases "t = u")
    case True
    with Cons.prems p show ?thesis by (simp add: lookup_subs_Cons)
  next
    case False
    with Cons p show ?thesis by (simp add: lookup_subs_Cons)
  qed
qed (simp add: lookup_subs_def)

lemma bus_wf_Subscribe [kahi_inv]:
  assumes wf: "bus_wf b" and room: "bus_nextID b \<noteq> -1"
  shows "bus_wf (fst (Subscribe t h b))"
proof -
  let ?i = "bus_nextID b + 1" and ?s = "\<lparr>sub_id = bus_nextID b + 1, sub_handler = h\<rparr>"
  let ?b = "fst (Subscribe t h b)"
  have up: "bus_nextID b < ?i" using room by (rule word_less_inc)
  have ms: "mset (all_subs ?b) = add_mset ?s (mset (all_subs b))"
    using wf by (simp add: all_subs_def Subscribe_def Let_def subs_of_lookup mset_update_subs bus_wf_def)
  then have set: "set (all_subs ?b) = insert ?s (set (all_subs b))"
    by (metis set_mset_add_mset_insert set_mset_mset)
  have "mset (map sub_id (all_subs ?b)) = mset (?i # map sub_id (all_subs b))"
    using ms by simp
  then have "distinct (map sub_id (all_subs ?b)) = distinct (?i # map sub_id (all_subs b))"
    by (rule mset_eq_imp_distinct_iff)
  moreover have "?i \<notin> sub_id ` set (all_subs b)" using wf up by (auto simp: bus_wf_def)
  moreover have "distinct (map fst (bus_subs ?b))"
    using wf by (simp add: bus_wf_def Subscribe_def Let_def distinct_update)
  moreover have "\<forall>(u, ss) \<in> set (bus_subs ?b). ss \<noteq> []"
  proof -
    have "set (AList.update t (ss @ [x]) m) \<subseteq> insert (t, ss @ [x]) (set m)" for ss x and m :: "(string \<times> 'a subscription list) list"
      by (induction m) auto
    then show ?thesis using wf unfolding bus_wf_def Subscribe_def Let_def by (fastforce simp: Let_def)
  qed
  ultimately show ?thesis
    using wf set up by (auto simp: bus_wf_def Subscribe_def Let_def)
qed


section \<open>The interface of the bus\<close>

text \<open>
  What the bus promises its clients: a subscription appends its handler under a fresh id to
  the handlers of its type and touches no other type, and unsubscribing an id removes
  exactly the handlers under it.  \<open>room n b\<close> says that \<open>n\<close> more ids are left.
\<close>

locale pubsub =
  fixes sub :: "event_type \<Rightarrow> 'h \<Rightarrow> 'b \<Rightarrow> 'b \<times> 'i"
    and unsub :: "'i \<Rightarrow> 'b \<Rightarrow> 'b"
    and handlers :: "'b \<Rightarrow> event_type \<Rightarrow> ('i \<times> 'h) list"
    and ok :: "'b \<Rightarrow> bool"
    and room :: "nat \<Rightarrow> 'b \<Rightarrow> bool"
  assumes handlers_sub: "handlers (fst (sub t h b)) u =
      handlers b u @ (if u = t then [(snd (sub t h b), h)] else [])"
    and handlers_unsub: "ok b \<Longrightarrow> handlers (unsub i b) u = filter (\<lambda>p. fst p \<noteq> i) (handlers b u)"
    and fresh: "ok b \<Longrightarrow> room (Suc n) b \<Longrightarrow> snd (sub t h b) \<notin> fst ` set (handlers b u)"
    and ok_sub: "ok b \<Longrightarrow> room (Suc n) b \<Longrightarrow> ok (fst (sub t h b))"
    and room_sub: "room (Suc n) b \<Longrightarrow> room n (fst (sub t h b))"
    and ok_unsub: "ok b \<Longrightarrow> ok (unsub i b)"

text \<open>
  The loops every client of the bus has: subscribe one handler to each type of a list,
  collecting the ids, and unsubscribe the collected ids again.
\<close>

fun subscribe_all ::
    "(event_type \<Rightarrow> 'h \<Rightarrow> 'b \<Rightarrow> 'b \<times> 'i) \<Rightarrow> event_type list \<Rightarrow> 'h \<Rightarrow> 'b \<Rightarrow> 'b \<times> 'i list" where
  "subscribe_all sub [] h b = (b, [])"
| "subscribe_all sub (t # ts) h b =
     (let (b1, i) = sub t h b; (b2, is) = subscribe_all sub ts h b1 in (b2, i # is))"

fun unsubscribe_all :: "('i \<Rightarrow> 'b \<Rightarrow> 'b) \<Rightarrow> 'i list \<Rightarrow> 'b \<Rightarrow> 'b" where
  "unsubscribe_all unsub [] b = b"
| "unsubscribe_all unsub (i # is) b = unsubscribe_all unsub is (unsub i b)"

context pubsub begin

lemma subscribe_all_handlers:
  "ok b \<Longrightarrow> room (length ts) b \<Longrightarrow> subscribe_all sub ts h b = (b', is) \<Longrightarrow>
   ok b' \<and> set is \<inter> fst ` set (handlers b u) = {} \<and>
   (\<exists>new. handlers b' u = handlers b u @ new \<and> fst ` set new \<subseteq> set is \<and>
      length new = count_list ts u \<and> snd ` set new \<subseteq> {h})"
proof (induction ts arbitrary: b b' "is")
  case (Cons t ts)
  obtain b1 i is' where s: "sub t h b = (b1, i)" "subscribe_all sub ts h b1 = (b', is')" "is = i # is'"
    using Cons.prems(3) by (auto split: prod.splits)
  have b1: "b1 = fst (sub t h b)" and i: "i = snd (sub t h b)" using s(1) by simp_all
  have r: "room (Suc (length ts)) b" using Cons.prems(2) by simp
  have "ok b1" "room (length ts) b1" using Cons.prems(1) r b1 ok_sub room_sub by blast+
  then have IH: "ok b' \<and> set is' \<inter> fst ` set (handlers b1 u) = {} \<and>
     (\<exists>new. handlers b' u = handlers b1 u @ new \<and> fst ` set new \<subseteq> set is' \<and>
        length new = count_list ts u \<and> snd ` set new \<subseteq> {h})"
    using Cons.IH s(2) by blast
  then obtain new where n: "handlers b' u = handlers b1 u @ new" "fst ` set new \<subseteq> set is'"
      "length new = count_list ts u" "snd ` set new \<subseteq> {h}" by blast
  have h1: "handlers b1 u = handlers b u @ (if u = t then [(i, h)] else [])"
    using handlers_sub [of t h b u] b1 i by simp
  have "i \<notin> fst ` set (handlers b u)" using fresh [OF Cons.prems(1) r] i by simp
  moreover have "\<exists>new. handlers b' u = handlers b u @ new \<and> fst ` set new \<subseteq> set is \<and>
      length new = count_list (t # ts) u \<and> snd ` set new \<subseteq> {h}"
    using n h1 s(3) by (intro exI [of _ "(if u = t then [(i, h)] else []) @ new"]) auto
  ultimately show ?case using IH h1 s(3) by auto
qed simp

lemma unsubscribe_all_handlers:
  "ok b \<Longrightarrow> handlers (unsubscribe_all unsub is b) u = filter (\<lambda>p. fst p \<notin> set is) (handlers b u)"
proof (induction "is" arbitrary: b)
  case (Cons i "is")
  then show ?case
    by (simp add: ok_unsub handlers_unsub conj_commute)
qed simp

text \<open>Tearing down a client's subscriptions restores the handlers of every type.\<close>

lemma teardown:
  assumes "ok b" and "room (length ts) b" and "subscribe_all sub ts h b = (b', is)"
  shows "handlers (unsubscribe_all unsub is b') u = handlers b u"
proof -
  obtain new where n: "ok b'" "set is \<inter> fst ` set (handlers b u) = {}"
      "handlers b' u = handlers b u @ new" "fst ` set new \<subseteq> set is"
    using subscribe_all_handlers [OF assms, of u] by blast
  have "filter (\<lambda>p. fst p \<notin> set is) (handlers b u) = handlers b u"
    using n(2) by (auto simp: filter_id_conv)
  moreover have "filter (\<lambda>p. fst p \<notin> set is) new = []"
    using n(4) by (auto simp: filter_empty_conv)
  ultimately show ?thesis using unsubscribe_all_handlers [OF n(1)] n(3) by simp
qed

end

definition bus_handlers :: "'h Bus \<Rightarrow> event_type \<Rightarrow> (64 word \<times> 'h) list" where
  "bus_handlers b t = map (\<lambda>s. (sub_id s, sub_handler s)) (subs_of b t)"

definition bus_room :: "nat \<Rightarrow> 'h Bus \<Rightarrow> bool" where
  "bus_room n b \<longleftrightarrow> unat (bus_nextID b) + n < 2 ^ 64"

lemma bus_room_inc:
  assumes "bus_room (Suc n) b"
  shows "bus_nextID b \<noteq> -1" and "unat (bus_nextID b + 1) = Suc (unat (bus_nextID b))"
proof -
  have "unat (bus_nextID b) + 1 < 2 ^ 64" using assms by (simp add: bus_room_def)
  then show u: "unat (bus_nextID b + 1) = Suc (unat (bus_nextID b))"
    by (simp add: unat_word_ariths)
  show "bus_nextID b \<noteq> -1" using u by auto
qed

lemma bus_handlers_filter: "map (\<lambda>s. (sub_id s, sub_handler s)) (filter (\<lambda>s. sub_id s \<noteq> i) ss) =
    filter (\<lambda>p. fst p \<noteq> i) (map (\<lambda>s. (sub_id s, sub_handler s)) ss)"
  by (induction ss) auto

interpretation ev: pubsub Subscribe Unsubscribe bus_handlers bus_wf bus_room
proof (unfold_locales, goal_cases)
  case (1 t h b u)
  show ?case by (simp add: bus_handlers_def subs_of_Subscribe) (simp add: Subscribe_def Let_def)
next
  case (2 b i u)
  then show ?case by (simp add: bus_handlers_def subs_of_Unsubscribe bus_handlers_filter)
next
  case (3 b n t h u)
  have "bus_nextID b < bus_nextID b + 1" by (rule word_less_inc) (rule bus_room_inc [OF 3(2)])
  moreover have "\<forall>s \<in> set (subs_of b u). sub_id s \<le> bus_nextID b"
    using 3(1) subs_of_in_all [of _ b u] by (simp add: bus_wf_def)
  ultimately show ?case by (auto simp: bus_handlers_def Subscribe_def Let_def)
next
  case (4 b n t h)
  then show ?case by (intro bus_wf_Subscribe bus_room_inc)
next
  case (5 n b t h)
  then show ?case using bus_room_inc [OF 5] by (simp add: bus_room_def Subscribe_def Let_def)
next
  case (6 b i)
  then show ?case by (rule bus_wf_Unsubscribe)
qed

section \<open>Properties of the bus\<close>

lemma fold_safeCall:
  "fst (fold (\<lambda>s. safeCall run (sub_handler s) e) ss wl) =
     fold (\<lambda>h w. fst (run h e w)) (map sub_handler ss) (fst wl)"
  by (induction ss arbitrary: wl) (auto simp: safeCall_def split: prod.splits)

text \<open>
  \<open>Publish\<close> runs every handler subscribed to the event's type, each once
  and in registration order, on the event with its timestamp filled in; a panicking handler
  does not keep the later ones from running.
\<close>

theorem publish_runs_all_handlers:
  "fst (Publish run now e b (w, lg)) =
     fold (\<lambda>h w. fst (run h (if ev_time e = 0 then e\<lparr>ev_time := now\<rparr> else e) w))
       (map snd (bus_handlers b (ev_type e))) w"
proof -
  have "ev_type (if ev_time e = 0 then e\<lparr>ev_time := now\<rparr> else e) = ev_type e" by simp
  then show ?thesis
    by (auto simp: Publish_def Let_def fold_safeCall bus_handlers_def comp_def)
qed

text \<open>
  The bus stays well formed under any sequence of subscriptions and
  removals that does not exhaust the 64-bit ids: one entry per type, no empty entry, all
  ids distinct and at most the counter; and a client that unsubscribes the ids it got leaves
  every type with exactly the handlers it had before.
\<close>

theorem subscriptions_torn_down:
  assumes "bus_wf b" and "bus_room (length ts) b" and "subscribe_all Subscribe ts h b = (b', is)"
  shows "bus_wf b' \<and> bus_handlers (unsubscribe_all Unsubscribe is b') u = bus_handlers b u"
  using ev.teardown [OF assms] ev.subscribe_all_handlers [OF assms] by blast

theorem subscriptions_torn_down_witness:
  "bus_handlers (unsubscribe_all Unsubscribe [1, 2]
      (fst (subscribe_all Subscribe [Tick5, Tick60] (7::nat) NewBus))) Tick5 =
   bus_handlers (NewBus :: nat Bus) Tick5"
proof -
  have "bus_room (length [Tick5, Tick60]) (NewBus :: nat Bus)"
    by (simp add: bus_room_def NewBus_def)
  moreover have "subscribe_all Subscribe [Tick5, Tick60] (7::nat) NewBus =
      (fst (subscribe_all Subscribe [Tick5, Tick60] 7 NewBus), [1, 2])"
    by (simp add: Subscribe_def NewBus_def Let_def)
  ultimately show ?thesis
    using subscriptions_torn_down [OF bus_wf_New, of "[Tick5, Tick60]" 7 _ "[1, 2]" Tick5] by auto
qed

end
