(* ===== verification/Ring_Buffer.thy ===== *)
theory Ring_Buffer
  imports Kahi_Prelude
begin

text \<open>
  \<open>internal/logging/ringbuf.go\<close>: the circular buffer that keeps the tail of a process's
  output.  The abstraction is the list of the bytes held, oldest first; the interface its
  client (the capture writer) relies on is the locale \<open>tail_store\<close>.
\<close>

definition take_last :: "nat \<Rightarrow> 'a list \<Rightarrow> 'a list" where
  "take_last n xs = drop (length xs - n) xs"

lemma take_last_all [simp]: "length xs \<le> n \<Longrightarrow> take_last n xs = xs"
  by (simp add: take_last_def)

lemma length_take_last [simp]: "length (take_last n xs) = min n (length xs)"
  by (simp add: take_last_def min_def)

lemma take_last_append:
  "take_last n (take_last n xs @ ys) = take_last n (xs @ ys)"
  by (cases "length xs \<le> n") (auto simp: take_last_def add.commute)

lemma take_last_take_last: "take_last m (take_last n xs) = take_last (min m n) xs"
proof (cases "m \<le> n")
  case True
  have "length xs - (length xs - n) - m + (length xs - n) = length xs - m" using True by auto
  with True show ?thesis by (simp add: take_last_def min_def)
qed (simp add: min_def)

section \<open>The interface of a tail store\<close>

locale tail_store =
  fixes put :: "'a list \<Rightarrow> 'b \<Rightarrow> 'b"
    and read_tail :: "int \<Rightarrow> 'b \<Rightarrow> 'a list"
    and held :: "'b \<Rightarrow> 'a list"
    and cap :: "'b \<Rightarrow> nat"
    and readmax :: int
    and invar :: "'b \<Rightarrow> bool"
  assumes held_write: "invar b \<Longrightarrow> held (put p b) = take_last (cap b) (held b @ p)"
    and cap_write: "invar b \<Longrightarrow> cap (put p b) = cap b"
    and invar_write: "invar b \<Longrightarrow> invar (put p b)"
    and read_held: "invar b \<Longrightarrow> 0 < n \<Longrightarrow> n \<le> readmax \<Longrightarrow> read_tail n b = take_last (nat n) (held b)"
begin

lemma held_writes:
  "invar b \<Longrightarrow> held b = take_last (cap b) hs \<Longrightarrow>
   invar (fold put ps b) \<and> cap (fold put ps b) = cap b \<and>
   held (fold put ps b) = take_last (cap b) (hs @ concat ps)"
proof (induction ps arbitrary: b hs)
  case (Cons p ps)
  have "invar (put p b)" "cap (put p b) = cap b" "held (put p b) = take_last (cap b) (hs @ p)"
    using Cons.prems held_write cap_write invar_write by (simp_all add: take_last_append)
  then show ?case using Cons.IH [of "put p b" "hs @ p"] by simp
qed simp

text \<open>What a client reads back is the end of everything it has written.\<close>

lemma read_writes:
  assumes "invar b" and "held b = []" and "0 < n" and "n \<le> readmax"
  shows "read_tail n (fold put ps b) = take_last (min (nat n) (cap b)) (concat ps)"
proof -
  have "invar (fold put ps b)" "held (fold put ps b) = take_last (cap b) (concat ps)"
    using held_writes [OF assms(1), of "[]" ps] assms(2) by simp_all
  then show ?thesis using read_held assms(3,4) by (simp add: take_last_take_last)
qed

end

section \<open>The ring buffer\<close>

record RingBuffer =
  rb_buf :: string
  rb_size :: nat
  rb_pos :: nat
  rb_full :: bool

definition maxRingBufSize :: int where "maxRingBufSize = 2 ^ 20"
definition maxReadAlloc :: int where "maxReadAlloc = 2 ^ 16"

definition NewRingBuffer :: "int \<Rightarrow> RingBuffer" where
  "NewRingBuffer size0 =
     (let size1 = (if size0 \<le> 0 then 1 else size0);
          size2 = (if size1 > maxRingBufSize then maxRingBufSize else size1)
      in \<lparr>rb_buf = replicate (nat size2) (CHR 0x00), rb_size = nat size2, rb_pos = 0, rb_full = False\<rparr>)"

definition rb_write1 :: "char \<Rightarrow> RingBuffer \<Rightarrow> RingBuffer" where
  "rb_write1 b rb =
     (let pos' = (rb_pos rb + 1) mod rb_size rb in
      rb\<lparr>rb_buf := (rb_buf rb)[rb_pos rb := b], rb_pos := pos',
         rb_full := (if pos' = 0 then True else rb_full rb)\<rparr>)"

definition rb_Write :: "string \<Rightarrow> RingBuffer \<Rightarrow> RingBuffer" where
  "rb_Write p rb = fold rb_write1 p rb"

text \<open>Go's nil slice is the empty list.\<close>

definition rb_Read :: "int \<Rightarrow> RingBuffer \<Rightarrow> string" where
  "rb_Read n0 rb =
     (if n0 \<le> 0 \<or> n0 > maxReadAlloc then []
      else
        let n1 = (if nat n0 > rb_size rb then rb_size rb else nat n0);
            available = (if rb_full rb then rb_size rb else rb_pos rb);
            n = (if n1 > available then available else n1)
        in if n = 0 then []
           else
             let start0 = int (rb_pos rb) - int n;
                 start = nat (if start0 < 0 then start0 + int (rb_size rb) else start0)
             in map (\<lambda>i. rb_buf rb ! ((start + i) mod rb_size rb)) [0..<n])"

definition rb_Len :: "RingBuffer \<Rightarrow> nat" where
  "rb_Len rb = (if rb_full rb then rb_size rb else rb_pos rb)"

definition rb_Reset :: "RingBuffer \<Rightarrow> RingBuffer" where
  "rb_Reset rb = rb\<lparr>rb_pos := 0, rb_full := False\<rparr>"

section \<open>Correctness\<close>

definition rb_inv :: "RingBuffer \<Rightarrow> bool" where
  "rb_inv rb \<longleftrightarrow> length (rb_buf rb) = rb_size rb \<and> rb_pos rb < rb_size rb"

definition rb_held :: "RingBuffer \<Rightarrow> string" where
  "rb_held rb =
     (if rb_full rb then drop (rb_pos rb) (rb_buf rb) @ take (rb_pos rb) (rb_buf rb)
      else take (rb_pos rb) (rb_buf rb))"

lemma rb_inv_New: "rb_inv (NewRingBuffer n)"
  by (simp add: rb_inv_def NewRingBuffer_def Let_def maxRingBufSize_def)

lemma rb_held_New: "rb_held (NewRingBuffer n) = []"
  by (simp add: rb_held_def NewRingBuffer_def Let_def)

lemma rb_size_New: "0 < n \<Longrightarrow> n \<le> maxRingBufSize \<Longrightarrow> rb_size (NewRingBuffer n) = nat n"
  by (simp add: NewRingBuffer_def Let_def)

lemma rb_inv_write1: "rb_inv rb \<Longrightarrow> rb_inv (rb_write1 b rb) \<and> rb_size (rb_write1 b rb) = rb_size rb"
  by (auto simp: rb_inv_def rb_write1_def Let_def)

lemma rb_held_length: "rb_inv rb \<Longrightarrow> length (rb_held rb) = rb_Len rb"
  by (auto simp: rb_inv_def rb_held_def rb_Len_def)

lemma rb_held_write1:
  assumes "rb_inv rb"
  shows "rb_held (rb_write1 b rb) = take_last (rb_size rb) (rb_held rb @ [b])"
proof -
  let ?p = "rb_pos rb" and ?s = "rb_size rb" and ?buf = "rb_buf rb"
  have l: "length ?buf = ?s" and p: "?p < ?s" using assms by (auto simp: rb_inv_def)
  have d: "drop ?p ?buf = ?buf ! ?p # drop (Suc ?p) ?buf" using l p by (simp add: Cons_nth_drop_Suc)
  have t: "take (Suc ?p) (?buf[?p := b]) = take ?p ?buf @ [b]"
    using l p by (simp add: take_Suc_conv_app_nth)
  show ?thesis
  proof (cases "Suc ?p = ?s")
    case True
    then have "?buf[?p := b] = take ?p ?buf @ [b]" using t l by simp
    moreover have "drop (Suc ?p) ?buf = []" using True l by simp
    ultimately show ?thesis using True l p d
      by (auto simp: rb_held_def rb_write1_def Let_def take_last_def)
  next
    case False
    then have "(?p + 1) mod ?s = Suc ?p" using p by simp
    then show ?thesis using l p d t False
      by (auto simp: rb_held_def rb_write1_def Let_def take_last_def)
  qed
qed

lemma rb_Write_held:
  "rb_inv rb \<Longrightarrow> rb_inv (rb_Write p rb) \<and> rb_size (rb_Write p rb) = rb_size rb \<and>
   rb_held (rb_Write p rb) = take_last (rb_size rb) (rb_held rb @ p)"
proof (induction p arbitrary: rb)
  case Nil
  have "length (rb_held rb) \<le> rb_size rb"
    using rb_held_length [OF Nil] Nil by (auto simp: rb_Len_def rb_inv_def)
  with Nil show ?case by (simp add: rb_Write_def)
next
  case (Cons b p)
  have "rb_inv (rb_write1 b rb)" "rb_size (rb_write1 b rb) = rb_size rb"
    using rb_inv_write1 [OF Cons.prems] by simp_all
  moreover have "rb_Write (b # p) rb = rb_Write p (rb_write1 b rb)" by (simp add: rb_Write_def)
  ultimately show ?case
    using Cons.IH [of "rb_write1 b rb"] rb_held_write1 [OF Cons.prems, of b]
      take_last_append [of "rb_size rb" "rb_held rb @ [b]" p] by simp
qed

lemma rb_Read_held:
  assumes inv: "rb_inv rb" and n: "0 < n0" "n0 \<le> maxReadAlloc"
  shows "rb_Read n0 rb = take_last (nat n0) (rb_held rb)"
proof -
  let ?p = "rb_pos rb" and ?s = "rb_size rb" and ?buf = "rb_buf rb"
  have l: "length ?buf = ?s" and p: "?p < ?s" using inv by (auto simp: rb_inv_def)
  define av where "av = rb_Len rb"
  define m where "m = min (nat n0) av"
  have av: "av \<le> ?s" "length (rb_held rb) = av" "rb_full rb \<or> av = ?p"
    using rb_held_length [OF inv] p by (auto simp: av_def rb_Len_def)
  have m: "m \<le> av" "m \<le> ?s" using av by (auto simp: m_def)
  have read: "rb_Read n0 rb =
      map (\<lambda>i. ?buf ! ((nat (if int ?p - int m < 0 then int ?p - int m + int ?s else int ?p - int m) + i) mod ?s)) [0..<m]"
  proof -
    define n1 where "n1 = (if nat n0 > ?s then ?s else nat n0)"
    have e: "(if n1 > av then av else n1) = m" using av by (auto simp: m_def n1_def)
    have "rb_Read n0 rb = (let n = (if n1 > av then av else n1) in if n = 0 then []
        else map (\<lambda>i. ?buf ! ((nat (if int ?p - int n < 0 then int ?p - int n + int ?s
               else int ?p - int n) + i) mod ?s)) [0..<n])"
      using n unfolding rb_Read_def n1_def av_def rb_Len_def Let_def by auto
    then show ?thesis unfolding e by (simp add: Let_def)
  qed
  have "take_last (nat n0) (rb_held rb) = drop (av - m) (rb_held rb)"
    using av(2) by (cases "nat n0 \<le> av") (simp_all add: take_last_def m_def)
  also have "\<dots> = map (\<lambda>i. rb_held rb ! (av - m + i)) [0..<m]"
    using av m by (intro nth_equalityI) (auto simp: nth_drop)
  also have "\<dots> = rb_Read n0 rb"
    unfolding read
  proof (rule map_cong [OF refl])
    fix i assume "i \<in> set [0..<m]"
    then have i: "i < m" by simp
    show "rb_held rb ! (av - m + i) =
        ?buf ! ((nat (if int ?p - int m < 0 then int ?p - int m + int ?s else int ?p - int m) + i) mod ?s)"
    proof (cases "rb_full rb")
      case False
      then have "av = ?p" using av by simp
      moreover from this have "int ?p - int m \<ge> 0" using m by simp
      ultimately show ?thesis using False i m p l
        by (auto simp: rb_held_def nat_diff_distrib)
    next
      case True
      then have a: "av = ?s" by (simp add: av_def rb_Len_def)
      show ?thesis
      proof (cases "m \<le> ?p")
        case True
        then have "\<not> int ?p - int m < 0" "nat (int ?p - int m) = ?p - m" by (auto simp: nat_diff_distrib)
        moreover have "?s - m + i \<ge> ?s - ?p" "?s - m + i - (?s - ?p) = ?p - m + i" using True p m by auto
        ultimately show ?thesis using \<open>rb_full rb\<close> a i p l True
          by (simp add: rb_held_def nth_append)
      next
        case False
        then have st: "int ?p - int m < 0" "nat (int ?p - int m + int ?s) = ?p + ?s - m" using m by auto
        show ?thesis
        proof (cases "?s - m + i < ?s - ?p")
          case True
          then have "(?p + ?s - m + i) mod ?s = ?p + (?s - m + i)" using False m by simp
          then show ?thesis using \<open>rb_full rb\<close> a st True l p
            by (simp add: rb_held_def nth_append add.assoc)
        next
          case f: False
          have "?p + ?s - m + i = ?s + (?p + i - m)" using f False m by auto
          moreover have "?p + i - m < ?s" using i p by auto
          ultimately have "(?p + ?s - m + i) mod ?s = ?p + i - m" by simp
          moreover have "?s - m + i - (?s - ?p) = ?p + i - m" using f False m p by auto
          moreover have "?p + i - m < ?p" using i f p m by auto
          ultimately show ?thesis using \<open>rb_full rb\<close> a st f l p by (simp add: rb_held_def nth_append)
        qed
      qed
    qed
  qed
  finally show ?thesis ..
qed

interpretation rb: tail_store rb_Write rb_Read rb_held rb_size maxReadAlloc rb_inv
  by unfold_locales (auto simp: rb_Write_held rb_Read_held)

text \<open>
  The ring buffer is the tail of the output stream: after any sequence of
  writes to a fresh buffer of capacity \<open>c\<close>, reading \<open>n\<close> bytes (at most 64 KB) gives the last
  \<open>min n c\<close> bytes written, in order, however the output was split into writes.
\<close>

theorem ring_buffer_reads_tail:
  assumes "0 < c" and "c \<le> maxRingBufSize" and "0 < n" and "n \<le> maxReadAlloc"
  shows "rb_Read n (fold rb_Write ps (NewRingBuffer c)) = take_last (min (nat n) (nat c)) (concat ps)"
  using rb.read_writes [OF rb_inv_New rb_held_New assms(3,4), of ps c] rb_size_New [OF assms(1,2)]
  by simp

theorem ring_buffer_reads_tail_witness:
  "rb_Read 3 (fold rb_Write [''ab'', ''cde'', ''fg''] (NewRingBuffer 4)) = ''efg''"
  using ring_buffer_reads_tail [of 4 3 "[''ab'', ''cde'', ''fg'']"]
  by (simp add: maxRingBufSize_def maxReadAlloc_def take_last_def)

end
