(* ===== verification/Ansi_Strip.thy ===== *)
theory Ansi_Strip
  imports Kahi_Prelude
begin

text \<open>
  \<open>internal/logging/strip.go\<close>: removal of ANSI escape sequences, of a whole text
  (\<open>StripANSI\<close>) and of a stream that arrives in chunks (\<open>ANSIStripper\<close>).  The reference is
  a small automaton: \<open>esc_run\<close> gives how many bytes of an unfinished sequence end the text.
\<close>

definition ESC :: char where "ESC = CHR 0x1B"

definition is_final :: "char \<Rightarrow> bool" where
  "is_final c \<longleftrightarrow> 0x40 \<le> (of_char c :: nat) \<and> (of_char c :: nat) \<le> 0x7E"

definition is_param :: "char \<Rightarrow> bool" where
  "is_param c \<longleftrightarrow> 0x20 \<le> (of_char c :: nat) \<and> (of_char c :: nat) \<le> 0x3F"

section \<open>The code\<close>

fun skip_csi :: "string \<Rightarrow> string" where
  "skip_csi [] = []"
| "skip_csi (c # cs) = (if is_final c then cs else skip_csi cs)"

lemma skip_csi_length: "length (skip_csi s) \<le> length s"
  by (induction s) auto

function StripANSI :: "string \<Rightarrow> string" where
  "StripANSI [] = []"
| "StripANSI (c # cs) =
     (if c = ESC \<and> cs \<noteq> [] \<and> hd cs = CHR ''['' then StripANSI (skip_csi (tl cs))
      else c # StripANSI cs)"
  by pat_completeness auto
termination
proof (relation "measure length", goal_cases)
  case (2 c cs)
  then show ?case using skip_csi_length [of "tl cs"] by (cases cs) auto
qed simp_all

definition maxPendingEscape :: nat where "maxPendingEscape = 64"

text \<open>The loop of \<open>unfinishedEscape\<close>; the argument is the loop's \<open>i + 1\<close>.\<close>

fun unfinished_loop :: "string \<Rightarrow> nat \<Rightarrow> nat" where
  "unfinished_loop s 0 = length s"
| "unfinished_loop s (Suc i) =
     (if length s - i > maxPendingEscape + 1 then length s
      else
        let b = s ! i in
        if b = ESC then
          (if i = length s - 1 \<or> s ! (i + 1) = CHR ''['' then i else length s)
        else if b = CHR ''['' \<and> i > 0 \<and> s ! (i - 1) = ESC then unfinished_loop s i
        else if \<not> is_param b then length s
        else unfinished_loop s i)"

definition unfinishedEscape :: "string \<Rightarrow> nat" where
  "unfinishedEscape s = unfinished_loop s (length s)"

text \<open>\<open>Strip\<close>: the stripper's state is its pending bytes; the result is the new state and the output.\<close>

definition Strip :: "string \<Rightarrow> string \<Rightarrow> string \<times> string" where
  "Strip pending chunk =
     (let buf = (if pending \<noteq> [] then pending @ chunk else chunk);
          cut = unfinishedEscape buf
      in if cut < length buf
         then (if length buf - cut \<le> maxPendingEscape then drop cut buf else [],
               StripANSI (take cut buf))
         else ([], StripANSI buf))"

fun strip_chunks :: "string \<Rightarrow> string list \<Rightarrow> string \<times> string" where
  "strip_chunks pending [] = (pending, [])"
| "strip_chunks pending (c # cs) =
     (let (p1, out) = Strip pending c; (p2, outs) = strip_chunks p1 cs in (p2, out @ outs))"

section \<open>The reference automaton\<close>

text \<open>
  State 0 is plain text, 1 follows an ESC, and \<open>n \<ge> 2\<close> is inside a sequence of which \<open>n\<close>
  bytes have been read.  \<open>esc_ok\<close> says that the sequences of a text are well formed: only
  parameter and intermediate bytes before the final byte, at most 64 bytes before it.
\<close>

fun esc_run :: "nat \<Rightarrow> string \<Rightarrow> nat" where
  "esc_run n [] = n"
| "esc_run n (c # cs) =
     (if n \<ge> 2 then (if is_final c then esc_run 0 cs else esc_run (Suc n) cs)
      else if n = 1 \<and> c = CHR ''['' then esc_run 2 cs
      else esc_run (if c = ESC then 1 else 0) cs)"

fun esc_ok :: "nat \<Rightarrow> string \<Rightarrow> bool" where
  "esc_ok n [] = True"
| "esc_ok n (c # cs) =
     (if n \<ge> 2 then (if is_final c then esc_ok 0 cs
                     else is_param c \<and> n < maxPendingEscape \<and> esc_ok (Suc n) cs)
      else if n = 1 \<and> c = CHR ''['' then esc_ok 2 cs
      else esc_ok (if c = ESC then 1 else 0) cs)"

lemma esc_char_facts [simp]:
  "\<not> is_final ESC" "\<not> is_param ESC" "is_final (CHR ''['')" "\<not> is_param (CHR ''['')"
  "ESC \<noteq> CHR ''[''" "CHR ''['' \<noteq> ESC"
  by (simp_all add: is_final_def is_param_def ESC_def)

lemma is_param_not_final: "is_param c \<Longrightarrow> \<not> is_final c"
  by (auto simp: is_param_def is_final_def)

lemma is_param_neq: "is_param c \<Longrightarrow> c \<noteq> ESC \<and> c \<noteq> CHR ''[''"
  by auto

lemma esc_run_append: "esc_run n (u @ v) = esc_run (esc_run n u) v"
  by (induction n u rule: esc_run.induct) auto

lemma esc_ok_append: "esc_ok n (u @ v) \<longleftrightarrow> esc_ok n u \<and> esc_ok (esc_run n u) v"
  by (induction n u rule: esc_ok.induct) auto

lemma esc_run_params: "list_all is_param ps \<Longrightarrow> 2 \<le> n \<Longrightarrow> esc_run n ps = n + length ps"
  by (induction ps arbitrary: n) (auto simp: is_param_not_final)

lemma esc_run_start:
  assumes "esc_ok 0 (u @ ESC # v)" shows "esc_run 0 u < 2"
proof (rule ccontr)
  assume "\<not> esc_run 0 u < 2"
  then show False using assms by (auto simp: esc_ok_append)
qed

lemma esc_run_one: "esc_ok 0 (u @ [ESC]) \<Longrightarrow> esc_run 0 (u @ [ESC]) = 1"
  using esc_run_start [of u "[]"] by (auto simp: esc_run_append)

lemma esc_run_csi:
  assumes "esc_ok 0 (u @ ESC # CHR ''['' # ps)" and "list_all is_param ps"
  shows "esc_run 0 (u @ ESC # CHR ''['' # ps) = 2 + length ps"
  using esc_run_start [OF assms(1)] assms(2) by (simp add: esc_run_append esc_run_params)

text \<open>What ends a text by the state it leaves.\<close>

lemma esc_run_shape:
  assumes "esc_ok 0 d" and "esc_run 0 d = r"
  shows "(r = 1 \<longrightarrow> (\<exists>u. d = u @ [ESC] \<and> esc_run 0 u < 2)) \<and>
    (r \<ge> 2 \<longrightarrow> (\<exists>u ps. d = u @ ESC # CHR ''['' # ps \<and> list_all is_param ps \<and> r = 2 + length ps \<and>
        esc_run 0 u < 2 \<and> r \<le> maxPendingEscape))"
  using assms
proof (induction d arbitrary: r rule: rev_induct)
  case (snoc c d)
  let ?n = "esc_run 0 d"
  have ok: "esc_ok 0 d" "esc_ok ?n [c]" using snoc.prems by (auto simp: esc_ok_append)
  have r: "r = esc_run ?n [c]" using snoc.prems by (simp add: esc_run_append)
  show ?case
  proof (cases "?n \<ge> 2")
    case True
    then obtain u ps where d: "d = u @ ESC # CHR ''['' # ps" "list_all is_param ps"
        "?n = 2 + length ps" "esc_run 0 u < 2" using snoc.IH [OF ok(1) refl] by blast
    show ?thesis
    proof (cases "is_final c")
      case True
      then show ?thesis using r \<open>?n \<ge> 2\<close> by simp
    next
      case False
      then have c: "is_param c" "?n < maxPendingEscape" "r = Suc ?n" using ok r \<open>?n \<ge> 2\<close> by auto
      have "d @ [c] = u @ ESC # CHR ''['' # (ps @ [c])" "list_all is_param (ps @ [c])"
        "r = 2 + length (ps @ [c])" using d c by simp_all
      moreover have "r \<ge> 2" "r \<le> maxPendingEscape" using c True by linarith+
      ultimately show ?thesis using d(4) by (metis (no_types, lifting) Suc_1 not_less_eq_eq order_refl)
    qed
  next
    case low: False
    show ?thesis
    proof (cases "?n = 1 \<and> c = CHR ''[''")
      case True
      then obtain u where d: "d = u @ [ESC]" "esc_run 0 u < 2" using snoc.IH [OF ok(1) refl] by blast
      have "r = 2" using r True by simp
      moreover have "d @ [c] = u @ ESC # CHR ''['' # []" using d True by simp
      ultimately show ?thesis using d(2) by (auto simp: maxPendingEscape_def)
    next
      case False
      then have "r = (if c = ESC then 1 else 0)" using r low by auto
      then show ?thesis using low by auto
    qed
  qed
qed simp

section \<open>Where the code cuts\<close>

lemma unfinished_loop_params:
  "i \<le> k \<Longrightarrow> k \<le> length s \<Longrightarrow> (\<And>j. i \<le> j \<Longrightarrow> j < k \<Longrightarrow> is_param (s ! j)) \<Longrightarrow>
   unfinished_loop s k = unfinished_loop s i \<or>
     (unfinished_loop s k = length s \<and> length s - i > maxPendingEscape + 1)"
proof (induction k)
  case (Suc k)
  show ?case
  proof (cases "i = Suc k")
    case False
    then have i: "i \<le> k" using Suc.prems by simp
    have p: "is_param (s ! k)" using Suc.prems i by simp
    show ?thesis
    proof (cases "length s - k > maxPendingEscape + 1")
      case True
      then show ?thesis using i by auto
    next
      case False
      then have "unfinished_loop s (Suc k) = unfinished_loop s k"
        using p is_param_neq [OF p] by (auto simp: Let_def)
      then show ?thesis using Suc.IH i Suc.prems by auto
    qed
  qed simp
qed auto

lemma unfinished_csi:
  assumes "d = u @ ESC # CHR ''['' # ps" and "list_all is_param ps"
    and "2 + length ps \<le> maxPendingEscape"
  shows "unfinishedEscape d = length u"
proof -
  let ?i = "length u"
  have n: "d ! ?i = ESC" "d ! Suc ?i = CHR ''[''" "length d = ?i + 2 + length ps"
    using assms(1) by (simp_all add: nth_append)
  have "is_param (d ! j)" if "?i + 2 \<le> j" "j < length d" for j
  proof -
    have "d = (u @ [ESC, CHR ''['']) @ ps" using assms(1) by simp
    then have "d ! j = ps ! (j - (?i + 2))" using that by (simp only: nth_append) simp
    then show ?thesis using assms(2) that n by (simp add: list_all_length)
  qed
  then have "unfinished_loop d (length d) = unfinished_loop d (?i + 2)"
    using unfinished_loop_params [of "?i + 2" "length d" d] n assms(3) by auto
  also have "\<dots> = unfinished_loop d (Suc ?i)"
    using n assms(3) by (auto simp: Let_def numeral_2_eq_2)
  also have "\<dots> = ?i" using n assms(3) by (auto simp: Let_def)
  finally show ?thesis by (simp add: unfinishedEscape_def)
qed

lemma unfinished_esc: "unfinishedEscape (u @ [ESC]) = length u"
  by (simp add: unfinishedEscape_def Let_def maxPendingEscape_def nth_append)

lemma unfinished_none:
  assumes ok: "esc_ok 0 d" and z: "esc_run 0 d = 0"
  shows "unfinishedEscape d = length d"
proof -
  define ps where "ps = rev (takeWhile is_param (rev d))"
  define v where "v = rev (dropWhile is_param (rev d))"
  have d: "d = v @ ps" unfolding v_def ps_def by (metis rev_append rev_rev_ident takeWhile_dropWhile_id)
  have ps: "list_all is_param ps" by (auto simp: ps_def list_all_iff dest: set_takeWhileD)
  have par: "is_param (d ! j)" if "length v \<le> j" "j < length d" for j
    using that ps d by (auto simp: nth_append list_all_length)
  have step: "unfinished_loop d (length d) = unfinished_loop d (length v) \<or> unfinished_loop d (length d) = length d"
    using unfinished_loop_params [of "length v" "length d" d] par d by auto
  show ?thesis
  proof (cases v rule: rev_cases)
    case Nil
    then show ?thesis using step by (simp add: unfinishedEscape_def)
  next
    case (snoc w b)
    have b: "\<not> is_param b"
    proof -
      have "dropWhile is_param (rev d) = b # rev w"
        using snoc by (metis v_def rev_rev_ident rev_eq_Cons_iff)
      then show ?thesis by (simp add: dropWhile_eq_Cons_conv)
    qed
    have nb: "d ! length w = b" using d snoc by (simp add: nth_append)
    have "unfinished_loop d (Suc (length w)) = length d"
    proof (cases "b = ESC")
      case True
      have "ps \<noteq> []"
      proof
        assume "ps = []"
        then have "d = w @ [ESC]" using d snoc True by simp
        then show False using esc_run_one [of w] ok z by simp
      qed
      then have l: "length w \<noteq> length d - 1" "length w + 1 < length d" using d snoc by (auto simp: neq_Nil_conv)
      then have "is_param (d ! (length w + 1))" using par snoc by simp
      then have "d ! (length w + 1) \<noteq> CHR ''[''" using is_param_neq by blast
      then show ?thesis using nb True l by (auto simp: Let_def)
    next
      case False
      have "\<not> (b = CHR ''['' \<and> length w > 0 \<and> d ! (length w - 1) = ESC)"
      proof
        assume a: "b = CHR ''['' \<and> length w > 0 \<and> d ! (length w - 1) = ESC"
        then obtain u e where w: "w = u @ [e]" by (cases w rule: rev_cases) auto
        then have "e = ESC" using a d snoc by (simp add: nth_append)
        then have "d = u @ ESC # CHR ''['' # ps" using w a d snoc by simp
        then show False using esc_run_csi [of u ps] ok z ps by simp
      qed
      then show ?thesis using nb False b by (auto simp: Let_def)
    qed
    then show ?thesis using step snoc by (auto simp: unfinishedEscape_def)
  qed
qed

lemma unfinished_cut:
  assumes "esc_ok 0 d"
  obtains "esc_run 0 d = 0" "unfinishedEscape d = length d"
  | u p where "d = u @ p" "unfinishedEscape d = length u" "p \<noteq> []" "hd p = ESC"
      "length p \<le> maxPendingEscape" "esc_run 0 u < 2"
proof (cases "esc_run 0 d" rule: nat.exhaust)
  case zero
  then show ?thesis using that(1) unfinished_none [OF assms] by blast
next
  case (Suc m)
  show ?thesis
  proof (cases "m = 0")
    case True
    then obtain u where "d = u @ [ESC]" "esc_run 0 u < 2"
      using esc_run_shape [OF assms refl] Suc by auto
    then show ?thesis using that(2) [of u "[ESC]"] unfinished_esc [of u]
      by (simp add: maxPendingEscape_def)
  next
    case False
    then obtain u ps where u: "d = u @ ESC # CHR ''['' # ps" "list_all is_param ps"
        "esc_run 0 d = 2 + length ps" "esc_run 0 u < 2" "esc_run 0 d \<le> maxPendingEscape"
      using esc_run_shape [OF assms refl] Suc by force
    then show ?thesis using that(2) [of u "ESC # CHR ''['' # ps"] unfinished_csi [OF u(1,2)] by simp
  qed
qed

section \<open>Stripping in chunks\<close>

lemma skip_csi_append:
  "2 \<le> n \<Longrightarrow> esc_run n x < 2 \<Longrightarrow> skip_csi (x @ v) = skip_csi x @ v \<and> esc_run 0 (skip_csi x) = esc_run n x"
proof (induction x arbitrary: n)
  case (Cons a x)
  show ?case
  proof (cases "is_final a")
    case False
    with Cons.prems have "skip_csi (x @ v) = skip_csi x @ v \<and> esc_run 0 (skip_csi x) = esc_run (Suc n) x"
      by (intro Cons.IH) auto
    with False Cons.prems show ?thesis by simp
  qed (use Cons.prems in simp)
qed simp

lemma StripANSI_append:
  "esc_run 0 u = 0 \<or> (esc_run 0 u = 1 \<and> (v = [] \<or> hd v \<noteq> CHR ''['')) \<Longrightarrow>
   StripANSI (u @ v) = StripANSI u @ StripANSI v"
proof (induction u rule: StripANSI.induct)
  case (2 c cs)
  show ?case
  proof (cases "c = ESC \<and> cs \<noteq> [] \<and> hd cs = CHR ''[''")
    case True
    then obtain ds where cs: "cs = CHR ''['' # ds" by (cases cs) auto
    have r: "esc_run 0 (c # cs) = esc_run 2 ds" using True cs by simp
    then have "esc_run 2 ds < 2" using "2.prems" by auto
    then have k: "skip_csi (ds @ v) = skip_csi ds @ v" "esc_run 0 (skip_csi ds) = esc_run 2 ds"
      using skip_csi_append by auto
    then show ?thesis using "2.IH"(1) [OF True] True cs r "2.prems" by simp
  next
    case False
    have st: "\<not> (c = ESC \<and> cs @ v \<noteq> [] \<and> hd (cs @ v) = CHR ''['')"
      using False "2.prems" by (cases cs) auto
    have "esc_run 0 cs = 0 \<or> (esc_run 0 cs = 1 \<and> (v = [] \<or> hd v \<noteq> CHR ''[''))"
      using False "2.prems" by (cases cs) (auto split: if_splits)
    then show ?thesis using "2.IH"(2) [OF False] st False by auto
  qed
qed simp

lemma esc_ok_restart: "p = [] \<or> hd p = ESC \<Longrightarrow> n < 2 \<Longrightarrow> p = [] \<longrightarrow> n = 0 \<Longrightarrow>
    esc_ok n (p @ x) = esc_ok 0 (p @ x) \<and> esc_run n (p @ x) = esc_run 0 (p @ x)"
  by (cases p) auto

lemma strip_chunks_invariant:
  assumes "esc_ok 0 (u @ p @ concat cs)" and "esc_run 0 u < 2"
    and "if p = [] then esc_run 0 u = 0 else hd p = ESC"
    and "strip_chunks p cs = (p', out)"
  shows "StripANSI u @ out @ StripANSI p' = StripANSI (u @ p @ concat cs)"
  using assms
proof (induction cs arbitrary: u p out)
  case Nil
  have "StripANSI (u @ p) = StripANSI u @ StripANSI p"
    using Nil.prems by (intro StripANSI_append) (auto split: if_splits)
  then show ?case using Nil.prems by simp
next
  case (Cons c cs)
  let ?d = "p @ c"
  have okd: "esc_ok 0 ?d"
    using Cons.prems(1-3) esc_ok_restart [of p "esc_run 0 u" c]
    by (auto simp: esc_ok_append split: if_splits)
  have S: "Strip p c = (let cut = unfinishedEscape ?d in
      if cut < length ?d then (if length ?d - cut \<le> maxPendingEscape then drop cut ?d else [],
        StripANSI (take cut ?d)) else ([], StripANSI ?d))"
    by (cases "p = []") (simp_all add: Strip_def Let_def)
  obtain p1 out1 outs where s: "Strip p c = (p1, out1)" "strip_chunks p1 cs = (p', outs)"
      "out = out1 @ outs" using Cons.prems(4) by (auto split: prod.splits)
  have runs: "esc_run 0 (u @ x) = (if x = [] then esc_run 0 u else esc_run 0 x)" if "p \<noteq> [] \<longrightarrow> x = [] \<or> hd x = ESC" for x
    using Cons.prems(2,3) that by (cases x) (auto simp: esc_run_append split: if_splits)
  have strips: "StripANSI (u @ x) = StripANSI u @ StripANSI x" if "p \<noteq> [] \<longrightarrow> x = [] \<or> hd x = ESC" for x
    using Cons.prems(2,3) that by (intro StripANSI_append) (auto split: if_splits)
  show ?case
    using okd
  proof (cases rule: unfinished_cut)
    case 1
    then have e: "p1 = []" "out1 = StripANSI ?d" using s(1) S by simp_all
    have h: "p \<noteq> [] \<longrightarrow> ?d = [] \<or> hd ?d = ESC" using Cons.prems(3) by auto
    have "esc_run 0 (u @ ?d) = 0"
      using runs [OF h] 1 Cons.prems(3) by (cases "?d = []") auto
    then show ?thesis
      using Cons.IH [of "u @ ?d" "[]" outs] Cons.prems(1) s e strips [OF h] by simp
  next
    case (2 v q)
    then have e: "p1 = q" "out1 = StripANSI v" using s(1) S by simp_all
    have h: "p \<noteq> [] \<longrightarrow> v = [] \<or> hd v = ESC" using Cons.prems(3) 2(1)
      by (cases v; cases p) auto
    have "esc_run 0 (u @ v) < 2" using runs [OF h] 2 Cons.prems(2) by auto
    moreover have "u @ p @ concat (c # cs) = (u @ v) @ q @ concat cs" using 2(1) by simp
    ultimately show ?thesis
      using Cons.IH [of "u @ v" q outs] Cons.prems(1) s e strips [OF h] 2(3,4) by (simp del: concat.simps)
  qed
qed

text \<open>
  C32 (equivalence).  Stripping a stream chunk by chunk equals stripping the whole text: for
  output whose escape sequences are well formed, however it is split into reads, the chunks'
  outputs followed by what is still pending give the text without its escape sequences.
\<close>

theorem strip_chunked_equals_whole:
  assumes "esc_ok 0 (concat cs)" and "strip_chunks [] cs = (p, out)"
  shows "out @ StripANSI p = StripANSI (concat cs)"
  using strip_chunks_invariant [of "[]" "[]" cs p out] assms by simp

theorem strip_chunked_equals_whole_witness:
  "snd (strip_chunks [] [[CHR ''a'', ESC], ''[3'', ''1mred'']) @
     StripANSI (fst (strip_chunks [] [[CHR ''a'', ESC], ''[3'', ''1mred''])) = ''ared''"
proof -
  have "esc_ok 0 (concat [[CHR ''a'', ESC], ''[3'', ''1mred''])"
    by (simp add: ESC_def is_final_def is_param_def maxPendingEscape_def)
  then have "snd (strip_chunks [] [[CHR ''a'', ESC], ''[3'', ''1mred'']) @
     StripANSI (fst (strip_chunks [] [[CHR ''a'', ESC], ''[3'', ''1mred''])) =
     StripANSI (concat [[CHR ''a'', ESC], ''[3'', ''1mred''])"
    by (rule strip_chunked_equals_whole) simp
  also have "\<dots> = ''ared''" by (simp add: ESC_def is_final_def)
  finally show ?thesis .
qed

end
