(* ===== verification/Log_Capture.thy ===== *)
theory Log_Capture
  imports Log_Files Ring_Buffer Ansi_Strip
begin

text \<open>
  \<open>internal/logging/capture.go\<close> and \<open>rotateFile\<close> of \<open>rotation.go\<close>: the writer that
  keeps a process's output in the ring buffer and in its log file, and the rotation of that
  file.  The file system maps paths to inodes and inodes to contents; an open file is an
  inode.  \<open>OS\<close> says what the operating system permits and how much of a write succeeds.
\<close>

section \<open>Files\<close>

record FS =
  fs_dir :: "string \<Rightarrow> nat option"
  fs_data :: "nat \<Rightarrow> string"
  fs_next :: nat

record OS =
  os_open :: "string \<Rightarrow> bool"
  os_rename :: "string \<Rightarrow> string \<Rightarrow> bool"
  os_remove :: "string \<Rightarrow> bool"
  os_truncate :: "nat \<Rightarrow> bool"
  os_write :: "nat \<Rightarrow> nat \<Rightarrow> nat"

definition openLogFile :: "OS \<Rightarrow> string \<Rightarrow> FS \<Rightarrow> FS \<times> nat option" where
  "openLogFile os path fs =
     (if \<not> os_open os path then (fs, None)
      else case fs_dir fs path of
        Some i \<Rightarrow> (fs, Some i)
      | None \<Rightarrow>
          (fs\<lparr>fs_dir := (fs_dir fs)(path \<mapsto> fs_next fs), fs_data := (fs_data fs)(fs_next fs := []),
              fs_next := fs_next fs + 1\<rparr>, Some (fs_next fs)))"

definition Remove :: "OS \<Rightarrow> string \<Rightarrow> FS \<Rightarrow> FS" where
  "Remove os path fs = (if os_remove os path then fs\<lparr>fs_dir := (fs_dir fs)(path := None)\<rparr> else fs)"

text \<open>The second component is success.\<close>

definition Rename :: "OS \<Rightarrow> string \<Rightarrow> string \<Rightarrow> FS \<Rightarrow> FS \<times> bool" where
  "Rename os src dst fs =
     (if \<not> os_rename os src dst then (fs, False)
      else case fs_dir fs src of
        None \<Rightarrow> (fs, False)
      | Some i \<Rightarrow> (fs\<lparr>fs_dir := (fs_dir fs)(src := None, dst := Some i)\<rparr>, True))"

definition Truncate0 :: "OS \<Rightarrow> nat \<Rightarrow> FS \<Rightarrow> FS \<times> bool" where
  "Truncate0 os i fs =
     (if os_truncate os i then (fs\<lparr>fs_data := (fs_data fs)(i := [])\<rparr>, True) else (fs, False))"

text \<open>A write may be cut short: \<open>os_write\<close> bounds the bytes that reach the file.\<close>

definition append_data :: "OS \<Rightarrow> nat \<Rightarrow> string \<Rightarrow> FS \<Rightarrow> FS" where
  "append_data os i d fs =
     fs\<lparr>fs_data := (fs_data fs)(i := fs_data fs i @ take (os_write os i (length d)) d)\<rparr>"

section \<open>Rotation\<close>

definition backup_name :: "string \<Rightarrow> int \<Rightarrow> string" where
  "backup_name path n = path @ ''.'' @ itoa n"

text \<open>The loop \<open>for i := backups - 1; i >= 1; i--\<close>; the argument is the number of rounds left.\<close>

fun shift_backups :: "OS \<Rightarrow> string \<Rightarrow> nat \<Rightarrow> FS \<Rightarrow> FS" where
  "shift_backups os path 0 fs = fs"
| "shift_backups os path (Suc k) fs =
     shift_backups os path k
       (fst (Rename os (backup_name path (int (Suc k))) (backup_name path (int (Suc k) + 1)) fs))"

definition rotateFile :: "OS \<Rightarrow> string \<Rightarrow> int \<Rightarrow> FS \<Rightarrow> FS \<times> bool" where
  "rotateFile os path backups fs =
     (if backups = 0
      then (case openLogFile os path fs of
              (fs1, None) \<Rightarrow> (fs1, False)
            | (fs1, Some i) \<Rightarrow> Truncate0 os i fs1)
      else
        let fs1 = Remove os (backup_name path backups) fs;
            fs2 = shift_backups os path (nat (backups - 1)) fs1
        in Rename os path (backup_name path 1) fs2)"

definition RotateIfNeeded :: "OS \<Rightarrow> string \<Rightarrow> string \<Rightarrow> int \<Rightarrow> FS \<Rightarrow> FS \<times> bool" where
  "RotateIfNeeded os path maxbytes backups fs =
     (let m = ParseSize maxbytes in
      if m = 0 then (fs, True)
      else case fs_dir fs path of
        None \<Rightarrow> (fs, True)
      | Some i \<Rightarrow> if int (length (fs_data fs i)) < m then (fs, True) else rotateFile os path backups fs)"

lemma nat_digits_inj: "nat_digits m = nat_digits n \<longleftrightarrow> m = n"
  using digits_val_nat_digits [of m] digits_val_nat_digits [of n] by (metis option.inject)

lemma backup_name_inj [simp]:
  assumes "0 \<le> m" and "0 \<le> n" shows "backup_name p m = backup_name p n \<longleftrightarrow> m = n"
  using assms by (auto simp: backup_name_def itoa_def nat_digits_inj nat_eq_iff)

lemma backup_name_path [simp]: "backup_name p n \<noteq> p" "p \<noteq> backup_name p n"
  by (simp_all add: backup_name_def)

definition contents :: "FS \<Rightarrow> string \<Rightarrow> string option" where
  "contents fs path = map_option (fs_data fs) (fs_dir fs path)"

lemma Rename_dir:
  "os_rename os src dst \<Longrightarrow> src \<noteq> dst \<Longrightarrow>
   fs_dir (fst (Rename os src dst fs)) q =
     (if q = dst then (case fs_dir fs src of None \<Rightarrow> fs_dir fs dst | Some i \<Rightarrow> Some i)
      else if q = src then None else fs_dir fs q)"
  by (auto simp: Rename_def split: option.splits)

lemma Rename_data [simp]: "fs_data (fst (Rename os src dst fs)) = fs_data fs"
  by (auto simp: Rename_def split: option.splits)

text \<open>What the shifting loop leaves under each name, when the last backup is gone before it.\<close>

lemma shift_backups_data [simp]: "fs_data (shift_backups os path k fs) = fs_data fs"
  by (induction k arbitrary: fs) auto

lemma shift_backups_above:
  assumes "\<And>i. 1 \<le> i \<Longrightarrow> i \<le> Suc k \<Longrightarrow> q \<noteq> backup_name path (int i)"
  shows "fs_dir (shift_backups os path k fs) q = fs_dir fs q"
  using assms
proof (induction k arbitrary: fs)
  case (Suc k)
  have q: "q \<noteq> backup_name path (int (Suc k))" "q \<noteq> backup_name path (int (Suc k) + 1)"
    using Suc.prems [of "Suc k"] Suc.prems [of "Suc (Suc k)"] by (simp_all add: add.commute)
  have "fs_dir (fst (Rename os (backup_name path (int (Suc k))) (backup_name path (int (Suc k) + 1)) fs)) q
      = fs_dir fs q"
    using q by (simp add: Rename_def split: option.splits)
  then show ?case using Suc.IH Suc.prems by simp
qed simp

lemma shift_backups_dir:
  assumes os: "\<And>a b. os_rename os a b" and "fs_dir fs (backup_name path (int (Suc k))) = None"
    and "1 \<le> i" and "i \<le> Suc k"
  shows "fs_dir (shift_backups os path k fs) (backup_name path (int i)) =
           (if i = 1 then (if k = 0 then fs_dir fs (backup_name path 1) else None)
            else fs_dir fs (backup_name path (int i - 1)))"
  using assms(2-)
proof (induction k arbitrary: fs i)
  case (Suc k)
  let ?B = "\<lambda>i. backup_name path i"
  define f where "f = fst (Rename os (?B (int (Suc k))) (?B (int (Suc k) + 1)) fs)"
  have dir: "fs_dir f (?B j) = (if j = int k + 2 then fs_dir fs (?B (int k + 1))
      else if j = int k + 1 then None else fs_dir fs (?B j))" if "0 \<le> j" for j
    unfolding f_def using Rename_dir [OF os, of "?B (int (Suc k))" "?B (int (Suc k) + 1)" fs "?B j"]
      that Suc.prems(1) by (simp add: add.commute split: option.splits)
  have sh: "shift_backups os path (Suc k) fs = shift_backups os path k f" by (simp add: f_def)
  show ?case
  proof (cases "i = Suc (Suc k)")
    case True
    have "fs_dir (shift_backups os path k f) (?B (int i)) = fs_dir f (?B (int i))"
      by (rule shift_backups_above) (simp add: True)
    then show ?thesis using dir [of "int k + 2"] True sh by (simp add: add.commute)
  next
    case False
    have "fs_dir f (?B (int (Suc k))) = None" using dir [of "int k + 1"] by (simp add: add.commute)
    note IH = Suc.IH [OF this Suc.prems(2)]
    show ?thesis
    proof (cases "i = 1")
      case True
      then show ?thesis using IH dir [of 1] sh by (cases k) simp_all
    next
      case i1: False
      have "fs_dir (shift_backups os path (Suc k) fs) (?B (int i)) = fs_dir f (?B (int i - 1))"
        using IH False i1 Suc.prems(3) sh by simp
      then show ?thesis using dir [of "int i - 1"] False i1 Suc.prems(2,3) by simp
    qed
  qed
qed (auto simp: le_Suc_eq)

lemma rotateFile_dir:
  assumes os: "\<And>a b. os_rename os a b" "\<And>a. os_remove os a" and n: "1 \<le> n"
    and p: "fs_dir fs path = Some i"
  shows "snd (rotateFile os path n fs)"
    and "fs_data (fst (rotateFile os path n fs)) = fs_data fs"
    and "fs_dir (fst (rotateFile os path n fs)) path = None"
    and "fs_dir (fst (rotateFile os path n fs)) (backup_name path 1) = Some i"
    and "1 \<le> k \<Longrightarrow> k < n \<Longrightarrow>
      fs_dir (fst (rotateFile os path n fs)) (backup_name path (k + 1)) = fs_dir fs (backup_name path k)"
    and "(\<And>k. 1 \<le> k \<Longrightarrow> k \<le> n \<Longrightarrow> q \<noteq> backup_name path k) \<Longrightarrow> q \<noteq> path \<Longrightarrow>
      fs_dir (fst (rotateFile os path n fs)) q = fs_dir fs q"
proof -
  let ?k = "nat (n - 1)"
  define fs1 where "fs1 = Remove os (backup_name path n) fs"
  define fs2 where "fs2 = shift_backups os path ?k fs1"
  have r: "rotateFile os path n fs = Rename os path (backup_name path 1) fs2"
    using n by (simp add: rotateFile_def fs1_def fs2_def Let_def)
  have k: "int (Suc ?k) = n" using n by simp
  have d1: "fs_dir fs1 q = (if q = backup_name path n then None else fs_dir fs q)" for q
    using os by (simp add: fs1_def Remove_def)
  have "fs_dir fs1 (backup_name path (int (Suc ?k))) = None" using d1 k by simp
  note d2 = shift_backups_dir [OF os(1) this, folded fs2_def]
  have p2: "fs_dir fs2 path = Some i"
    unfolding fs2_def using shift_backups_above [of ?k path path os fs1] d1 [of path] p by simp
  have ren: "fs_dir (fst (rotateFile os path n fs)) q =
      (if q = backup_name path 1 then Some i else if q = path then None else fs_dir fs2 q)" for q
    using Rename_dir [OF os(1), of path "backup_name path 1" fs2 q] p2 r by simp
  show "snd (rotateFile os path n fs)" using r p2 os by (simp add: Rename_def)
  show "fs_data (fst (rotateFile os path n fs)) = fs_data fs"
    using r by (simp add: fs2_def fs1_def Remove_def)
  show "fs_dir (fst (rotateFile os path n fs)) path = None"
    "fs_dir (fst (rotateFile os path n fs)) (backup_name path 1) = Some i"
    using ren by auto
  show "fs_dir (fst (rotateFile os path n fs)) (backup_name path (k + 1)) = fs_dir fs (backup_name path k)"
    if kk: "1 \<le> k" "k < n"
  proof -
    have "fs_dir fs2 (backup_name path (int (nat (k + 1)))) = fs_dir fs1 (backup_name path k)"
      using d2 [of "nat (k + 1)"] kk by (simp add: nat_eq_iff)
    then show ?thesis
      using ren [of "backup_name path (k + 1)"] d1 [of "backup_name path k"] kk by simp
  qed
  show "fs_dir (fst (rotateFile os path n fs)) q = fs_dir fs q"
    if q: "\<And>k. 1 \<le> k \<Longrightarrow> k \<le> n \<Longrightarrow> q \<noteq> backup_name path k" "q \<noteq> path"
  proof -
    have "q \<noteq> backup_name path 1" "q \<noteq> backup_name path n" using q(1) n by auto
    moreover have "fs_dir fs2 q = fs_dir fs1 q"
      unfolding fs2_def proof (rule shift_backups_above)
      fix j assume "1 \<le> j" "j \<le> Suc ?k"
      then show "q \<noteq> backup_name path (int j)" using q(1) [of "int j"] k by simp
    qed
    ultimately show ?thesis using ren [of q] d1 [of q] q(2) by simp
  qed
qed

text \<open>
  Rotation with \<open>n\<close> backups on a permissive file system: the current file
  becomes backup 1 with its contents, every backup \<open>k < n\<close> (or its absence) becomes backup
  \<open>k + 1\<close>, the oldest is dropped, no other path changes, and the log path itself is free.
\<close>

theorem rotation_shifts_backups:
  assumes "\<And>a b. os_rename os a b" and "\<And>a. os_remove os a" and "1 \<le> n"
    and "contents fs path = Some c" and "rotateFile os path n fs = (fs', ok)"
  shows "ok \<and> contents fs' path = None \<and> contents fs' (backup_name path 1) = Some c \<and>
     (\<forall>k. 1 \<le> k \<and> k < n \<longrightarrow>
        contents fs' (backup_name path (k + 1)) = contents fs (backup_name path k)) \<and>
     (\<forall>q. q \<noteq> path \<and> (\<forall>k. 1 \<le> k \<and> k \<le> n \<longrightarrow> q \<noteq> backup_name path k) \<longrightarrow>
        contents fs' q = contents fs q)"
proof -
  obtain i where i: "fs_dir fs path = Some i" "c = fs_data fs i"
    using assms(4) by (auto simp: contents_def)
  have fs': "fs' = fst (rotateFile os path n fs)" "ok = snd (rotateFile os path n fs)"
    using assms(5) by simp_all
  note f = rotateFile_dir [OF assms(1,2,3) i(1)]
  show ?thesis unfolding fs'
  proof (intro conjI allI impI)
    fix k assume "1 \<le> k \<and> k < n"
    then show "contents (fst (rotateFile os path n fs)) (backup_name path (k + 1)) =
        contents fs (backup_name path k)"
      using f(2) f(5) [of k] by (simp add: contents_def)
  next
    fix q assume "q \<noteq> path \<and> (\<forall>k. 1 \<le> k \<and> k \<le> n \<longrightarrow> q \<noteq> backup_name path k)"
    then show "contents (fst (rotateFile os path n fs)) q = contents fs q"
      using f(2) f(6) [of q] by (simp add: contents_def)
  qed (use f(1-4) i(2) in \<open>simp_all add: contents_def\<close>)
qed

definition open_os :: OS where
  "open_os = \<lparr>os_open = (\<lambda>_. True), os_rename = (\<lambda>_ _. True), os_remove = (\<lambda>_. True),
     os_truncate = (\<lambda>_. True), os_write = (\<lambda>_ n. n)\<rparr>"

definition sample_fs :: FS where
  "sample_fs = \<lparr>fs_dir = [''log'' \<mapsto> 0, ''log.1'' \<mapsto> 1, ''log.2'' \<mapsto> 2],
     fs_data = (\<lambda>i. if i = 0 then ''new'' else if i = 1 then ''mid'' else ''old''), fs_next = 3\<rparr>"

theorem rotation_shifts_backups_witness:
  "contents (fst (rotateFile open_os ''log'' 2 sample_fs)) (backup_name ''log'' 1) = Some ''new''"
proof -
  have "contents sample_fs ''log'' = Some ''new''" by (simp add: contents_def sample_fs_def)
  from rotation_shifts_backups [of open_os 2, OF _ _ _ this prod.collapse [symmetric]]
  show ?thesis by (simp add: open_os_def)
qed

section \<open>The capture writer\<close>

text \<open>\<open>file\<close> is the open handle: its inode and whether it is still open.  Handlers are named by numbers.\<close>

record CaptureConfig =
  cc_ProcessName :: string
  cc_Stream :: string
  cc_Logfile :: string
  cc_RedirectStderr :: bool
  cc_StripAnsi :: bool
  cc_MaxBytes :: string
  cc_Backups :: int

record CaptureWriter =
  cw_config :: CaptureConfig
  cw_file :: "(nat \<times> bool) option"
  cw_handlers :: "nat list"
  cw_ringBuf :: RingBuffer
  cw_stripper :: string

text \<open>The \<open>string option\<close> is the Go error: the path it names.\<close>

definition EnsureOpen :: "OS \<Rightarrow> CaptureWriter \<Rightarrow> FS \<Rightarrow> CaptureWriter \<times> FS \<times> string option" where
  "EnsureOpen os cw fs =
     (let path = cc_Logfile (cw_config cw) in
      if path = [] \<or> cw_file cw \<noteq> None then (cw, fs, None)
      else case openLogFile os path fs of
        (fs1, None) \<Rightarrow> (cw, fs1, Some path)
      | (fs1, Some i) \<Rightarrow> (cw\<lparr>cw_file := Some (i, True)\<rparr>, fs1, None))"

definition NewCaptureWriter :: "OS \<Rightarrow> CaptureConfig \<Rightarrow> FS \<Rightarrow> CaptureWriter \<times> FS \<times> string option" where
  "NewCaptureWriter os cfg fs =
     EnsureOpen os \<lparr>cw_config = cfg, cw_file = None, cw_handlers = [],
       cw_ringBuf = NewRingBuffer (64 * 1024), cw_stripper = []\<rparr> fs"

definition rotateIfNeeded :: "OS \<Rightarrow> CaptureWriter \<Rightarrow> FS \<Rightarrow> CaptureWriter \<times> FS" where
  "rotateIfNeeded os cw fs =
     (case cw_file cw of
        None \<Rightarrow> (cw, fs)
      | Some (i, is_open) \<Rightarrow>
          let cfg = cw_config cw; m = ParseSize (cc_MaxBytes cfg) in
          if cc_MaxBytes cfg = [] then (cw, fs)
          else if m = 0 then (cw, fs)
          else if \<not> is_open \<or> int (length (fs_data fs i)) < m then (cw, fs)
          else if cc_Backups cfg = 0 then (cw, fst (Truncate0 os i fs))
          else
            let fs1 = fst (rotateFile os (cc_Logfile cfg) (cc_Backups cfg) fs) in
            (case openLogFile os (cc_Logfile cfg) fs1 of
               (fs2, None) \<Rightarrow> (cw\<lparr>cw_file := None\<rparr>, fs2)
             | (fs2, Some j) \<Rightarrow> (cw\<lparr>cw_file := Some (j, True)\<rparr>, fs2)))"

text \<open>
  \<open>Capture\<close> in its steps: the stripping, the write to the file (writing to a closed handle
  fails and writes nothing), and the whole.  The result is the writer, the file system, the
  calls made to the handlers and the data as captured.
\<close>

definition capture_strip :: "string \<Rightarrow> CaptureWriter \<Rightarrow> CaptureWriter \<times> string" where
  "capture_strip p cw =
     (if cc_StripAnsi (cw_config cw)
      then (case Strip (cw_stripper cw) p of (pending, out) \<Rightarrow> (cw\<lparr>cw_stripper := pending\<rparr>, out))
      else (cw, p))"

definition capture_file :: "OS \<Rightarrow> string \<Rightarrow> CaptureWriter \<Rightarrow> FS \<Rightarrow> CaptureWriter \<times> FS" where
  "capture_file os data cw fs =
     (case cw_file cw of
        None \<Rightarrow> (cw, fs)
      | Some (i, is_open) \<Rightarrow> rotateIfNeeded os cw (if is_open then append_data os i data fs else fs))"

definition Capture ::
  "OS \<Rightarrow> string \<Rightarrow> CaptureWriter \<Rightarrow> FS \<Rightarrow> CaptureWriter \<times> FS \<times> (nat \<times> string \<times> string) list \<times> string" where
  "Capture os p cw fs =
     (let (cw1, data) = capture_strip p cw;
          cw2 = cw1\<lparr>cw_ringBuf := rb_Write data (cw_ringBuf cw1)\<rparr>;
          (cw3, fs1) = capture_file os data cw2 fs
      in (cw3, fs1, map (\<lambda>h. (h, cc_ProcessName (cw_config cw3), data)) (cw_handlers cw3), data))"

definition AddHandler :: "nat \<Rightarrow> CaptureWriter \<Rightarrow> CaptureWriter" where
  "AddHandler h cw = cw\<lparr>cw_handlers := cw_handlers cw @ [h]\<rparr>"

definition ReadTail :: "int \<Rightarrow> CaptureWriter \<Rightarrow> string" where
  "ReadTail n cw = rb_Read n (cw_ringBuf cw)"

text \<open>\<open>Close\<close> keeps the closed handle in the writer; the flag tells that closing succeeded.\<close>

definition Close :: "CaptureWriter \<Rightarrow> CaptureWriter \<times> bool" where
  "Close cw =
     (case cw_file cw of
        None \<Rightarrow> (cw, True)
      | Some (i, is_open) \<Rightarrow> (cw\<lparr>cw_file := Some (i, False)\<rparr>, is_open))"

definition Reopen :: "OS \<Rightarrow> CaptureWriter \<Rightarrow> FS \<Rightarrow> CaptureWriter \<times> FS \<times> string option" where
  "Reopen os cw fs =
     (let path = cc_Logfile (cw_config cw) in
      case cw_file cw of
        None \<Rightarrow> (cw, fs, None)
      | Some (i, is_open) \<Rightarrow>
          if path = [] then (cw, fs, None)
          else case openLogFile os path fs of
            (fs1, None) \<Rightarrow> (cw\<lparr>cw_file := Some (i, False)\<rparr>, fs1, Some path)
          | (fs1, Some j) \<Rightarrow> (cw\<lparr>cw_file := Some (j, True)\<rparr>, fs1, None))"

fun captures :: "OS \<Rightarrow> string list \<Rightarrow> CaptureWriter \<Rightarrow> FS \<Rightarrow> CaptureWriter \<times> FS \<times> string list" where
  "captures os [] cw fs = (cw, fs, [])"
| "captures os (p # ps) cw fs =
     (let (cw1, fs1, calls, d) = Capture os p cw fs; (cw2, fs2, ds) = captures os ps cw1 fs1
      in (cw2, fs2, d # ds))"

section \<open>What the writer keeps\<close>

lemma rotateIfNeeded_keeps [simp]:
  "cw_config (fst (rotateIfNeeded os cw fs)) = cw_config cw"
  "cw_ringBuf (fst (rotateIfNeeded os cw fs)) = cw_ringBuf cw"
  "cw_handlers (fst (rotateIfNeeded os cw fs)) = cw_handlers cw"
  by (auto simp: rotateIfNeeded_def Let_def split: option.splits prod.splits)

lemma capture_file_keeps [simp]:
  "cw_config (fst (capture_file os d cw fs)) = cw_config cw"
  "cw_ringBuf (fst (capture_file os d cw fs)) = cw_ringBuf cw"
  "cw_handlers (fst (capture_file os d cw fs)) = cw_handlers cw"
  by (simp_all add: capture_file_def split: option.splits prod.splits)

lemma capture_strip_keeps:
  assumes "capture_strip p cw = (cw1, d)"
  shows "cw_config cw1 = cw_config cw" "cw_ringBuf cw1 = cw_ringBuf cw"
    "cw_handlers cw1 = cw_handlers cw" "cw_file cw1 = cw_file cw"
  using assms by (auto simp: capture_strip_def split: if_splits prod.splits)

lemma Capture_ring:
  assumes "Capture os p cw fs = (cw', fs', calls, d)"
  shows "cw_ringBuf cw' = rb_Write d (cw_ringBuf cw)" and "cw_config cw' = cw_config cw"
proof -
  obtain cw1 d1 where c: "capture_strip p cw = (cw1, d1)" by fastforce
  let ?cw2 = "cw1\<lparr>cw_ringBuf := rb_Write d1 (cw_ringBuf cw1)\<rparr>"
  have "cw' = fst (capture_file os d1 ?cw2 fs)" "d = d1"
    using assms c by (auto simp: Capture_def Let_def case_prod_beta)
  then show "cw_ringBuf cw' = rb_Write d (cw_ringBuf cw)" "cw_config cw' = cw_config cw"
    using capture_strip_keeps [OF c] by simp_all
qed

lemma captures_ring:
  "captures os ps cw fs = (cw', fs', ds) \<Longrightarrow> cw_ringBuf cw' = fold rb_Write ds (cw_ringBuf cw)"
proof (induction ps arbitrary: cw fs ds)
  case (Cons p ps)
  obtain cw1 fs1 calls d where c: "Capture os p cw fs = (cw1, fs1, calls, d)" by (metis prod_cases4)
  obtain ds1 where "captures os ps cw1 fs1 = (cw', fs', ds1)" "ds = d # ds1"
    using Cons.prems c by (auto split: prod.splits)
  then show ?case using Cons.IH [of cw1 fs1 ds1] Capture_ring [OF c] by simp
qed simp

text \<open>
  Reading the tail of a new capture writer after any captures gives the last
  bytes of the data it returned to the event stream, at most 64 KB: the tail and the events
  carry the same output, whatever happens to the log file.
\<close>

theorem read_tail_is_captured_tail:
  assumes "NewCaptureWriter os cfg fs = (cw, fs1, err)" and "captures os ps cw fs1 = (cw', fs', ds)"
    and "0 < n" and "n \<le> 64 * 1024"
  shows "ReadTail n cw' = take_last (nat n) (concat ds)"
proof -
  have "cw_ringBuf cw = NewRingBuffer (64 * 1024)"
    using assms(1) by (auto simp: NewCaptureWriter_def EnsureOpen_def Let_def split: if_splits option.splits prod.splits)
  then have "cw_ringBuf cw' = fold rb_Write ds (NewRingBuffer (64 * 1024))"
    using captures_ring [OF assms(2)] by simp
  moreover have "rb_size (NewRingBuffer (64 * 1024)) = 64 * 1024"
    by (subst rb_size_New) (simp_all add: maxRingBufSize_def)
  ultimately show ?thesis
    using rb.read_writes [OF rb_inv_New rb_held_New assms(3), of ds "64 * 1024"] assms(4)
    by (simp add: ReadTail_def maxReadAlloc_def min_def)
qed

section \<open>What rotation keeps of the output\<close>

text \<open>A well-formed file system has no two names for one inode and none for an unused one.\<close>

definition fs_wf :: "FS \<Rightarrow> bool" where
  "fs_wf fs \<longleftrightarrow> (\<forall>p i. fs_dir fs p = Some i \<longrightarrow> i < fs_next fs) \<and>
     (\<forall>p q i. fs_dir fs p = Some i \<longrightarrow> fs_dir fs q = Some i \<longrightarrow> p = q)"

lemma fs_wf_bound: "fs_wf fs \<Longrightarrow> fs_dir fs p = Some i \<Longrightarrow> i < fs_next fs"
  by (simp add: fs_wf_def)

lemma fs_wf_inj: "fs_wf fs \<Longrightarrow> fs_dir fs p = Some i \<Longrightarrow> fs_dir fs q = Some i \<Longrightarrow> p = q"
  by (simp add: fs_wf_def)

lemma fs_wf_Remove [kahi_inv]: "fs_wf fs \<Longrightarrow> fs_wf (Remove os p fs)"
  by (auto simp: fs_wf_def Remove_def)

lemma fs_wf_Rename [kahi_inv]: "fs_wf fs \<Longrightarrow> fs_wf (fst (Rename os a b fs))"
  by (auto simp: fs_wf_def Rename_def split: option.splits)

lemma fs_wf_shift [kahi_inv]: "fs_wf fs \<Longrightarrow> fs_wf (shift_backups os p k fs)"
  by (induction k arbitrary: fs) (simp_all add: fs_wf_Rename)

lemma fs_wf_open [kahi_inv]: "fs_wf fs \<Longrightarrow> fs_wf (fst (openLogFile os p fs))"
  by (auto simp: fs_wf_def openLogFile_def less_Suc_eq split: option.splits)

lemma fs_wf_append [kahi_inv]: "fs_wf fs \<Longrightarrow> fs_wf (append_data os i d fs)"
  by (simp add: fs_wf_def append_data_def)

lemma fs_wf_rotate [kahi_inv]: "fs_wf fs \<Longrightarrow> n \<noteq> 0 \<Longrightarrow> fs_wf (fst (rotateFile os p n fs))"
  by (simp add: rotateFile_def Let_def kahi_inv)

definition file_text :: "FS \<Rightarrow> string \<Rightarrow> string" where
  "file_text fs q = (case contents fs q of None \<Rightarrow> [] | Some c \<Rightarrow> c)"

primrec backups_text :: "(nat \<Rightarrow> string) \<Rightarrow> nat \<Rightarrow> string" where
  "backups_text f 0 = []"
| "backups_text f (Suc n) = f (Suc n) @ backups_text f n"

text \<open>The output on disk: the backups from the oldest to the newest, then the log file.\<close>

definition log_held :: "FS \<Rightarrow> string \<Rightarrow> nat \<Rightarrow> string" where
  "log_held fs path n = backups_text (\<lambda>k. file_text fs (backup_name path (int k))) n @ file_text fs path"

lemma backups_text_shift:
  "1 \<le> n \<Longrightarrow> (\<And>k. 1 \<le> k \<Longrightarrow> k < n \<Longrightarrow> g (Suc k) = f k) \<Longrightarrow>
   backups_text g n = backups_text f (n - 1) @ g 1"
proof (induction n)
  case (Suc n)
  then show ?case by (cases n) auto
qed simp

lemma backups_text_cong:
  "(\<And>k. 1 \<le> k \<Longrightarrow> k \<le> n \<Longrightarrow> g k = f k) \<Longrightarrow> backups_text g n = backups_text f n"
  by (induction n) auto

definition permissive :: "OS \<Rightarrow> bool" where
  "permissive os \<longleftrightarrow> (\<forall>p. os_open os p) \<and> (\<forall>a b. os_rename os a b) \<and> (\<forall>p. os_remove os p) \<and>
     (\<forall>i. os_truncate os i) \<and> (\<forall>i n. os_write os i n = n)"

text \<open>The writer's handle is the log file, open, and its configuration rotates.\<close>

definition cap_ok :: "CaptureWriter \<Rightarrow> FS \<Rightarrow> bool" where
  "cap_ok cw fs \<longleftrightarrow> fs_wf fs \<and> 1 \<le> cc_Backups (cw_config cw) \<and> 0 < ParseSize (cc_MaxBytes (cw_config cw)) \<and>
     (\<exists>i. cw_file cw = Some (i, True) \<and> fs_dir fs (cc_Logfile (cw_config cw)) = Some i)"

lemma append_text:
  assumes "fs_wf fs" and "fs_dir fs path = Some i" and "permissive os"
  shows "file_text (append_data os i d fs) q = (if q = path then file_text fs path @ d else file_text fs q)"
proof (cases "q = path")
  case True
  then show ?thesis using assms(2,3)
    by (simp add: file_text_def contents_def append_data_def permissive_def)
next
  case False
  then have "fs_dir fs q \<noteq> Some i" using fs_wf_inj [OF assms(1,2)] by metis
  then show ?thesis using False
    by (cases "fs_dir fs q") (simp_all add: file_text_def contents_def append_data_def)
qed

lemma rotate_text:
  assumes wf: "fs_wf fs" and p: "fs_dir fs path = Some i" and os: "permissive os" and n: "1 \<le> n"
    and o1: "openLogFile os path (fst (rotateFile os path n fs)) = (fs2, r)"
  shows "\<exists>j. r = Some j \<and> fs_dir fs2 path = Some j" and "fs_wf fs2" and "file_text fs2 path = []"
    and "suffix (log_held fs2 path (nat n)) (log_held fs path (nat n))"
proof -
  let ?B = "\<lambda>k. backup_name path (int k)"
  define fs1 where "fs1 = fst (rotateFile os path n fs)"
  have osr: "\<And>a b. os_rename os a b" "\<And>a. os_remove os a" using os by (auto simp: permissive_def)
  note f = rotateFile_dir [OF osr n p, folded fs1_def]
  have wf1: "fs_wf fs1" using wf n by (simp add: fs1_def kahi_inv)
  have o2: "fs2 = fs1\<lparr>fs_dir := (fs_dir fs1)(path \<mapsto> fs_next fs1),
      fs_data := (fs_data fs1)(fs_next fs1 := []), fs_next := fs_next fs1 + 1\<rparr>" "r = Some (fs_next fs1)"
    using o1 f(3) os by (auto simp: openLogFile_def fs1_def permissive_def)
  show "\<exists>j. r = Some j \<and> fs_dir fs2 path = Some j" using o2 by simp
  show "fs_wf fs2" using fs_wf_open [OF wf1, of os path] o1 by (simp add: fs1_def)
  show t: "file_text fs2 path = []" using o2 by (simp add: file_text_def contents_def)
  have t1: "file_text fs2 q = file_text fs1 q" if "q \<noteq> path" for q
    using that fs_wf_bound [OF wf1, of q] o2
    by (auto simp: file_text_def contents_def split: option.splits)
  have b1: "file_text fs1 (?B 1) = file_text fs path"
    using f(2,4) p by (simp add: file_text_def contents_def)
  have bk: "file_text fs1 (?B (Suc k)) = file_text fs (?B k)" if "1 \<le> k" "k < nat n" for k
    using f(2) f(5) [of "int k"] that by (simp add: file_text_def contents_def add.commute)
  have "backups_text (\<lambda>k. file_text fs2 (?B k)) (nat n) =
      backups_text (\<lambda>k. file_text fs1 (?B k)) (nat n)"
    by (rule backups_text_cong) (simp add: t1)
  also have "\<dots> = backups_text (\<lambda>k. file_text fs (?B k)) (nat n - 1) @ file_text fs path"
    using backups_text_shift [of "nat n" "\<lambda>k. file_text fs1 (?B k)" "\<lambda>k. file_text fs (?B k)"] bk b1 n
    by simp
  finally have e: "log_held fs2 path (nat n) =
      backups_text (\<lambda>k. file_text fs (?B k)) (nat n - 1) @ file_text fs path"
    using t by (simp add: log_held_def)
  obtain m where m: "nat n = Suc m" using n by (cases "nat n") auto
  show "suffix (log_held fs2 path (nat n)) (log_held fs path (nat n))"
    unfolding e by (simp add: log_held_def m suffix_def)
qed

lemma ParseSize_Nil: "ParseSize [] = 0"
  by code_simp

lemma Capture_disk:
  assumes ok: "cap_ok cw fs" and os: "permissive os" and c: "Capture os p cw fs = (cw', fs', calls, d)"
    and path: "path = cc_Logfile (cw_config cw)" and n: "n = nat (cc_Backups (cw_config cw))"
  shows "cap_ok cw' fs'" and "suffix (log_held fs' path n) (log_held fs path n @ d)"
    and "int (length (file_text fs' path)) < ParseSize (cc_MaxBytes (cw_config cw))"
proof -
  let ?m = "ParseSize (cc_MaxBytes (cw_config cw))"
  obtain i where i: "cw_file cw = Some (i, True)" "fs_dir fs path = Some i"
    and wf: "fs_wf fs" and b: "1 \<le> cc_Backups (cw_config cw)" and m: "0 < ?m"
    using ok by (auto simp: cap_ok_def path)
  obtain cw1 d1 where s: "capture_strip p cw = (cw1, d1)" by fastforce
  define cw2 where "cw2 = cw1\<lparr>cw_ringBuf := rb_Write d1 (cw_ringBuf cw1)\<rparr>"
  have k2: "cw_config cw2 = cw_config cw" "cw_file cw2 = Some (i, True)"
    using capture_strip_keeps [OF s] i by (simp_all add: cw2_def)
  define fs1 where "fs1 = append_data os i d fs"
  have "(cw', fs') = capture_file os d cw2 fs"
    using c s by (auto simp: Capture_def cw2_def Let_def case_prod_beta)
  then have r: "(cw', fs') = rotateIfNeeded os cw2 fs1" using k2 by (simp add: capture_file_def fs1_def)
  have wf1: "fs_wf fs1" using wf by (simp add: fs1_def kahi_inv)
  have dir1: "fs_dir fs1 path = Some i" using i by (simp add: fs1_def append_data_def)
  have t1: "file_text fs1 q = (if q = path then file_text fs path @ d else file_text fs q)" for q
    unfolding fs1_def by (rule append_text [OF wf i(2) os])
  have h1: "log_held fs1 path n = log_held fs path n @ d" by (simp add: log_held_def t1)
  have len: "file_text fs1 path = fs_data fs1 i" using dir1 by (simp add: file_text_def contents_def)
  have mb: "cc_MaxBytes (cw_config cw) \<noteq> []"
    using m by (auto simp: ParseSize_Nil)
  have "cap_ok cw' fs' \<and> suffix (log_held fs' path n) (log_held fs path n @ d) \<and>
      int (length (file_text fs' path)) < ?m"
  proof (cases "int (length (fs_data fs1 i)) < ?m")
    case True
    then have "rotateIfNeeded os cw2 fs1 = (cw2, fs1)" using k2 by (simp add: rotateIfNeeded_def Let_def)
    then have "cw' = cw2" "fs' = fs1" using r by simp_all
    then show ?thesis using True wf1 dir1 k2 b m h1 len by (simp add: cap_ok_def path)
  next
    case False
    define fs2 where "fs2 = fst (rotateFile os path (cc_Backups (cw_config cw)) fs1)"
    obtain fs3 h where o: "openLogFile os path fs2 = (fs3, h)" by fastforce
    note rt = rotate_text [OF wf1 dir1 os b, folded fs2_def, OF o]
    obtain j where j: "h = Some j" "fs_dir fs3 path = Some j" using rt(1) by auto
    have "cw' = cw2\<lparr>cw_file := Some (j, True)\<rparr>" "fs' = fs3"
      using r k2 False mb m b o j path by (simp_all add: rotateIfNeeded_def Let_def fs2_def)
    then show ?thesis using rt(2-4) j k2 b m h1 by (simp add: cap_ok_def path n)
  qed
  then show "cap_ok cw' fs'" "suffix (log_held fs' path n) (log_held fs path n @ d)"
    "int (length (file_text fs' path)) < ?m" by simp_all
qed

lemma captures_disk:
  "cap_ok cw fs \<Longrightarrow> permissive os \<Longrightarrow> captures os ps cw fs = (cw', fs', ds) \<Longrightarrow>
   path = cc_Logfile (cw_config cw) \<Longrightarrow> n = nat (cc_Backups (cw_config cw)) \<Longrightarrow>
   suffix (log_held fs' path n) (log_held fs path n @ concat ds) \<and>
   (ps \<noteq> [] \<longrightarrow> int (length (file_text fs' path)) < ParseSize (cc_MaxBytes (cw_config cw)))"
proof (induction ps arbitrary: cw fs ds)
  case (Cons p ps)
  obtain cw1 fs1 calls d where c: "Capture os p cw fs = (cw1, fs1, calls, d)" by (metis prod_cases4)
  obtain ds1 where r: "captures os ps cw1 fs1 = (cw', fs', ds1)" "ds = d # ds1"
    using Cons.prems(3) c by (auto split: prod.splits)
  note f = Capture_disk [OF Cons.prems(1,2) c Cons.prems(4,5)]
  have cfg: "cw_config cw1 = cw_config cw" using Capture_ring [OF c] by simp
  note IH = Cons.IH [OF f(1) Cons.prems(2) r(1), unfolded cfg, OF Cons.prems(4,5)]
  have "suffix (log_held fs1 path n @ concat ds1) ((log_held fs path n @ d) @ concat ds1)"
    using f(2) by (auto simp: suffix_def)
  then have "suffix (log_held fs' path n) (log_held fs path n @ concat ds)"
    using IH r(2) suffix_order.trans by fastforce
  moreover have "int (length (file_text fs' path)) < ParseSize (cc_MaxBytes (cw_config cw))"
    using IH f(3) r(1) by (cases ps) auto
  ultimately show ?case by simp
qed simp

text \<open>
  C26 (invariant).  Logging with rotation never loses, reorders or duplicates output in the
  middle: on a permissive file system, after any captures the backups from the oldest to the
  newest followed by the log file are a suffix of what they were before followed by the captured
  data, and the log file is smaller than \<open>maxbytes\<close>.
\<close>

theorem rotated_log_is_suffix_of_output:
  assumes "cap_ok cw fs" and "permissive os" and "captures os ps cw fs = (cw', fs', ds)" and "ps \<noteq> []"
  shows "suffix (log_held fs' (cc_Logfile (cw_config cw)) (nat (cc_Backups (cw_config cw))))
     (log_held fs (cc_Logfile (cw_config cw)) (nat (cc_Backups (cw_config cw))) @ concat ds) \<and>
   int (length (file_text fs' (cc_Logfile (cw_config cw)))) < ParseSize (cc_MaxBytes (cw_config cw))"
  using captures_disk [OF assms(1-3) refl refl] assms(4) by simp

definition sample_writer :: CaptureWriter where
  "sample_writer = \<lparr>cw_config = \<lparr>cc_ProcessName = ''web'', cc_Stream = ''stdout'', cc_Logfile = ''log'',
       cc_RedirectStderr = False, cc_StripAnsi = False, cc_MaxBytes = ''4'', cc_Backups = 2\<rparr>,
     cw_file = Some (0, True), cw_handlers = [], cw_ringBuf = NewRingBuffer 8, cw_stripper = []\<rparr>"

lemma sample_fs_wf: "fs_wf sample_fs"
  by (auto simp: fs_wf_def sample_fs_def split: if_splits)

theorem rotated_log_is_suffix_of_output_witness:
  "case captures open_os [''ab'', ''cdef''] sample_writer sample_fs of (cw', fs', ds) \<Rightarrow>
     suffix (log_held fs' ''log'' 2) (log_held sample_fs ''log'' 2 @ concat ds)"
proof -
  obtain cw' fs' ds where c: "captures open_os [''ab'', ''cdef''] sample_writer sample_fs = (cw', fs', ds)"
    by (metis prod_cases3)
  have "ParseSize ''4'' = 4" by code_simp
  then have "cap_ok sample_writer sample_fs"
    using sample_fs_wf by (simp add: cap_ok_def sample_writer_def) (simp add: sample_fs_def)
  moreover have "permissive open_os" by (simp add: permissive_def open_os_def)
  moreover have "cc_Logfile (cw_config sample_writer) = ''log''"
    "nat (cc_Backups (cw_config sample_writer)) = 2" by (simp_all add: sample_writer_def)
  ultimately show ?thesis
    using rotated_log_is_suffix_of_output [OF _ _ c] unfolding c prod.case by simp
qed

theorem read_tail_is_captured_tail_witness:
  "case NewCaptureWriter open_os (cw_config sample_writer) sample_fs of (cw, fs, err) \<Rightarrow>
     case captures open_os [''ab'', ''cdef''] cw fs of (cw', fs', ds) \<Rightarrow>
       ReadTail 3 cw' = take_last 3 (concat ds)"
proof -
  obtain cw fs err where n: "NewCaptureWriter open_os (cw_config sample_writer) sample_fs = (cw, fs, err)"
    by (metis prod_cases3)
  obtain cw' fs' ds where c: "captures open_os [''ab'', ''cdef''] cw fs = (cw', fs', ds)"
    by (metis prod_cases3)
  show ?thesis using read_tail_is_captured_tail [OF n c, of 3] unfolding n c prod.case by simp
qed

section \<open>A failed reopen\<close>

lemma closed_handle:
  assumes "cw_file cw = Some (i, False)"
  shows "EnsureOpen os cw fs = (cw, fs, None)"
    and "fst (snd (Capture os p cw fs)) = fs" and "cw_file (fst (Capture os p cw fs)) = Some (i, False)"
proof -
  obtain cw1 d where c: "capture_strip p cw = (cw1, d)" by fastforce
  have f: "cw_file cw1 = Some (i, False)" using capture_strip_keeps [OF c] assms by simp
  show "EnsureOpen os cw fs = (cw, fs, None)" using assms by (simp add: EnsureOpen_def)
  show "fst (snd (Capture os p cw fs)) = fs" and "cw_file (fst (Capture os p cw fs)) = Some (i, False)"
    using f c by (simp_all add: Capture_def capture_file_def rotateIfNeeded_def Let_def case_prod_beta)
qed

lemma closed_handle_captures:
  "cw_file cw = Some (i, False) \<Longrightarrow> captures os ps cw fs = (cw', fs', ds) \<Longrightarrow>
   fs' = fs \<and> cw_file cw' = Some (i, False)"
proof (induction ps arbitrary: cw fs ds)
  case (Cons p ps)
  obtain cw1 fs1 calls d where c: "Capture os p cw fs = (cw1, fs1, calls, d)" by (metis prod_cases4)
  obtain ds1 where r: "captures os ps cw1 fs1 = (cw', fs', ds1)" using Cons.prems(2) c by (auto split: prod.splits)
  show ?case using Cons.IH [OF _ r] closed_handle(2,3) [OF Cons.prems(1), of os p fs] c by simp
qed simp

text \<open>
  When reopening the log file fails, the writer keeps the handle it has closed: from then
  on captured output never reaches any file, and the check before each start still finds the file
  open and reports no error, whatever the operating system permits by then.
\<close>

theorem failed_reopen_loses_the_log:
  assumes "Reopen os cw fs = (cw1, fs1, Some err)" and "captures os' ps cw1 fs1 = (cw2, fs2, ds)"
  shows "fs2 = fs1 \<and> EnsureOpen os' cw2 fs2 = (cw2, fs2, None)"
proof -
  obtain i where "cw_file cw1 = Some (i, False)"
    using assms(1) by (auto simp: Reopen_def Let_def split: option.splits prod.splits if_splits)
  from closed_handle_captures [OF this assms(2)] show ?thesis using closed_handle(1) by simp
qed

theorem failed_reopen_loses_the_log_witness:
  "case Reopen (open_os\<lparr>os_open := (\<lambda>_. False)\<rparr>) sample_writer sample_fs of (cw1, fs1, err) \<Rightarrow>
     case captures open_os [''lost''] cw1 fs1 of (cw2, fs2, ds) \<Rightarrow>
       err = Some ''log'' \<and> fs2 = fs1 \<and> EnsureOpen open_os cw2 fs2 = (cw2, fs2, None)"
proof -
  obtain cw1 fs1 where r: "Reopen (open_os\<lparr>os_open := (\<lambda>_. False)\<rparr>) sample_writer sample_fs = (cw1, fs1, Some ''log'')"
    by (simp add: Reopen_def sample_writer_def openLogFile_def Let_def)
  obtain cw2 fs2 ds where c: "captures open_os [''lost''] cw1 fs1 = (cw2, fs2, ds)" by (metis prod_cases3)
  show ?thesis using failed_reopen_loses_the_log [OF r c] unfolding r c prod.case by blast
qed

end
