(* ===== verification/Manager_Model.thy ===== *)
theory Manager_Model
  imports Process_Safety Event_Bus Log_Capture
begin

text \<open>
  \<open>internal/process/manager.go\<close> and \<open>bulk.go\<close>: the manager of all processes, groups and capture
  writers.  Go maps that are ranged over are association lists.  A method that holds the
  manager's lock is one function.  Where the code waits for a process, the rest of the daemon
  goes on: \<open>world\<close> supplies the successive managers that the polls see.
\<close>

section \<open>Expanding numprocs\<close>

definition num_pattern :: string where "num_pattern = ''%(process_num)d''"

lemma index_of_split: "index_of sub s = Some i \<Longrightarrow> s = take i s @ sub @ drop (i + length sub) s"
proof (induction s arbitrary: i)
  case Nil
  then show ?case by (auto split: if_splits)
next
  case (Cons c cs)
  show ?case
  proof (cases "has_prefix (c # cs) sub")
    case True
    then show ?thesis using Cons.prems by (auto simp: has_prefix_prefix prefix_def)
  next
    case False
    then show ?thesis using Cons by auto
  qed
qed

lemma itoa_no_paren: "CHR ''('' \<notin> set (itoa n)"
  by (simp add: itoa_free)

text \<open>
  \<open>expandVar\<close> is only called with the pattern \<open>num_pattern\<close> and a number's decimal text, which
  is why its loop ends: each round removes a parenthesis.
\<close>

function expandVar :: "string \<Rightarrow> int \<Rightarrow> string" where
  "expandVar s n =
     (case index_of num_pattern s of
        None \<Rightarrow> s
      | Some idx \<Rightarrow> expandVar (take idx s @ itoa n @ drop (idx + length num_pattern) s) n)"
  by pat_completeness auto
termination
proof (relation "measure (\<lambda>(s, n). count_list s (CHR ''(''))", goal_cases)
  case (2 s n idx)
  have "count_list s (CHR ''('') = count_list (take idx s) (CHR ''('') + count_list num_pattern (CHR ''('') +
      count_list (drop (idx + length num_pattern) s) (CHR ''('')"
    using arg_cong [OF index_of_split [OF 2], of "\<lambda>s. count_list s (CHR ''('')"] by simp
  moreover have "count_list num_pattern (CHR ''('') = 1" by (simp add: num_pattern_def)
  moreover have "count_list (itoa n) (CHR ''('') = 0" using itoa_no_paren by simp
  ultimately show ?case by simp
qed simp

declare expandVar.simps [simp del]

definition instanceConfig :: "ProgramConfig \<Rightarrow> int \<Rightarrow> ProgramConfig" where
  "instanceConfig cfg num =
     cfg\<lparr>pc_Command := expandVar (pc_Command cfg) num, pc_Directory := expandVar (pc_Directory cfg) num,
        pc_StdoutLogfile := expandVar (pc_StdoutLogfile cfg) num,
        pc_StderrLogfile := expandVar (pc_StderrLogfile cfg) num, pc_User := expandVar (pc_User cfg) num,
        pc_Environment := map (\<lambda>(k, v). (k, expandVar v num)) (pc_Environment cfg)\<rparr>"

record ProcessInstance =
  pi_Name :: string
  pi_Group :: string
  pi_Config :: ProgramConfig

definition ExpandNumprocs :: "string \<Rightarrow> ProgramConfig \<Rightarrow> ProcessInstance list" where
  "ExpandNumprocs progName cfg =
     (let names = InstanceNames progName cfg in
      if pc_Numprocs cfg \<le> 1
      then [\<lparr>pi_Name = names ! 0, pi_Group = progName, pi_Config = cfg\<rparr>]
      else map (\<lambda>(k, name). \<lparr>pi_Name = name, pi_Group = progName,
               pi_Config = instanceConfig cfg (pc_NumprocsStart cfg + int k)\<rparr>)
             (zip [0..<length names] names))"

section \<open>The manager\<close>

record Group =
  gr_Name :: string
  gr_Processes :: "string list"
  gr_Priority :: int

record Manager =
  mg_processes :: "(string \<times> Process) list"
  mg_groups :: "(string \<times> Group) list"
  mg_captures :: "(string \<times> CaptureWriter) list"
  mg_shutdown :: bool
  mg_groupPriority :: "(string \<times> int) list"
  mg_fs :: FS
  mg_events :: "(event_type \<times> (string \<times> string) list) list"

definition NewManager :: "FS \<Rightarrow> Manager" where
  "NewManager fs = \<lparr>mg_processes = [], mg_groups = [], mg_captures = [], mg_shutdown = False,
     mg_groupPriority = [], mg_fs = fs, mg_events = []\<rparr>"

definition GetProcess :: "Manager \<Rightarrow> string \<Rightarrow> Process option" where
  "GetProcess m name = map_of (mg_processes m) name"

definition no_such_process :: "string \<Rightarrow> string" where
  "no_such_process name = ''no such process: '' @ name"

text \<open>Acting on a process through its pointer.\<close>

definition on_process :: "string \<Rightarrow> (Process \<Rightarrow> Process) \<Rightarrow> Manager \<Rightarrow> Manager" where
  "on_process name f m =
     m\<lparr>mg_processes := map (\<lambda>(n, p). (n, if n = name then f p else p)) (mg_processes m)\<rparr>"

section \<open>Loading a configuration\<close>

definition capture_config :: "string \<Rightarrow> string \<Rightarrow> ProgramConfig \<Rightarrow> CaptureConfig" where
  "capture_config name stream cfg =
     (let out = (stream = ''stdout'') in
      \<lparr>cc_ProcessName = name, cc_Stream = stream,
       cc_Logfile = (if out then pc_StdoutLogfile cfg else pc_StderrLogfile cfg),
       cc_RedirectStderr = False, cc_StripAnsi = pc_StripAnsi cfg,
       cc_MaxBytes = (if out then pc_StdoutLogfileMaxbytes cfg else pc_StderrLogfileMaxbytes cfg),
       cc_Backups = (if out then pc_StdoutLogfileBackups cfg else pc_StderrLogfileBackups cfg)\<rparr>)"

definition new_capture :: "OS \<Rightarrow> string \<Rightarrow> string \<Rightarrow> ProgramConfig \<Rightarrow> Manager \<Rightarrow> Manager" where
  "new_capture os name stream cfg m =
     (let (cw, fs, err) = NewCaptureWriter os (capture_config name stream cfg) (mg_fs m)
      in m\<lparr>mg_fs := fs, mg_captures := AList.update (name @ '':'' @ stream) cw (mg_captures m)\<rparr>)"

fun load_instances :: "OS \<Rightarrow> ProcessInstance list \<Rightarrow> Manager \<Rightarrow> Manager \<times> string list" where
  "load_instances os [] m = (m, [])"
| "load_instances os (inst # insts) m =
     (if GetProcess m (pi_Name inst) \<noteq> None then load_instances os insts m
      else
        let cfg = pi_Config inst;
            m1 = new_capture os (pi_Name inst) ''stdout'' cfg m;
            m2 = (if pc_RedirectStderr cfg then m1 else new_capture os (pi_Name inst) ''stderr'' cfg m1);
            p = NewProcess (pi_Name inst) (pi_Group inst) cfg (mg_shutdown m2);
            m3 = m2\<lparr>mg_processes := AList.update (pi_Name inst) p (mg_processes m2)\<rparr>;
            (m4, names) = load_instances os insts m3
        in (m4, pi_Name inst # names))"

fun load_programs :: "OS \<Rightarrow> (string \<times> ProgramConfig) list \<Rightarrow> Manager \<Rightarrow> Manager" where
  "load_programs os [] m = m"
| "load_programs os ((progName, progCfg) # ps) m =
     (let (m1, procNames) = load_instances os (ExpandNumprocs progName progCfg) m;
          m2 = (case map_of (mg_groups m1) progName of
                  Some _ \<Rightarrow> m1
                | None \<Rightarrow> m1\<lparr>mg_groups := AList.update progName
                    \<lparr>gr_Name = progName, gr_Processes = procNames, gr_Priority = pc_Priority progCfg\<rparr> (mg_groups m1)\<rparr>)
      in load_programs os ps m2)"

fun load_groups :: "(string \<times> GroupConfig) list \<Rightarrow> Manager \<Rightarrow> Manager" where
  "load_groups [] m = m"
| "load_groups ((groupName, groupCfg) # gs) m =
     (let prio = fold (\<lambda>prog. AList.update prog (gc_Priority groupCfg)) (gc_Programs groupCfg) (mg_groupPriority m);
          allProcs = concat (map (\<lambda>progName. case map_of (mg_groups m) progName of
                                     Some g \<Rightarrow> gr_Processes g | None \<Rightarrow> []) (gc_Programs groupCfg))
      in load_groups gs (m\<lparr>mg_groupPriority := prio,
           mg_groups := AList.update groupName
             \<lparr>gr_Name = groupName, gr_Processes = allProcs, gr_Priority = gc_Priority groupCfg\<rparr> (mg_groups m)\<rparr>))"

definition LoadConfig :: "OS \<Rightarrow> Config \<Rightarrow> Manager \<Rightarrow> Manager" where
  "LoadConfig os cfg m =
     load_groups (cf_Groups cfg) ((load_programs os (cf_Programs cfg) m)\<lparr>mg_groupPriority := []\<rparr>)"

section \<open>Output\<close>

text \<open>
  The handlers \<open>LoadConfig\<close> gives a process.  Data read from a pipe goes to the capture writer of its
  stream and, as captured, to the event bus; the stream of stderr is stdout with \<open>redirect_stderr\<close>.
\<close>

definition pipe_stream :: "ProgramConfig \<Rightarrow> string \<Rightarrow> string" where
  "pipe_stream cfg pipe = (if pc_RedirectStderr cfg then ''stdout'' else pipe)"

definition log_event :: "string \<Rightarrow> event_type" where
  "log_event stream = (if stream = ''stdout'' then ProcessLogStdout else ProcessLogStderr)"

definition on_output :: "OS \<Rightarrow> string \<Rightarrow> string \<Rightarrow> string \<Rightarrow> Manager \<Rightarrow> Manager" where
  "on_output os name stream data m =
     (case map_of (mg_captures m) (name @ '':'' @ stream) of
        None \<Rightarrow> m
      | Some cw \<Rightarrow>
          let (cw1, fs1, calls, out) = Capture os data cw (mg_fs m) in
          m\<lparr>mg_captures := AList.update (name @ '':'' @ stream) cw1 (mg_captures m), mg_fs := fs1,
            mg_events := mg_events m @
              (if out = [] then [] else [(log_event stream, [(''name'', name), (''data'', out)])])\<rparr>)"

text \<open>Before every spawn the log files that are not open are opened.\<close>

definition preSpawn :: "OS \<Rightarrow> string \<Rightarrow> Manager \<Rightarrow> Manager \<times> string option" where
  "preSpawn os name m =
     (let ensure = (\<lambda>stream (m, err). case err of
            Some _ \<Rightarrow> (m, err)
          | None \<Rightarrow>
              (case map_of (mg_captures m) (name @ '':'' @ stream) of
                 None \<Rightarrow> (m, None)
               | Some cw \<Rightarrow>
                   let (cw1, fs1, e) = EnsureOpen os cw (mg_fs m) in
                   (m\<lparr>mg_captures := AList.update (name @ '':'' @ stream) cw1 (mg_captures m), mg_fs := fs1\<rparr>,
                    map_option (\<lambda>x. ''cannot open log file for '' @ name @ '': '' @ x) e)))
      in ensure ''stderr'' (ensure ''stdout'' (m, None)))"

text \<open>
  The daemon's own output: with \<open>has_out\<close> and \<open>has_err\<close> the writers that are set, the handler maps a
  stream and a line to the writer and the stream and line that are formatted for it.
\<close>

datatype pass_writer = PassOut | PassErr

definition passthroughHandler ::
  "bool \<Rightarrow> bool \<Rightarrow> ProgramConfig \<Rightarrow> (string \<Rightarrow> string \<Rightarrow> (pass_writer \<times> string \<times> string) option) option" where
  "passthroughHandler has_out has_err cfg =
     (let toStdout = (pc_StdoutLogfile cfg = [] \<and> has_out);
          toStderr = (pc_StderrLogfile cfg = [] \<and> \<not> pc_RedirectStderr cfg \<and> has_err)
      in if \<not> toStdout \<and> \<not> toStderr then None
         else Some (\<lambda>stream line.
           let stream' = (if pc_RedirectStderr cfg then ''stdout'' else stream);
               line' = (if pc_StripAnsi cfg then StripANSI line else line)
           in if stream' = ''stdout'' \<and> toStdout then Some (PassOut, stream', line')
              else if stream' = ''stderr'' \<and> toStderr then Some (PassErr, stream', line')
              else None))"

section \<open>Ordering\<close>

definition priority_key :: "(string \<times> int) list \<Rightarrow> Process \<Rightarrow> int \<times> int \<times> string" where
  "priority_key gp p =
     (let own = pc_Priority (pr_config p) in
      case map_of gp (pr_group p) of
        Some g \<Rightarrow> (g, own, pr_name p)
      | None \<Rightarrow> (own, own, pr_name p))"

definition priority_less :: "(string \<times> int) list \<Rightarrow> bool \<Rightarrow> Process \<Rightarrow> Process \<Rightarrow> bool" where
  "priority_less gp ascending a b =
     (let (g1, o1, n1) = priority_key gp a;
          (g2, o2, n2) = priority_key gp b;
          lt = (if g1 \<noteq> g2 then g1 < g2 else if o1 \<noteq> o2 then o1 < o2 else n1 < n2)
      in if \<not> ascending then \<not> lt \<and> (g1 \<noteq> g2 \<or> o1 \<noteq> o2 \<or> n1 \<noteq> n2) else lt)"

definition sortByPriority :: "Manager \<Rightarrow> Process list \<Rightarrow> bool \<Rightarrow> Process list" where
  "sortByPriority m procs ascending = sort_slice (priority_less (mg_groupPriority m) ascending) procs"

definition sortedProcesses :: "Manager \<Rightarrow> bool \<Rightarrow> Process list" where
  "sortedProcesses m ascending = sortByPriority m (map snd (mg_processes m)) ascending"

definition groupProcessesSorted :: "Manager \<Rightarrow> Group \<Rightarrow> bool \<Rightarrow> Process list" where
  "groupProcessesSorted m g ascending =
     sortByPriority m (concat (map (\<lambda>pName. case GetProcess m pName of Some p \<Rightarrow> [p] | None \<Rightarrow> [])
       (gr_Processes g))) ascending"

section \<open>Starting and stopping\<close>

definition stoppable :: "State \<Rightarrow> bool" where
  "stoppable s \<longleftrightarrow> s = Running \<or> s = Starting \<or> s = Backoff"

definition terminal :: "State \<Rightarrow> bool" where
  "terminal s \<longleftrightarrow> s = Stopped \<or> s = Exited \<or> s = Fatal"

text \<open>The world of each process at the time it is acted on.\<close>

type_synonym envs = "string \<Rightarrow> penv"

definition autostart_one :: "envs \<Rightarrow> string \<Rightarrow> Process \<Rightarrow> Process" where
  "autostart_one e name p = (if pc_Autostart (pr_config p) = Some False then p else fst (Start (e name) p))"

definition AutostartAll :: "envs \<Rightarrow> Manager \<Rightarrow> Manager" where
  "AutostartAll e m =
     fold (\<lambda>p. on_process (pr_name p) (autostart_one e (pr_name p))) (sortedProcesses m True) m"

definition stop_if_active :: "envs \<Rightarrow> string \<Rightarrow> Process \<Rightarrow> Process" where
  "stop_if_active e name p = (if stoppable (pr_state p) then fst (Stop (e name) p) else p)"

text \<open>\<open>StopAll\<close> closes the channel every process of the manager watches.\<close>

definition StopAll :: "envs \<Rightarrow> Manager \<Rightarrow> Manager" where
  "StopAll e m =
     (let m1 = m\<lparr>mg_shutdown := True,
               mg_processes := map (\<lambda>(n, p). (n, p\<lparr>pr_shutdown := True\<rparr>)) (mg_processes m)\<rparr>
      in fold (\<lambda>p. on_process (pr_name p) (stop_if_active e (pr_name p))) (sortedProcesses m1 False) m1)"

definition StartGroup :: "envs \<Rightarrow> string \<Rightarrow> Manager \<Rightarrow> Manager \<times> string option" where
  "StartGroup e name m =
     (case map_of (mg_groups m) name of
        None \<Rightarrow> (m, Some (''no such group: '' @ name))
      | Some g \<Rightarrow>
          (fold (\<lambda>p. on_process (pr_name p) (\<lambda>q. fst (Start (e (pr_name p)) q))) (groupProcessesSorted m g True) m, None))"

definition StopGroup :: "envs \<Rightarrow> string \<Rightarrow> Manager \<Rightarrow> Manager \<times> string option" where
  "StopGroup e name m =
     (case map_of (mg_groups m) name of
        None \<Rightarrow> (m, Some (''no such group: '' @ name))
      | Some g \<Rightarrow>
          (fold (\<lambda>p. on_process (pr_name p) (stop_if_active e (pr_name p))) (groupProcessesSorted m g False) m, None))"

definition act_on :: "string \<Rightarrow> (Process \<Rightarrow> Process \<times> string option) \<Rightarrow> Manager \<Rightarrow> Manager \<times> string option" where
  "act_on name f m =
     (case GetProcess m name of
        None \<Rightarrow> (m, Some (no_such_process name))
      | Some p \<Rightarrow> (on_process name (\<lambda>q. fst (f q)) m, snd (f p)))"

definition manager_Start :: "envs \<Rightarrow> string \<Rightarrow> Manager \<Rightarrow> Manager \<times> string option" where
  "manager_Start e name m = act_on name (Start (e name)) m"

definition manager_Stop :: "envs \<Rightarrow> string \<Rightarrow> Manager \<Rightarrow> Manager \<times> string option" where
  "manager_Stop e name m = act_on name (Stop (e name)) m"

definition manager_Signal :: "envs \<Rightarrow> string \<Rightarrow> string \<Rightarrow> Manager \<Rightarrow> Manager \<times> string option" where
  "manager_Signal e name sig m = act_on name (Signal (e name) sig) m"

definition manager_WriteStdin :: "envs \<Rightarrow> string \<Rightarrow> string \<Rightarrow> Manager \<Rightarrow> Manager \<times> string option" where
  "manager_WriteStdin e name data m = act_on name (WriteStdin (e name) data) m"

text \<open>
  \<open>waitForStopped\<close>: the state is read, and until the deadline read again in every manager the
  polls see.  The result is the last manager seen and whether a terminal state was.
\<close>

fun waitForStopped :: "string \<Rightarrow> Manager \<Rightarrow> Manager list \<Rightarrow> Manager \<times> bool" where
  "waitForStopped name m polls =
     (if (case GetProcess m name of Some p \<Rightarrow> terminal (pr_state p) | None \<Rightarrow> False) then (m, True)
      else case polls of [] \<Rightarrow> (m, False) | m' # ms \<Rightarrow> waitForStopped name m' ms)"

declare waitForStopped.simps [simp del]

type_synonym world = "string \<Rightarrow> Manager \<Rightarrow> Manager list"

definition Restart :: "envs \<Rightarrow> world \<Rightarrow> string \<Rightarrow> Manager \<Rightarrow> Manager \<times> string option" where
  "Restart e world name m =
     (case GetProcess m name of
        None \<Rightarrow> (m, Some (no_such_process name))
      | Some p \<Rightarrow>
          if pr_state p = Running \<or> pr_state p = Starting
          then (case act_on name (Stop (e name)) m of
                  (m1, Some err) \<Rightarrow> (m1, Some err)
                | (m1, None) \<Rightarrow> act_on name (Start (e name)) (fst (waitForStopped name m1 (world name m1))))
          else act_on name (Start (e name)) m)"

fun wait_all :: "world \<Rightarrow> string list \<Rightarrow> Manager \<Rightarrow> Manager" where
  "wait_all world [] m = m"
| "wait_all world (n # ns) m =
     (case GetProcess m n of
        None \<Rightarrow> wait_all world ns m
      | Some _ \<Rightarrow> wait_all world ns (fst (waitForStopped n m (world n m))))"

definition RestartGroup :: "envs \<Rightarrow> world \<Rightarrow> string \<Rightarrow> Manager \<Rightarrow> Manager \<times> string option" where
  "RestartGroup e world name m =
     (case StopGroup e name m of
        (m1, Some err) \<Rightarrow> (m1, Some err)
      | (m1, None) \<Rightarrow>
          StartGroup e name
            (case map_of (mg_groups m1) name of
               Some g \<Rightarrow> wait_all world (gr_Processes g) m1
             | None \<Rightarrow> m1))"

definition ProcessByPid :: "Manager \<Rightarrow> nat \<Rightarrow> (string \<times> Process) option" where
  "ProcessByPid m pid = List.find (\<lambda>(n, p). pidLocked p = pid) (mg_processes m)"

section \<open>Groups and information\<close>

definition AddGroup :: "string \<Rightarrow> string list \<Rightarrow> int \<Rightarrow> Manager \<Rightarrow> Manager \<times> string option" where
  "AddGroup name procs priority m =
     (if map_of (mg_groups m) name \<noteq> None then (m, Some (''group '' @ name @ '' already exists''))
      else (m\<lparr>mg_groups := AList.update name
                \<lparr>gr_Name = name, gr_Processes = procs, gr_Priority = priority\<rparr> (mg_groups m),
              mg_events := mg_events m @ [(ProcessGroupAdded, [(''group'', name)])]\<rparr>, None))"

fun still_running :: "Manager \<Rightarrow> string list \<Rightarrow> string option" where
  "still_running m [] = None"
| "still_running m (pName # ns) =
     (case GetProcess m pName of
        Some p \<Rightarrow> if pr_state p = Running \<or> pr_state p = Starting then Some pName else still_running m ns
      | None \<Rightarrow> still_running m ns)"

definition RemoveGroup :: "string \<Rightarrow> Manager \<Rightarrow> Manager \<times> string option" where
  "RemoveGroup name m =
     (case map_of (mg_groups m) name of
        None \<Rightarrow> (m, Some (''no such group: '' @ name))
      | Some g \<Rightarrow>
          (case still_running m (gr_Processes g) of
             Some pName \<Rightarrow> (m, Some (''cannot remove group '' @ name @ '': process '' @ pName @ '' is still running''))
           | None \<Rightarrow>
               (m\<lparr>mg_processes := filter (\<lambda>(n, p). n \<notin> set (gr_Processes g)) (mg_processes m),
                  mg_groups := filter (\<lambda>(n, g). n \<noteq> name) (mg_groups m),
                  mg_events := mg_events m @ [(ProcessGroupRemoved, [(''group'', name)])]\<rparr>, None)))"

definition AddProcess :: "string \<Rightarrow> Process \<Rightarrow> Manager \<Rightarrow> Manager" where
  "AddProcess name p m = m\<lparr>mg_processes := AList.update name p (mg_processes m)\<rparr>"

definition RemoveProcess :: "string \<Rightarrow> Manager \<Rightarrow> Manager" where
  "RemoveProcess name m = m\<lparr>mg_processes := filter (\<lambda>(n, p). n \<noteq> name) (mg_processes m)\<rparr>"

text \<open>\<open>ReopenLogs\<close> and \<open>CloseLogs\<close>: the second component is the keys whose writer failed.\<close>

fun reopen_all :: "OS \<Rightarrow> (string \<times> CaptureWriter) list \<Rightarrow> FS \<Rightarrow> (string \<times> CaptureWriter) list \<times> FS \<times> string list" where
  "reopen_all os [] fs = ([], fs, [])"
| "reopen_all os ((key, cw) # cws) fs =
     (let (cw1, fs1, err) = Reopen os cw fs; (cws1, fs2, failed) = reopen_all os cws fs1
      in ((key, cw1) # cws1, fs2, (if err = None then failed else key # failed)))"

definition ReopenLogs :: "OS \<Rightarrow> Manager \<Rightarrow> Manager \<times> string list" where
  "ReopenLogs os m =
     (let (cws, fs, failed) = reopen_all os (mg_captures m) (mg_fs m)
      in (m\<lparr>mg_captures := cws, mg_fs := fs\<rparr>, failed))"

definition CloseLogs :: "Manager \<Rightarrow> Manager" where
  "CloseLogs m = m\<lparr>mg_captures := map (\<lambda>(key, cw). (key, fst (Close cw))) (mg_captures m)\<rparr>"

record ProcessInfo =
  in_Name :: string
  in_Group :: string
  in_State :: string
  in_StateCode :: int
  in_PID :: nat
  in_Uptime :: int
  in_Description :: string
  in_ExitStatus :: int
  in_ExitSignal :: string

definition processInfo :: "int \<Rightarrow> Process \<Rightarrow> ProcessInfo" where
  "processInfo now p =
     (let state = pr_state p;
          desc = (if pr_spawnErr p \<noteq> [] \<and> (state = Fatal \<or> state = Backoff) then pr_spawnErr p
                  else pc_Description (pr_config p))
      in \<lparr>in_Name = pr_name p, in_Group = pr_group p, in_State = state_name state,
          in_StateCode = state_code state, in_PID = pidLocked p, in_Uptime = Uptime now p,
          in_Description = desc, in_ExitStatus = pr_exitCode p, in_ExitSignal = pr_exitSignal p\<rparr>)"

definition manager_List :: "int \<Rightarrow> Manager \<Rightarrow> ProcessInfo list" where
  "manager_List now m =
     sort_slice (\<lambda>a b. in_Name a < in_Name b) (map (\<lambda>(n, p). processInfo now p) (mg_processes m))"

definition manager_Get :: "int \<Rightarrow> string \<Rightarrow> Manager \<Rightarrow> string + ProcessInfo" where
  "manager_Get now name m =
     (case GetProcess m name of None \<Rightarrow> Inl (no_such_process name) | Some p \<Rightarrow> Inr (processInfo now p))"

definition ListGroups :: "Manager \<Rightarrow> string list" where
  "ListGroups m = sort_strings (map fst (mg_groups m))"

definition ReadLog :: "string \<Rightarrow> string \<Rightarrow> int \<Rightarrow> Manager \<Rightarrow> string + string" where
  "ReadLog name stream len m =
     (case GetProcess m name of
        None \<Rightarrow> Inl (no_such_process name)
      | Some p \<Rightarrow>
          (case map_of (mg_captures m) (name @ '':'' @ stream) of
             None \<Rightarrow> Inr []
           | Some cw \<Rightarrow> Inr (ReadTail len cw)))"

end
