(* ===== verification/Manager_Bulk.thy ===== *)
theory Manager_Bulk
  imports Manager_Model
begin

text \<open>
  \<open>internal/process/bulk.go\<close>, \<open>reload.go\<close> and \<open>group.go\<close>: ordered bulk actions with a result per
  process, the difference of two configurations, and the application of a reload.
\<close>

section \<open>Bulk actions\<close>

datatype action_status = ActionOK | ActionSkipped | ActionError

record ActionResult =
  ar_Name :: string
  ar_Status :: action_status
  ar_Error :: string

definition errShuttingDown :: string where "errShuttingDown = ''daemon is shutting down''"

definition stopWaitMargin :: int where "stopWaitMargin = 5"

definition actionError :: "string \<Rightarrow> string \<Rightarrow> ActionResult" where
  "actionError name msg = \<lparr>ar_Name = name, ar_Status = ActionError, ar_Error = msg\<rparr>"

definition action_ok :: "string \<Rightarrow> ActionResult" where
  "action_ok name = \<lparr>ar_Name = name, ar_Status = ActionOK, ar_Error = []\<rparr>"

definition action_skipped :: "string \<Rightarrow> ActionResult" where
  "action_skipped name = \<lparr>ar_Name = name, ar_Status = ActionSkipped, ar_Error = []\<rparr>"

text \<open>\<open>late\<close> tells whether shutdown began while the process was being started.\<close>

definition startOne :: "envs \<Rightarrow> (string \<Rightarrow> bool) \<Rightarrow> string \<Rightarrow> Manager \<Rightarrow> Manager \<times> ActionResult" where
  "startOne e late name m =
     (if mg_shutdown m then (m, actionError name errShuttingDown)
      else case GetProcess m name of
        None \<Rightarrow> (m, actionError name (no_such_process name))
      | Some p \<Rightarrow>
          if pr_state p = Running \<or> pr_state p = Starting \<or> pr_state p = Backoff then (m, action_skipped name)
          else if pr_state p = Stopping then (m, actionError name ''process is stopping'')
          else
            let (m1, startErr) = act_on name (Start (e name)) m in
            if late name then (fst (act_on name (Stop (e name)) m1), actionError name errShuttingDown)
            else (case startErr of
                    Some err \<Rightarrow> (m1, actionError name err)
                  | None \<Rightarrow> (m1, action_ok name)))"

definition stopOne :: "envs \<Rightarrow> world \<Rightarrow> string \<Rightarrow> Manager \<Rightarrow> Manager \<times> ActionResult" where
  "stopOne e world name m =
     (case GetProcess m name of
        None \<Rightarrow> (m, actionError name (no_such_process name))
      | Some p \<Rightarrow>
          let wait = (\<lambda>m1. let waitSecs = pc_Stopwaitsecs (pr_config p) + stopWaitMargin;
                              (m2, stopped) = waitForStopped name m1 (world name m1)
                          in if stopped then (m2, action_ok name)
                             else (m2, actionError name (''stop timed out after '' @ itoa waitSecs @ ''s'')));
              stop = act_on name (Stop (e name)) m
          in case pr_state p of
               Stopped \<Rightarrow> (m, action_skipped name)
             | Exited \<Rightarrow> (m, action_skipped name)
             | Fatal \<Rightarrow> (m, action_skipped name)
             | Backoff \<Rightarrow>
                 (case stop of (m1, Some err) \<Rightarrow> (m1, actionError name err) | (m1, None) \<Rightarrow> (m1, action_ok name))
             | Stopping \<Rightarrow> wait m
             | _ \<Rightarrow>
                 (case stop of (m1, Some err) \<Rightarrow> (m1, actionError name err) | (m1, None) \<Rightarrow> wait m1))"

fun startPass ::
  "envs \<Rightarrow> (string \<Rightarrow> bool) \<Rightarrow> string list \<Rightarrow> string list \<Rightarrow> Manager \<Rightarrow> Manager \<times> ActionResult list" where
  "startPass e late [] skip m = (m, [])"
| "startPass e late (name # order) skip m =
     (if name \<in> set skip then startPass e late order skip m
      else let (m1, r) = startOne e late name m; (m2, rs) = startPass e late order skip m1 in (m2, r # rs))"

fun stopPass :: "envs \<Rightarrow> world \<Rightarrow> string list \<Rightarrow> Manager \<Rightarrow> Manager \<times> ActionResult list" where
  "stopPass e world [] m = (m, [])"
| "stopPass e world (name # order) m =
     (let (m1, r) = stopOne e world name m; (m2, rs) = stopPass e world order m1 in (m2, r # rs))"

definition orderedNames :: "Manager \<Rightarrow> bool \<Rightarrow> string list" where
  "orderedNames m ascending = map pr_name (sortedProcesses m ascending)"

definition StartAllOrdered :: "envs \<Rightarrow> (string \<Rightarrow> bool) \<Rightarrow> Manager \<Rightarrow> Manager \<times> ActionResult list" where
  "StartAllOrdered e late m = startPass e late (orderedNames m True) [] m"

definition StopAllOrdered :: "envs \<Rightarrow> world \<Rightarrow> Manager \<Rightarrow> Manager \<times> ActionResult list" where
  "StopAllOrdered e world m = stopPass e world (orderedNames m False) m"

text \<open>A Go map built from a list of results by their names; a later entry replaces an earlier one.\<close>

definition by_name :: "ActionResult list \<Rightarrow> string \<Rightarrow> ActionResult option" where
  "by_name rs = map_of (rev (map (\<lambda>r. (ar_Name r, r)) rs))"

text \<open>The zero \<open>ActionResult\<close> has an empty name and status; its status is not one the code sets.\<close>

definition RestartAllOrdered ::
  "envs \<Rightarrow> (string \<Rightarrow> bool) \<Rightarrow> world \<Rightarrow> Manager \<Rightarrow> Manager \<times> ActionResult option list" where
  "RestartAllOrdered e late world m =
     (let order = orderedNames m True;
          (m1, stops) = stopPass e world (rev order) m;
          stopFailed = filter (\<lambda>r. ar_Status r = ActionError) stops;
          (m2, started) = startPass e late order (map ar_Name stopFailed) m1
      in (m2, map (\<lambda>name. case by_name stopFailed name of Some r \<Rightarrow> Some r | None \<Rightarrow> by_name started name) order))"

section \<open>The difference of two configurations\<close>

text \<open>\<open>reflect.DeepEqual\<close>: the environment is a map, so the order of its pairs does not count.\<close>

definition same_program :: "ProgramConfig \<Rightarrow> ProgramConfig \<Rightarrow> bool" where
  "same_program a b \<longleftrightarrow> set (pc_Environment a) = set (pc_Environment b) \<and>
     a\<lparr>pc_Environment := []\<rparr> = b\<lparr>pc_Environment := []\<rparr>"

definition programChanged :: "ProgramConfig \<Rightarrow> ProgramConfig \<Rightarrow> bool" where
  "programChanged a b \<longleftrightarrow> \<not> same_program a b"

definition ConfigDiff :: "Config \<Rightarrow> Config \<Rightarrow> string list \<times> string list \<times> string list" where
  "ConfigDiff old new =
     (let o_ps = cf_Programs old; n_ps = cf_Programs new in
      (sort_strings (filter (\<lambda>name. map_of o_ps name = None) (map fst n_ps)),
       sort_strings (map fst (filter (\<lambda>(name, newCfg). case map_of o_ps name of
          Some oldCfg \<Rightarrow> programChanged oldCfg newCfg | None \<Rightarrow> False) n_ps)),
       sort_strings (filter (\<lambda>name. map_of n_ps name = None) (map fst o_ps))))"

definition spawnSettings :: "ProgramConfig \<Rightarrow> ProgramConfig" where
  "spawnSettings cfg =
     cfg\<lparr>pc_Priority := 0, pc_Autostart := None, pc_Autorestart := [], pc_Startsecs := 0,
        pc_Startretries := 0, pc_Exitcodes := [], pc_Stopsignal := [], pc_Stopwaitsecs := 0,
        pc_Stopasgroup := False, pc_Killasgroup := False, pc_Description := []\<rparr>"

definition needsRestart :: "ProgramConfig \<Rightarrow> ProgramConfig \<Rightarrow> bool" where
  "needsRestart oldProg newProg \<longleftrightarrow> \<not> same_program (spawnSettings oldProg) (spawnSettings newProg)"

section \<open>Applying a reload\<close>

definition programProcesses :: "Manager \<Rightarrow> string \<Rightarrow> Process list" where
  "programProcesses m prog =
     sort_slice (\<lambda>a b. pr_name a < pr_name b) (filter (\<lambda>p. pr_group p = prog) (map snd (mg_processes m)))"

definition updateInPlace :: "string \<Rightarrow> ProgramConfig \<Rightarrow> Manager \<Rightarrow> Manager" where
  "updateInPlace prog progCfg m =
     (let byName = map (\<lambda>inst. (pi_Name inst, pi_Config inst)) (rev (ExpandNumprocs prog progCfg));
          m1 = fold (\<lambda>p. case map_of byName (pr_name p) of
                     Some cfg \<Rightarrow> on_process (pr_name p) (UpdateConfig cfg)
                   | None \<Rightarrow> (\<lambda>x. x)) (programProcesses m prog) m
      in m1\<lparr>mg_groups := map (\<lambda>(n, g). (n, if n = prog then g\<lparr>gr_Priority := pc_Priority progCfg\<rparr> else g))
             (mg_groups m1)\<rparr>)"

fun reload_in_place :: "Config \<Rightarrow> Config \<Rightarrow> string list \<Rightarrow> Manager \<Rightarrow> Manager \<times> string list" where
  "reload_in_place old new [] m = (m, [])"
| "reload_in_place old new (prog # changed) m =
     (let newProg = (case map_of (cf_Programs new) prog of Some c \<Rightarrow> c | None \<Rightarrow> zero_program);
          oldProg = (case map_of (cf_Programs old) prog of Some c \<Rightarrow> c | None \<Rightarrow> zero_program) in
      if needsRestart oldProg newProg
      then let (m1, restart) = reload_in_place old new changed m in (m1, prog # restart)
      else reload_in_place old new changed (updateInPlace prog newProg m))"

text \<open>The loop over the processes of the retiring programs, with one action for each.\<close>

fun for_programs :: "(string \<Rightarrow> Process \<Rightarrow> Process) \<Rightarrow> string list \<Rightarrow> Manager \<Rightarrow> Manager" where
  "for_programs f [] m = m"
| "for_programs f (prog # progs) m =
     for_programs f progs (fold (\<lambda>p. on_process (pr_name p) (f (pr_name p))) (programProcesses m prog) m)"

text \<open>The waits: the programs of which a process does not stop in time.\<close>

fun wait_program :: "world \<Rightarrow> string list \<Rightarrow> Manager \<Rightarrow> Manager \<times> bool" where
  "wait_program world [] m = (m, True)"
| "wait_program world (n # ns) m =
     (let (m1, ok) = waitForStopped n m (world n m); (m2, ok') = wait_program world ns m1 in (m2, ok \<and> ok'))"

fun wait_programs :: "world \<Rightarrow> string list \<Rightarrow> Manager \<Rightarrow> Manager \<times> string list" where
  "wait_programs world [] m = (m, [])"
| "wait_programs world (prog # progs) m =
     (let (m1, ok) = wait_program world (map pr_name (programProcesses m prog)) m;
          (m2, stuck) = wait_programs world progs m1
      in (m2, if ok then stuck else prog # stuck))"

definition removeProgram :: "string \<Rightarrow> bool \<Rightarrow> Manager \<Rightarrow> Manager" where
  "removeProgram prog publish m =
     (let gone = map fst (filter (\<lambda>(n, p). pr_group p = prog) (mg_processes m));
          keys = concat (map (\<lambda>n. [n @ '':stdout'', n @ '':stderr'']) gone)
      in m\<lparr>mg_processes := filter (\<lambda>(n, p). pr_group p \<noteq> prog) (mg_processes m),
           mg_captures := filter (\<lambda>(key, cw). key \<notin> set keys) (mg_captures m),
           mg_groups := filter (\<lambda>(n, g). n \<noteq> prog) (mg_groups m),
           mg_events := mg_events m @ (if publish then [(ProcessGroupRemoved, [(''group'', prog)])] else [])\<rparr>)"

definition removeStaleGroups :: "Config \<Rightarrow> string list \<Rightarrow> Manager \<Rightarrow> Manager" where
  "removeStaleGroups cfg keep m =
     m\<lparr>mg_groups := filter (\<lambda>(n, g). map_of (cf_Programs cfg) n \<noteq> None \<or> map_of (cf_Groups cfg) n \<noteq> None \<or>
        n \<in> set keep) (mg_groups m)\<rparr>"

definition start_one_of :: "envs \<Rightarrow> bool \<Rightarrow> string \<Rightarrow> Process \<Rightarrow> Process" where
  "start_one_of e honourAutostart name p =
     (if honourAutostart \<and> pc_Autostart (pr_config p) = Some False then p else fst (Start (e name) p))"

definition startProgram :: "envs \<Rightarrow> bool \<Rightarrow> string \<Rightarrow> Manager \<Rightarrow> Manager" where
  "startProgram e honourAutostart prog m =
     (if mg_shutdown m then m
      else fold (\<lambda>p. on_process (pr_name p) (start_one_of e honourAutostart (pr_name p))) (programProcesses m prog) m)"

text \<open>The result is the manager and the stuck programs.\<close>

definition ApplyReload ::
  "OS \<Rightarrow> envs \<Rightarrow> world \<Rightarrow> Config \<Rightarrow> Config \<Rightarrow> string list \<Rightarrow> string list \<Rightarrow> string list \<Rightarrow> Manager
     \<Rightarrow> Manager \<times> string list" where
  "ApplyReload os e world oldCfg newCfg added changed removed m =
     (let (m1, restart) = reload_in_place oldCfg newCfg changed m;
          wasActive = filter (\<lambda>prog. list_ex (\<lambda>p. stoppable (pr_state p)) (programProcesses m1 prog)) restart;
          retiring = removed @ restart;
          m2 = for_programs (\<lambda>_. Retire) retiring m1;
          m3 = for_programs (stop_if_active e) retiring m2;
          (m4, stuck) = wait_programs world retiring m3;
          m5 = fold (\<lambda>prog. if prog \<in> set stuck then (\<lambda>x. x) else removeProgram prog (prog \<in> set removed)) retiring m4;
          m6 = LoadConfig os newCfg (removeStaleGroups newCfg stuck m5);
          m7 = fold (startProgram e False) (filter (\<lambda>prog. prog \<notin> set stuck \<and> prog \<in> set wasActive) restart) m6;
          m8 = fold (startProgram e True) added m7
      in (m8, sort_strings (remdups stuck)))"

section \<open>Building groups\<close>

definition BuildHomogeneousGroups :: "(string \<times> Process list) list \<Rightarrow> (string \<times> Group) list" where
  "BuildHomogeneousGroups programs =
     map (\<lambda>(progName, procs).
       (progName, \<lparr>gr_Name = progName, gr_Processes = sort_strings (map pr_name procs),
         gr_Priority = fold (\<lambda>p prio. if pc_Priority (pr_config p) < prio then pc_Priority (pr_config p) else prio)
           procs 999\<rparr>)) programs"

definition MergeHeterogeneousGroups ::
  "(string \<times> Group) list \<Rightarrow> (string \<times> Group) list \<Rightarrow> (string \<times> Group) list" where
  "MergeHeterogeneousGroups implicit explicit =
     fold (\<lambda>(name, g) result. if map_of explicit name \<noteq> None then result else AList.update name g result) implicit
       (fold (\<lambda>(name, g). AList.update (gr_Name g) g) explicit [])"

text \<open>\<open>ValidateGroupNameCollisions\<close> looks for a key that occurs twice among the keys of a map.\<close>

fun collision_loop :: "string list \<Rightarrow> string list \<Rightarrow> string option" where
  "collision_loop seen [] = None"
| "collision_loop seen (name # names) =
     (if name \<in> set seen then Some (''group name collision: '' @ go_quote name) else collision_loop (name # seen) names)"

definition ValidateGroupNameCollisions :: "(string \<times> Group) list \<Rightarrow> string option" where
  "ValidateGroupNameCollisions groups = collision_loop [] (map fst groups)"

text \<open>As the keys of a map are distinct it finds nothing.\<close>

lemma collision_loop_None: "distinct names \<Longrightarrow> set names \<inter> set seen = {} \<Longrightarrow> collision_loop seen names = None"
  by (induction names arbitrary: seen) auto

lemma no_group_collisions: "distinct (map fst groups) \<Longrightarrow> ValidateGroupNameCollisions groups = None"
  by (simp add: ValidateGroupNameCollisions_def collision_loop_None)

text \<open>An explicit group does not suppress the implicit groups of its members, only one of its own name.\<close>

lemma merge_keeps_member_groups:
  "map fst (MergeHeterogeneousGroups
     [(''web'', \<lparr>gr_Name = ''web'', gr_Processes = [''web''], gr_Priority = 1\<rparr>)]
     [(''all'', \<lparr>gr_Name = ''all'', gr_Processes = [''web''], gr_Priority = 1\<rparr>)]) = [''all'', ''web'']"
  by (simp add: MergeHeterogeneousGroups_def)

end
