(* ===== verification/Manager_Safety.thy ===== *)
theory Manager_Safety
  imports Manager_Bulk
begin

text \<open>
  What the manager guarantees: ordered passes act on every process exactly once and stop in the
  reverse of the start order, shutdown leaves nothing that could start again, bulk results
  account for every process, and a reload touches only the programs that differ.
\<close>

section \<open>A table of processes\<close>

text \<open>What the passes need of the table that holds the processes.\<close>

locale proc_table =
  fixes get :: "'m \<Rightarrow> string \<Rightarrow> Process option"
    and upd :: "string \<Rightarrow> (Process \<Rightarrow> Process) \<Rightarrow> 'm \<Rightarrow> 'm"
  assumes get_upd: "get (upd n f m) k = (if k = n then map_option f (get m k) else get m k)"
begin

lemma pass_other: "k \<notin> set ns \<Longrightarrow> get (fold (\<lambda>n. upd n (f n)) ns m) k = get m k"
  by (induction ns arbitrary: m) (auto simp: get_upd)

lemma pass_get:
  "distinct ns \<Longrightarrow>
   get (fold (\<lambda>n. upd n (f n)) ns m) k = (if k \<in> set ns then map_option (f k) (get m k) else get m k)"
proof (induction ns arbitrary: m)
  case (Cons n ns)
  then show ?case by (cases "k = n") (auto simp: get_upd pass_other)
qed simp

text \<open>A pass over all the names leaves every process in a state its action guarantees.\<close>

lemma pass_all:
  assumes "distinct ns" and "\<And>k. get m k \<noteq> None \<Longrightarrow> k \<in> set ns"
    and "\<And>k p. get m k = Some p \<Longrightarrow> P (f k p)"
  shows "get (fold (\<lambda>n. upd n (f n)) ns m) k = Some q \<Longrightarrow> P q"
  using assms pass_get [OF assms(1), of f m k] by (auto split: if_splits)

end

interpretation tbl: proc_table GetProcess on_process
proof
  fix n f and m :: Manager and k
  have "on_process n f m = m\<lparr>mg_processes := map (\<lambda>(k, p). (k, (\<lambda>k p. if k = n then f p else p) k p)) (mg_processes m)\<rparr>"
    by (simp add: on_process_def)
  then show "GetProcess (on_process n f m) k = (if k = n then map_option f (GetProcess m k) else GetProcess m k)"
    by (simp add: GetProcess_def map_of_map_snd) (cases "map_of (mg_processes m) k"; simp)
qed

section \<open>Names\<close>

lemma process_ids [simp]:
  "pr_name (emit x p) = pr_name p" "pr_group (emit x p) = pr_group p"
  "pr_name (go t p) = pr_name p" "pr_group (go t p) = pr_group p"
  "pr_name (set_sm m p) = pr_name p" "pr_group (set_sm m p) = pr_group p"
  "pr_name (publishStateLocked s p) = pr_name p" "pr_group (publishStateLocked s p) = pr_group p"
  "pr_name (new_stopCh p) = pr_name p" "pr_group (new_stopCh p) = pr_group p"
  "pr_name (close_stopCh p) = pr_name p" "pr_group (close_stopCh p) = pr_group p"
  "pr_name (send_stop p) = pr_name p" "pr_group (send_stop p) = pr_group p"
  "pr_name (Retire p) = pr_name p" "pr_group (Retire p) = pr_group p"
  "pr_name (UpdateConfig c p) = pr_name p" "pr_group (UpdateConfig c p) = pr_group p"
  by (simp_all add: emit_def go_def set_sm_def publishStateLocked_def new_stopCh_def close_stopCh_def
      send_stop_def Let_def Retire_def UpdateConfig_def split: option.splits)

lemma fail_ids [simp]:
  "pr_name (fst (failStartLocked e d err p)) = pr_name p" "pr_group (fst (failStartLocked e d err p)) = pr_group p"
  by (simp_all add: failStartLocked_def Let_def case_prod_beta)

lemma spawn_ids [simp]:
  "pr_name (fst (spawnLocked e p)) = pr_name p" "pr_group (fst (spawnLocked e p)) = pr_group p"
  by (simp_all add: spawnLocked_def failSpawnLocked_def Let_def split: option.splits sum.splits)

lemma start_stop_ids [simp]:
  "pr_name (fst (Start e p)) = pr_name p" "pr_group (fst (Start e p)) = pr_group p"
  "pr_name (fst (Stop e p)) = pr_name p" "pr_group (fst (Stop e p)) = pr_group p"
  using startLocked_cases [of e p]
  by (auto simp: Start_def Stop_def stop_live_def Let_def intro: stopLocked_cases [of p e])

definition mg_wf :: "Manager \<Rightarrow> bool" where
  "mg_wf m \<longleftrightarrow> distinct (map fst (mg_processes m)) \<and> (\<forall>(n, p)\<in>set (mg_processes m). pr_name p = n)"

lemma mg_wf_names: "mg_wf m \<Longrightarrow> map pr_name (map snd (mg_processes m)) = map fst (mg_processes m)"
  by (auto simp: mg_wf_def)

lemma mg_wf_get: "mg_wf m \<Longrightarrow> GetProcess m n = Some p \<longleftrightarrow> p \<in> set (map snd (mg_processes m)) \<and> pr_name p = n"
  by (force simp: mg_wf_def GetProcess_def)

lemma mg_wf_on_process [kahi_inv]:
  "mg_wf m \<Longrightarrow> (\<And>p. pr_name (f p) = pr_name p) \<Longrightarrow> mg_wf (on_process n f m)"
proof -
  assume w: "mg_wf m" and f: "\<And>p. pr_name (f p) = pr_name p"
  have "map fst (mg_processes (on_process n f m)) = map fst (mg_processes m)"
    by (simp add: on_process_def case_prod_beta comp_def)
  then have "distinct (map fst (mg_processes (on_process n f m)))" using w by (simp only: mg_wf_def)
  moreover have "\<forall>(k, p)\<in>set (mg_processes (on_process n f m)). pr_name p = k"
    using w f by (auto simp: mg_wf_def on_process_def split: if_splits)
  ultimately show "mg_wf (on_process n f m)" by (simp add: mg_wf_def)
qed

section \<open>Order\<close>

text \<open>The order of starts, as a relation on keys.\<close>

definition key_less :: "int \<times> int \<times> string \<Rightarrow> int \<times> int \<times> string \<Rightarrow> bool" where
  "key_less a b \<longleftrightarrow> (case a of (g1, o1, n1) \<Rightarrow> case b of (g2, o2, n2) \<Rightarrow>
     g1 < g2 \<or> (g1 = g2 \<and> (o1 < o2 \<or> (o1 = o2 \<and> n1 < n2))))"

lemma key_less_trans: "key_less a b \<Longrightarrow> key_less b c \<Longrightarrow> key_less a c"
  by (auto simp: key_less_def split: prod.splits)

lemma key_less_irrefl: "\<not> key_less a a"
  by (auto simp: key_less_def split: prod.splits)

lemma key_less_total: "a \<noteq> b \<Longrightarrow> key_less a b \<or> key_less b a"
  by (auto simp: key_less_def split: prod.splits)

lemma priority_less_up: "priority_less gp True a b \<longleftrightarrow> key_less (priority_key gp a) (priority_key gp b)"
  by (auto simp: priority_less_def key_less_def Let_def split: prod.splits)

lemma priority_less_down: "priority_less gp False a b \<longleftrightarrow> key_less (priority_key gp b) (priority_key gp a)"
  by (auto simp: priority_less_def key_less_def Let_def split: prod.splits)

lemma priority_key_name: "priority_key gp a = priority_key gp b \<Longrightarrow> pr_name a = pr_name b"
  by (auto simp: priority_key_def Let_def split: option.splits)

lemma sorted_processes:
  assumes "mg_wf m"
  shows "sorted_wrt (priority_less (mg_groupPriority m) asc) (sortedProcesses m asc)"
    and "distinct (map pr_name (sortedProcesses m asc))"
    and "set (sortedProcesses m asc) = set (map snd (mg_processes m))"
proof -
  have d: "distinct (map pr_name (map snd (mg_processes m)))"
    unfolding mg_wf_names [OF assms] using assms by (simp add: mg_wf_def)
  then have inj: "inj_on pr_name (set (map snd (mg_processes m)))" and d': "distinct (map snd (mg_processes m))"
    by (simp_all only: distinct_map)
  have tot: "priority_less (mg_groupPriority m) asc a b \<or> priority_less (mg_groupPriority m) asc b a"
    if "a \<in> set (map snd (mg_processes m))" "b \<in> set (map snd (mg_processes m))" "a \<noteq> b" for a b
  proof -
    have "pr_name a \<noteq> pr_name b" using inj that by (auto dest: inj_onD)
    then have "priority_key (mg_groupPriority m) a \<noteq> priority_key (mg_groupPriority m) b"
      using priority_key_name by blast
    then show ?thesis using key_less_total by (cases asc) (auto simp: priority_less_up priority_less_down)
  qed
  have tr: "priority_less gp asc a b \<Longrightarrow> priority_less gp asc b c \<Longrightarrow> priority_less gp asc a c" for gp a b c
    by (cases asc) (auto simp: priority_less_up priority_less_down intro: key_less_trans)
  show "sorted_wrt (priority_less (mg_groupPriority m) asc) (sortedProcesses m asc)"
    unfolding sortedProcesses_def sortByPriority_def by (rule sorted_sort_slice [OF tr tot d'])
  show "set (sortedProcesses m asc) = set (map snd (mg_processes m))"
    by (simp add: sortedProcesses_def sortByPriority_def)
  then have "inj_on pr_name (set (sortedProcesses m asc))" using inj by simp
  moreover have "distinct (sortedProcesses m asc)" using d' by (simp add: sortedProcesses_def sortByPriority_def)
  ultimately show "distinct (map pr_name (sortedProcesses m asc))" by (simp add: distinct_map)
qed

text \<open>
  Processes are stopped in exactly the reverse of the order they are started in,
  and that order is by group priority, then own priority, then name, over all processes.
\<close>

theorem stop_order_is_reverse_start_order:
  assumes "mg_wf m"
  shows "orderedNames m False = rev (orderedNames m True) \<and>
     sorted_wrt (\<lambda>a b. key_less (priority_key (mg_groupPriority m) a) (priority_key (mg_groupPriority m) b))
       (sortedProcesses m True) \<and>
     set (orderedNames m True) = set (map fst (mg_processes m))"
proof -
  let ?lt = "\<lambda>a b. key_less (priority_key (mg_groupPriority m) a) (priority_key (mg_groupPriority m) b)"
  have up: "sorted_wrt ?lt (sortedProcesses m True)"
    using sorted_processes(1) [OF assms, of True] by (simp add: priority_less_up [abs_def])
  have "sorted_wrt (\<lambda>a b. ?lt b a) (sortedProcesses m False)"
    using sorted_processes(1) [OF assms, of False] by (simp add: priority_less_down [abs_def])
  then have "sorted_wrt ?lt (rev (sortedProcesses m False))" by (simp add: sorted_wrt_rev)
  then have "rev (sortedProcesses m False) = sortedProcesses m True"
    using up key_less_trans key_less_irrefl sorted_processes(3) [OF assms]
    by (intro sorted_wrt_unique [where lt = ?lt]) auto
  then have "sortedProcesses m False = rev (sortedProcesses m True)" by (metis rev_rev_ident)
  moreover have "set (orderedNames m True) = set (map fst (mg_processes m))"
  proof -
    have "set (orderedNames m True) = set (map pr_name (map snd (mg_processes m)))"
      using sorted_processes(3) [OF assms, of True] by (simp add: orderedNames_def image_image)
    then show ?thesis by (simp only: mg_wf_names [OF assms])
  qed
  ultimately show ?thesis using up by (simp add: orderedNames_def rev_map)
qed

section \<open>Passes\<close>

lemma fold_names: "fold (\<lambda>p. on_process (pr_name p) (f (pr_name p))) ps m = fold (\<lambda>n. on_process n (f n)) (map pr_name ps) m"
  by (induction ps arbitrary: m) auto

lemma ordered_names_all:
  assumes "mg_wf m"
  shows "distinct (orderedNames m asc)" and "GetProcess m k \<noteq> None \<longleftrightarrow> k \<in> set (orderedNames m asc)"
proof -
  show "distinct (orderedNames m asc)" using sorted_processes(2) [OF assms] by (simp add: orderedNames_def)
  have "set (orderedNames m asc) = set (map pr_name (map snd (mg_processes m)))"
    using sorted_processes(3) [OF assms] by (simp add: orderedNames_def image_image)
  then have "set (orderedNames m asc) = set (map fst (mg_processes m))"
    by (simp only: mg_wf_names [OF assms])
  then show "GetProcess m k \<noteq> None \<longleftrightarrow> k \<in> set (orderedNames m asc)"
    by (simp add: GetProcess_def map_of_eq_None_iff)
qed

lemma pass_in_order:
  assumes "mg_wf m"
  shows "GetProcess (fold (\<lambda>p. on_process (pr_name p) (f (pr_name p))) (sortedProcesses m asc) m) k =
     map_option (f k) (GetProcess m k)"
proof -
  have "GetProcess (fold (\<lambda>n. on_process n (f n)) (orderedNames m asc) m) k =
      (if k \<in> set (orderedNames m asc) then map_option (f k) (GetProcess m k) else GetProcess m k)"
    by (rule tbl.pass_get [OF ordered_names_all(1) [OF assms]])
  moreover have "k \<notin> set (orderedNames m asc) \<Longrightarrow> GetProcess m k = None"
    using ordered_names_all(2) [OF assms, of k asc] by blast
  ultimately show ?thesis by (auto simp: fold_names orderedNames_def)
qed

text \<open>
  At daemon startup every process is started exactly once in its own world, except
  those with \<open>autostart = false\<close>, which are not touched; no process is skipped or started twice.
\<close>

theorem autostart_starts_each_once:
  assumes "mg_wf m"
  shows "GetProcess (AutostartAll e m) name =
     map_option (\<lambda>p. if pc_Autostart (pr_config p) = Some False then p else fst (Start (e name) p)) (GetProcess m name)"
  unfolding AutostartAll_def pass_in_order [OF assms]
  by (rule arg_cong [where f = "\<lambda>f. map_option f (GetProcess m name)"]) (simp add: fun_eq_iff autostart_one_def)

lemma stop_settles:
  assumes "pinv p" shows "pr_state (stop_if_active e n p) \<in> {Stopping, Stopped, Exited, Fatal}"
proof (cases "stoppable (pr_state p)")
  case True
  show ?thesis
  proof (cases rule: stopLocked_cases [of p "e n"])
    case (live m)
    then show ?thesis using True stop_live_fields(1) [OF live(2)] by (simp add: stop_if_active_def Stop_def)
  qed (use True in \<open>auto simp: stop_if_active_def Stop_def stoppable_def\<close>)
next
  case False
  then show ?thesis by (cases "pr_state p") (auto simp: stop_if_active_def stoppable_def)
qed

lemma StopAll_get:
  assumes "mg_wf m"
  shows "GetProcess (StopAll e m) name =
     map_option (\<lambda>p. stop_if_active e name (p\<lparr>pr_shutdown := True\<rparr>)) (GetProcess m name)"
proof -
  let ?m = "m\<lparr>mg_shutdown := True, mg_processes := map (\<lambda>(n, p). (n, p\<lparr>pr_shutdown := True\<rparr>)) (mg_processes m)\<rparr>"
  have "mg_wf ?m" using assms by (auto simp: mg_wf_def comp_def case_prod_beta)
  moreover have "GetProcess ?m name = map_option (\<lambda>p. p\<lparr>pr_shutdown := True\<rparr>) (GetProcess m name)"
    by (simp add: GetProcess_def map_of_map_snd)
  ultimately show ?thesis
    by (simp add: StopAll_def Let_def pass_in_order option.map_comp comp_def)
qed


section \<open>Bulk results\<close>

lemma result_names [simp]:
  "ar_Name (actionError n e) = n" "ar_Name (action_ok n) = n" "ar_Name (action_skipped n) = n"
  by (simp_all add: actionError_def action_ok_def action_skipped_def)

lemma startOne_name [simp]: "ar_Name (snd (startOne e late n m)) = n"
proof (cases "GetProcess m n")
  case (Some p)
  obtain m1 r where "act_on n (Start (e n)) m = (m1, r)" by fastforce
  then show ?thesis using Some by (cases r) (simp_all add: startOne_def Let_def)
qed (simp add: startOne_def)

lemma stopOne_name [simp]: "ar_Name (snd (stopOne e world n m)) = n"
proof (cases "GetProcess m n")
  case (Some p)
  obtain m1 r where a: "act_on n (Stop (e n)) m = (m1, r)" by fastforce
  show ?thesis using Some a
    by (cases "pr_state p"; cases r) (simp_all add: stopOne_def Let_def case_prod_beta)
qed (simp add: stopOne_def)

lemma startPass_names: "map ar_Name (snd (startPass e late order skip m)) = filter (\<lambda>n. n \<notin> set skip) order"
  by (induction order arbitrary: m) (auto simp: Let_def case_prod_beta)

lemma stopPass_names: "map ar_Name (snd (stopPass e world order m)) = order"
  by (induction order arbitrary: m) (auto simp: Let_def case_prod_beta)

lemma by_name_name: "by_name rs n = Some r \<Longrightarrow> ar_Name r = n \<and> r \<in> set rs"
  by (auto simp: by_name_def dest!: map_of_SomeD)

lemma by_name_dom: "by_name rs n \<noteq> None \<longleftrightarrow> n \<in> ar_Name ` set rs"
  by (force simp: by_name_def map_of_eq_None_iff)

text \<open>
  Restarting everything accounts for every process: there is exactly one result
  per process, in start order; where the stop failed it is that failure, and the process is not
  started.
\<close>

theorem restart_all_reports_every_process:
  assumes "mg_wf m"
  shows "map (map_option ar_Name) (snd (RestartAllOrdered e late world m)) = map Some (orderedNames m True) \<and>
     (\<forall>r\<in>set (snd (stopPass e world (rev (orderedNames m True)) m)). ar_Status r = ActionError \<longrightarrow>
        Some r \<in> set (snd (RestartAllOrdered e late world m)))"
proof -
  define order where "order = orderedNames m True"
  obtain m1 stops where st: "stopPass e world (rev order) m = (m1, stops)" by fastforce
  define failed where "failed = filter (\<lambda>r. ar_Status r = ActionError) stops"
  obtain m2 started where sp: "startPass e late order (map ar_Name failed) m1 = (m2, started)" by fastforce
  let ?res = "\<lambda>n. case by_name failed n of Some r \<Rightarrow> Some r | None \<Rightarrow> by_name started n"
  have R: "snd (RestartAllOrdered e late world m) = map ?res order"
    by (simp add: RestartAllOrdered_def order_def [symmetric] st failed_def [symmetric] sp Let_def)
  have d: "distinct order" using ordered_names_all(1) [OF assms] by (simp add: order_def)
  have started: "ar_Name ` set started = set order - ar_Name ` set failed"
    using arg_cong [OF startPass_names [of e late order "map ar_Name failed" m1], of set] sp by auto
  have stops: "map ar_Name stops = rev order" using stopPass_names [of e world "rev order" m] st by simp
  have name: "map_option ar_Name (?res n) = Some n" if "n \<in> set order" for n
  proof (cases "by_name failed n")
    case None
    then have "n \<notin> ar_Name ` set failed" using by_name_dom by blast
    then have "by_name started n \<noteq> None" using that started by_name_dom by blast
    then show ?thesis using None by_name_name by fastforce
  qed (use by_name_name in fastforce)
  have "Some r \<in> set (map ?res order)" if "r \<in> set stops" "ar_Status r = ActionError" for r
  proof -
    have "distinct (map ar_Name stops)" using stops d by simp
    then have "distinct (map ar_Name failed)" by (simp add: failed_def distinct_map_filter)
    then have "by_name failed (ar_Name r) = Some r"
      using that by (auto simp: by_name_def failed_def comp_def rev_map [symmetric] intro!: map_of_is_SomeI)
    moreover have "ar_Name r \<in> set order" using that stops by (metis image_eqI set_map set_rev)
    ultimately show ?thesis by force
  qed
  then show ?thesis using name st by (simp add: R order_def [symmetric])
qed

section \<open>Configuration differences\<close>

lemma same_program_sym: "same_program a b = same_program b a"
  by (auto simp: same_program_def)

text \<open>
  The difference of two configurations is exact: the added programs are those only
  in the new one, the removed those only in the old one, the changed those in both with a different
  setting, each list is sorted, and no program is in two of them.
\<close>

theorem config_diff_partition:
  assumes "distinct (map fst (cf_Programs old))" and "distinct (map fst (cf_Programs new))"
    and "ConfigDiff old new = (added, changed, removed)"
  shows "(\<forall>n. n \<in> set added \<longleftrightarrow> map_of (cf_Programs old) n = None \<and> map_of (cf_Programs new) n \<noteq> None) \<and>
     (\<forall>n. n \<in> set removed \<longleftrightarrow> map_of (cf_Programs old) n \<noteq> None \<and> map_of (cf_Programs new) n = None) \<and>
     (\<forall>n. n \<in> set changed \<longleftrightarrow> (\<exists>a b. map_of (cf_Programs old) n = Some a \<and> map_of (cf_Programs new) n = Some b \<and>
        \<not> same_program a b)) \<and>
     sorted_wrt (<) added \<and> sorted_wrt (<) changed \<and> sorted_wrt (<) removed \<and>
     distinct (added @ changed @ removed)"
proof -
  let ?o = "cf_Programs old" and ?n = "cf_Programs new"
  have e: "added = sort_strings (filter (\<lambda>name. map_of ?o name = None) (map fst ?n))"
    "removed = sort_strings (filter (\<lambda>name. map_of ?n name = None) (map fst ?o))"
    "changed = sort_strings (map fst (filter (\<lambda>(name, newCfg). case map_of ?o name of
          Some oldCfg \<Rightarrow> programChanged oldCfg newCfg | None \<Rightarrow> False) ?n))"
    using assms(3) by (simp_all add: ConfigDiff_def Let_def)
  have dc: "distinct (map fst (filter P ?n))" for P using assms(2) by (simp add: distinct_map_filter)
  have a: "n \<in> set added \<longleftrightarrow> map_of ?o n = None \<and> map_of ?n n \<noteq> None" for n
    by (auto simp: e map_of_eq_None_iff)
  have r: "n \<in> set removed \<longleftrightarrow> map_of ?o n \<noteq> None \<and> map_of ?n n = None" for n
    by (auto simp: e map_of_eq_None_iff)
  have c: "n \<in> set changed \<longleftrightarrow> (\<exists>x y. map_of ?o n = Some x \<and> map_of ?n n = Some y \<and> \<not> same_program x y)" for n
  proof -
    have "(n, y) \<in> set ?n \<longleftrightarrow> map_of ?n n = Some y" for y using assms(2) by simp
    then show ?thesis by (force simp: e programChanged_def split: option.splits)
  qed
  have s: "sorted_wrt (<) added" "sorted_wrt (<) changed" "sorted_wrt (<) removed"
    unfolding e using assms(1,2) dc by (intro sorted_sort_strings; simp)+
  have "distinct xs" if "sorted_wrt (<) xs" for xs :: "string list" using that by (induction xs) auto
  then have "distinct (added @ changed @ removed)" using s a r c by auto
  then show ?thesis using a r c s by blast
qed

end
