(* ===== verification/Process_Runs.thy ===== *)
theory Process_Runs
  imports Process_Safety
begin

text \<open>
  Concrete runs of the process model: an interleaving in which the events lose a state, and the
  runs that show the hypotheses of the theorems of \<open>Process_Safety\<close> can hold.
\<close>

section \<open>A successful start\<close>

text \<open>A world at time \<open>now\<close> in which every spawn succeeds with the given pid.\<close>

definition up_env :: "int \<Rightarrow> nat \<Rightarrow> penv" where
  "up_env now pid = \<lparr>pe_now = now, pe_dir_ok = (\<lambda>_. True), pe_preSpawn = None, pe_euid = 1000, pe_uid = 1000,
     pe_environ = [''LANG=C''], pe_path = ''/bin'', pe_home = (\<lambda>_. None), pe_spawn = (\<lambda>_. Inr pid),
     pe_signal_ok = True, pe_stdin = (\<lambda>_. Some None)\<rparr>"

definition plain :: "ProgramConfig \<Rightarrow> bool" where
  "plain cfg \<longleftrightarrow> pc_Directory cfg = [] \<and> pc_Umask cfg = [] \<and> pc_User cfg = []"

lemma spawn_config_plain: "plain (pr_config p) \<Longrightarrow> \<exists>sc. spawn_config e p = Inr sc"
  by (cases "parseCommand p") (simp add: spawn_config_def plain_def ParseUmask_def)

definition fresh_start :: "int \<Rightarrow> StateMachine \<Rightarrow> StateMachine" where
  "fresh_start now m = m\<lparr>sm_manualStop := False, sm_state := Starting, sm_startedAt := now\<rparr>"

lemma Start_up:
  assumes "pr_state p = Stopped" and "\<not> pr_retired p" and "plain (pr_config p)"
    and "pc_Startsecs (pr_config p) \<noteq> 0"
  shows "\<exists>sc. fst (Start (up_env now pid) p) =
     go (WatchStart (pr_stopCh p)) (emit (Spawned sc pid)
       ((publishStateLocked Starting (set_sm (fresh_start now (pr_sm p)) p))
          \<lparr>pr_spawned := Some pid, pr_spawnErr := [], pr_startedAt := Some now\<rparr>))"
proof -
  let ?p = "publishStateLocked Starting (set_sm (fresh_start now (pr_sm p)) p)"
  have "plain (pr_config ?p)" using assms(3) by simp
  from spawn_config_plain [OF this] obtain sc where sc: "spawn_config (up_env now pid) ?p = Inr sc" by blast
  have r: "RequestStart now (pr_sm p) = (fresh_start now (pr_sm p), None)"
    using assms(1) by (simp add: RequestStart_def transitionLocked_def applyTransition_def fresh_start_def Let_def)
  have "fst (Start (up_env now pid) p) = fst (spawnLocked (up_env now pid) ?p)"
    using assms(1,2) r by (simp add: Start_def startLocked_def up_env_def)
  also have "\<dots> = go (WatchStart (pr_stopCh p)) (emit (Spawned sc pid)
       (?p\<lparr>pr_spawned := Some pid, pr_spawnErr := [], pr_startedAt := Some now\<rparr>))"
    using assms(3,4) sc by (simp add: spawnLocked_def plain_def up_env_def Let_def)
  finally show ?thesis by blast
qed

lemma Start_up_ok:
  assumes "pr_state p = Stopped" and "\<not> pr_retired p" and "plain (pr_config p)"
  shows "snd (Start (up_env now pid) p) = None"
proof -
  let ?p = "publishStateLocked Starting (set_sm (fresh_start now (pr_sm p)) p)"
  have "plain (pr_config ?p)" using assms(3) by simp
  from spawn_config_plain [OF this] obtain sc where sc: "spawn_config (up_env now pid) ?p = Inr sc" by blast
  have "RequestStart now (pr_sm p) = (fresh_start now (pr_sm p), None)"
    using assms(1) by (simp add: RequestStart_def transitionLocked_def applyTransition_def fresh_start_def Let_def)
  then have "snd (Start (up_env now pid) p) = snd (spawnLocked (up_env now pid) ?p)"
    using assms(1,2) by (simp add: Start_def startLocked_def up_env_def)
  also have "\<dots> = None"
    using assms(3) sc by (simp add: spawnLocked_def plain_def up_env_def Let_def)
  finally show ?thesis .
qed

section \<open>A lost event\<close>

fun published :: "effect list \<Rightarrow> State list" where
  "published [] = []"
| "published (Published s _ # t) = published t @ [s]"
| "published (_ # t) = published t"

lemma pruns_Cons: "pstep a p q \<Longrightarrow> pruns as q r \<Longrightarrow> pruns (a # as) p r"
proof (induction as arbitrary: r rule: rev_induct)
  case Nil
  from Nil(2) have "q = r" by (cases rule: pruns.cases) auto
  then show ?case using Nil(1) runs_snoc [OF runs_Nil, of a p q] by simp
next
  case (snoc x as)
  from snoc.prems(2) obtain q' where q: "pruns as q q'" "pstep x q' r" by (cases rule: pruns.cases) auto
  have "pruns (a # as) p q'" using snoc.IH [OF snoc.prems(1) q(1)] .
  from runs_snoc [OF this q(2)] show ?case by simp
qed

text \<open>
  \<open>watchStart\<close> publishes the state it reads after its transition, not the state it
  entered, and does so without the lock: a program that runs for \<open>startsecs\<close> and exits at that
  moment can be reported as STARTING, EXITED, EXITED.  RUNNING is never published although the
  process was in it, and EXITED is published twice.
\<close>

theorem running_event_can_be_lost:
  assumes "plain cfg" and "pc_Startsecs cfg = 1" and "pc_Autorestart cfg = ''false''"
  shows "\<exists>as q. pruns as (NewProcess name grp cfg False) q \<and>
     published (pr_trace q) = [Starting, Exited, Exited] \<and> pr_tasks q = []"
proof -
  let ?p0 = "NewProcess name grp cfg False"
  have p0: "pr_state ?p0 = Stopped" "\<not> pr_retired ?p0" "plain (pr_config ?p0)" "pc_Startsecs (pr_config ?p0) \<noteq> 0"
    using assms by (simp_all add: NewProcess_def NewStateMachine_def)
  obtain sc where sc: "fst (Start (up_env 0 7) ?p0) =
     go (WatchStart (pr_stopCh ?p0)) (emit (Spawned sc 7)
       ((publishStateLocked Starting (set_sm (fresh_start 0 (pr_sm ?p0)) ?p0))
          \<lparr>pr_spawned := Some 7, pr_spawnErr := [], pr_startedAt := Some 0\<rparr>))" (is "_ = ?p1")
    using Start_up [OF p0] by blast
  define p2 where "p2 = run_task (up_env 1000000000 0) (WatchStart 0) ?p1"
  define p3 where "p3 = HandleExitStatus (up_env 1000000000 0) 0 [] p2"
  define p4 where "p4 = run_task (up_env 0 0) WatchStartState p3"
  define p5 where "p5 = run_task (up_env 0 0) (WatchStartPid Exited) p4"
  define p6 where "p6 = run_task (up_env 0 0) (WatchStartEvent Exited 0) p5"
  have p1: "pr_tasks ?p1 = [WatchStart 0]" by (simp add: NewProcess_def)
  have sm1: "ProcessStarted 1000000000 (fresh_start 0 (NewStateMachine 1 r)) =
      ((fresh_start 0 (NewStateMachine 1 r))\<lparr>sm_state := Running, sm_retries := 0\<rparr>, None)" for r
    by (simp add: ProcessStarted_def fresh_start_def NewStateMachine_def time_sub_def seconds_def i64_id
        transitionLocked_def applyTransition_def Let_def)
  have p2: "pr_state p2 = Running" "pr_tasks p2 = [WatchStartState]" "pr_spawned p2 = Some 7"
    "published (pr_trace p2) = [Starting]" "pr_killDoneCh p2 = None" "pr_config p2 = cfg" "pr_shutdown p2 = False"
    using assms by (simp_all add: p2_def run_task_def watchStart_def drop_task_def NewProcess_def sm1 up_env_def
        Let_def set_sm_def go_def emit_def publishStateLocked_def)
  have p3: "pr_state p3 = Exited" "pr_tasks p3 = [WatchStartState]" "pr_spawned p3 = None"
    "published (pr_trace p3) = [Starting, Exited]"
    using exit_running [OF p2(1), of "up_env 1000000000 0" 0 "[]"] p2 assms(3)
    by (simp_all add: p3_def)
      (simp add: HandleExitStatus_def exit_by_state_def Let_def shouldRestart_def ProcessExited_def
        split: option.splits)
  have p4: "pr_state p4 = Exited" "pr_tasks p4 = [WatchStartPid Exited]" "pr_spawned p4 = None"
    "published (pr_trace p4) = [Starting, Exited]"
    using p3 by (simp_all add: p4_def run_task_def Let_def)
  have p5: "pr_tasks p5 = [WatchStartEvent Exited 0]" "published (pr_trace p5) = [Starting, Exited]"
    using p4 by (simp_all add: p5_def run_task_def Let_def pidLocked_def)
  have p6: "pr_tasks p6 = []" "published (pr_trace p6) = [Starting, Exited, Exited]"
    using p5 by (simp_all add: p6_def run_task_def Let_def)
  have s1: "pstep AStart ?p0 ?p1" using p_start [of ?p0 "up_env 0 7"] sc by simp
  have s2: "pstep (ATask (WatchStart 0)) ?p1 p2" using p_task [of "WatchStart 0" ?p1] p1 by (simp add: p2_def)
  have s3: "pstep (AExit 0 []) p2 p3" using p_exit [of p2] p2 by (simp add: p3_def)
  have s4: "pstep (ATask WatchStartState) p3 p4" using p_task [of WatchStartState p3] p3 by (simp add: p4_def)
  have s5: "pstep (ATask (WatchStartPid Exited)) p4 p5"
    using p_task [of "WatchStartPid Exited" p4] p4 by (simp add: p5_def)
  have s6: "pstep (ATask (WatchStartEvent Exited 0)) p5 p6"
    using p_task [of "WatchStartEvent Exited 0" p5] p5 by (simp add: p6_def)
  have "pruns [AStart, ATask (WatchStart 0), AExit 0 [], ATask WatchStartState,
      ATask (WatchStartPid Exited), ATask (WatchStartEvent Exited 0)] ?p0 p6"
    by (rule pruns_Cons [OF s1 pruns_Cons [OF s2 pruns_Cons [OF s3 pruns_Cons [OF s4
          pruns_Cons [OF s5 pruns_Cons [OF s6 runs_Nil]]]]]])
  then show ?thesis using p6 by blast
qed

definition race_config :: ProgramConfig where
  "race_config = sample_program\<lparr>pc_Startsecs := 1, pc_Autorestart := ''false''\<rparr>"

theorem running_event_can_be_lost_witness:
  "\<exists>as q. pruns as (NewProcess ''web'' ''web'' race_config False) q \<and>
     published (pr_trace q) = [Starting, Exited, Exited]"
  using running_event_can_be_lost [of race_config "''web''" "''web''"]
  by (auto simp: race_config_def sample_program_def zero_program_def plain_def)

section \<open>Runs that meet the hypotheses\<close>

definition valid_config :: ProgramConfig where
  "valid_config = default_program (\<lambda>_. False) ''web'' sample_program"

lemma valid_config_fields:
  "plain valid_config" "pc_Startsecs valid_config = 1" "pc_Stopsignal valid_config = ''TERM''"
  "\<not> pc_Stopasgroup valid_config" "pc_Autorestart valid_config = ''unexpected''" "pc_Exitcodes valid_config = [0]"
  by (simp_all add: valid_config_def default_program_def sample_program_def zero_program_def plain_def
      unset_def or_default_def Let_def)

lemma valid_config_valid: "validate_program ''web'' valid_config = []"
proof -
  have "CheckSize ''50MB''" "TrimSpace ''/bin/web -v'' \<noteq> []" by code_simp+
  moreover have "stop_signal_name ''TERM'' \<in> set validSignals" by code_simp
  ultimately show ?thesis
    by (simp add: validate_program_def valid_config_def default_program_def sample_program_def
        zero_program_def unset_def or_default_def Let_def validAutorestartValues_def)
qed

text \<open>The process after a start, and after a start and a stop.\<close>

definition web0 :: Process where "web0 = NewProcess ''web'' ''web'' valid_config False"
definition web1 :: Process where "web1 = fst (Start (up_env 0 7) web0)"
definition web2 :: Process where "web2 = fst (Stop (up_env 0 7) web1)"

lemma web0_fields: "pr_state web0 = Stopped" "\<not> pr_retired web0" "pr_config web0 = valid_config"
  by (simp_all add: web0_def NewProcess_def NewStateMachine_def)

lemma web1_fields: "pr_state web1 = Starting" "pr_spawned web1 = Some 7" "pr_config web1 = valid_config"
proof -
  have "plain (pr_config web0)" "pc_Startsecs (pr_config web0) \<noteq> 0"
    using valid_config_fields web0_fields by simp_all
  from Start_up [OF web0_fields(1,2) this, of 0 7]
  show "pr_state web1 = Starting" "pr_spawned web1 = Some 7" "pr_config web1 = valid_config"
    by (auto simp: web1_def fresh_start_def web0_fields(3))
qed

lemma web1_run: "pruns [AStart] web0 web1"
  using pruns_Cons [OF p_start runs_Nil] by (simp add: web1_def)

lemma web2_state: "pr_state web2 = Stopping"
proof (cases rule: stopLocked_cases [of web1 "up_env 0 7"])
  case (live m)
  then show ?thesis using stop_live_fields(1) [OF live(2)] by (simp add: web2_def Stop_def)
qed (use web1_fields in auto)

lemma web2_run: "pruns [AStart, AStop] web0 web2"
  using pruns_Cons [OF p_start pruns_Cons [OF p_stop runs_Nil]] by (simp add: web1_def web2_def)





theorem stop_sends_configured_signal_witness:
  "\<exists>sg. ParseSignal ''TERM'' = Some sg \<and> pr_trace web2 = Signalled 7 (Some sg) # Published Stopping 7 # pr_trace web1"
proof -
  have v: "validate_program ''web'' (pr_config web1) = []" using valid_config_valid web1_fields by simp
  have st: "pr_state web1 \<in> {Starting, Running}" using web1_fields by simp
  show ?thesis
    using stop_sends_configured_signal [OF v st web1_fields(2), of "up_env 0 7"] web1_fields(3) valid_config_fields
    by (auto simp: Let_def web2_def)
qed

theorem autorestart_policy_witness:
  "pr_tasks (HandleExitStatus (up_env 0 7) 1 [] (set_sm ((pr_sm web0)\<lparr>sm_state := Running\<rparr>) web0)) = [RestartAfterExit]"
  using autorestart_policy [of "set_sm ((pr_sm web0)\<lparr>sm_state := Running\<rparr>) web0" "up_env 0 7" 1 "[]"]
  by (simp add: Let_def web0_def NewProcess_def NewStateMachine_def valid_config_fields)

theorem dropped_child_env_is_minimal_witness:
  "length (buildEnv (up_env 0 7) (web0\<lparr>pr_config := valid_config\<lparr>pc_User := ''33''\<rparr>\<rparr>)) = 5"
proof -
  let ?p = "web0\<lparr>pr_config := valid_config\<lparr>pc_User := ''33''\<rparr>\<rparr>"
  have c: "ParseCredential (pc_User (pr_config ?p)) = Some (Some \<lparr>cr_Uid = 33, cr_Gid = 33\<rparr>)"
    by (simp add: ParseCredential_def parse_uint_def digit_val_def)
  have "uint (33 :: 32 word) = 33" by simp
  then show ?thesis
    using dropped_child_env_is_minimal [OF c, of "up_env 0 7"]
    by (simp add: up_env_def valid_config_def default_program_def sample_program_def zero_program_def Let_def)
qed

end
