(* ===== verification/Manager_Reload.thy ===== *)
theory Manager_Reload
  imports Manager_Safety Process_Runs
begin

text \<open>
  Invariants of the manager through all of its operations, and what a reload leaves alone.  The
  locale \<open>manager_inv\<close> says what a property of managers must survive for the loading of a
  configuration, the passes and a whole reload of the programs \<open>S\<close> to keep it; it is interpreted
  by the process table's own invariant and by one process being spared.
\<close>

section \<open>Operations on one process\<close>

definition process_op :: "(Process \<Rightarrow> Process) \<Rightarrow> bool" where
  "process_op f \<longleftrightarrow> (\<forall>p. pr_name (f p) = pr_name p \<and> pr_group (f p) = pr_group p \<and> (pinv p \<longrightarrow> pinv (f p)))"

lemma process_ops [kahi_inv]:
  "process_op (\<lambda>p. p)" "process_op Retire" "process_op (UpdateConfig c)"
  "process_op (\<lambda>p. fst (Start e p))" "process_op (\<lambda>p. fst (Stop e p))"
  using pstep_inv [OF p_retire] pstep_inv [OF p_update] pstep_inv [OF p_start] pstep_inv [OF p_stop]
  by (simp_all add: process_op_def)

lemma process_op_stop [kahi_inv]: "process_op (stop_if_active e n)"
  using process_ops(5) [of "e n"] by (simp add: process_op_def stop_if_active_def)

lemma process_op_start [kahi_inv]: "process_op (start_one_of e h n)" "process_op (autostart_one e n)"
  using process_ops(4) [of "e n"] by (simp_all add: process_op_def start_one_of_def autostart_one_def)

lemma program_names:
  assumes "mg_wf m" and "q \<in> set (programProcesses m prog)"
  shows "pr_group q = prog" and "GetProcess m (pr_name q) = Some q"
  using assms mg_wf_get [OF assms(1), of "pr_name q" q] by (auto simp: programProcesses_def)

lemma new_capture_processes [simp]: "mg_processes (new_capture os k s c m) = mg_processes m"
  by (simp add: new_capture_def case_prod_beta)

lemma load_groups_processes [simp]: "mg_processes (load_groups gs m) = mg_processes m"
  by (induction gs m rule: load_groups.induct) (simp_all add: Let_def)

section \<open>Invariants of the manager\<close>

locale manager_inv =
  fixes I :: "Manager \<Rightarrow> bool" and S :: "string set"
  assumes wf: "I m \<Longrightarrow> mg_wf m"
    and same: "I m \<Longrightarrow> mg_processes m' = mg_processes m \<Longrightarrow> I m'"
    and act: "I m \<Longrightarrow> GetProcess m k = Some q \<Longrightarrow> pr_group q \<in> S \<Longrightarrow> process_op f \<Longrightarrow> I (on_process k f m)"
    and new: "I m \<Longrightarrow> GetProcess m k = None \<Longrightarrow>
      mg_processes m' = mg_processes m @ [(k, NewProcess k g cfg sh)] \<Longrightarrow> I m'"
    and remove: "I m \<Longrightarrow> prog \<in> S \<Longrightarrow> mg_processes m' = filter (\<lambda>(n, p). pr_group p \<noteq> prog) (mg_processes m) \<Longrightarrow> I m'"
begin

text \<open>The processes a pass acts on are in the table, and of the programs \<open>S\<close>.\<close>

definition touched :: "Process list \<Rightarrow> Manager \<Rightarrow> bool" where
  "touched ps m \<longleftrightarrow> (\<forall>k\<in>pr_name ` set ps. \<exists>q. GetProcess m k = Some q \<and> pr_group q \<in> S)"

lemma touched_on: "touched ps m \<Longrightarrow> process_op f \<Longrightarrow> touched ps (on_process k f m)"
  by (auto simp: touched_def tbl.get_upd process_op_def)

lemma pass:
  "I m \<Longrightarrow> touched ps m \<Longrightarrow> (\<And>k. process_op (f k)) \<Longrightarrow>
   I (fold (\<lambda>p. on_process (pr_name p) (f (pr_name p))) ps m)"
proof (induction ps arbitrary: m)
  case (Cons q ps)
  obtain p where "GetProcess m (pr_name q) = Some p" "pr_group p \<in> S"
    using Cons.prems(2) by (auto simp: touched_def)
  then have "I (on_process (pr_name q) (f (pr_name q)) m)" by (rule act [OF Cons.prems(1) _ _ Cons.prems(3)])
  moreover have "touched ps m" using Cons.prems(2) by (simp add: touched_def)
  ultimately show ?case using Cons.IH [OF _ touched_on] Cons.prems(3) by simp
qed simp

lemma program_touched: "I m \<Longrightarrow> prog \<in> S \<Longrightarrow> touched (programProcesses m prog) m"
  using program_names [OF wf] by (fastforce simp: touched_def)

lemma updateInPlace: assumes "I m" and "prog \<in> S" shows "I (updateInPlace prog cfg m)"
proof -
  let ?by = "map (\<lambda>inst. (pi_Name inst, pi_Config inst)) (rev (ExpandNumprocs prog cfg))"
  let ?f = "\<lambda>k r. case map_of ?by k of Some c \<Rightarrow> UpdateConfig c r | None \<Rightarrow> r"
  have upd: "(case map_of ?by (pr_name q) of Some c \<Rightarrow> on_process (pr_name q) (UpdateConfig c) | None \<Rightarrow> (\<lambda>x. x)) =
      on_process (pr_name q) (?f (pr_name q))" for q
    by (cases "map_of ?by (pr_name q)") (auto simp: on_process_def fun_eq_iff map_idI)
  have op: "process_op (?f k)" for k by (cases "map_of ?by k") (simp_all add: process_ops)
  have "I (fold (\<lambda>q. on_process (pr_name q) (?f (pr_name q))) (programProcesses m prog) m)"
    by (rule pass [where f = ?f, OF assms(1) program_touched [OF assms] op])
  then show ?thesis unfolding updateInPlace_def Let_def upd by (rule same) simp
qed

lemma in_place: "I m \<Longrightarrow> set changed \<subseteq> S \<Longrightarrow> I (fst (reload_in_place old new changed m))"
proof (induction old new changed m rule: reload_in_place.induct)
  case (2 old new prog changed m)
  then show ?case by (auto simp: Let_def case_prod_beta updateInPlace)
qed simp

lemma programs: "(\<And>k. process_op (f k)) \<Longrightarrow> I m \<Longrightarrow> set progs \<subseteq> S \<Longrightarrow> I (for_programs f progs m)"
  by (induction progs arbitrary: m) (simp_all add: pass program_touched)

text \<open>While an operation waits, the rest of the daemon keeps the invariant.\<close>

definition world_ok :: "world \<Rightarrow> bool" where
  "world_ok world \<longleftrightarrow> (\<forall>k m. I m \<longrightarrow> (\<forall>m'\<in>set (world k m). I m'))"

lemma wait_polls: "I m \<Longrightarrow> (\<And>m'. m' \<in> set polls \<Longrightarrow> I m') \<Longrightarrow> I (fst (waitForStopped k m polls))"
proof (induction polls arbitrary: m)
  case Nil
  then show ?case by (subst waitForStopped.simps) simp
next
  case (Cons m' polls)
  then show ?case by (subst waitForStopped.simps) simp
qed

lemma wait: "world_ok world \<Longrightarrow> I m \<Longrightarrow> I (fst (waitForStopped k m (world k m)))"
  by (intro wait_polls) (auto simp: world_ok_def)

lemma wait_one: "world_ok world \<Longrightarrow> I m \<Longrightarrow> I (fst (wait_program world ks m))"
  by (induction ks arbitrary: m) (auto simp: Let_def case_prod_beta wait)

lemma wait_each: "world_ok world \<Longrightarrow> I m \<Longrightarrow> I (fst (wait_programs world progs m))"
  by (induction progs arbitrary: m) (auto simp: Let_def case_prod_beta wait_one)

lemma removals:
  "I m \<Longrightarrow> set progs \<subseteq> S \<Longrightarrow>
   I (fold (\<lambda>prog. if prog \<in> stuck then (\<lambda>x. x) else removeProgram prog (prog \<in> rem)) progs m)"
proof (induction progs arbitrary: m)
  case (Cons prog progs)
  have "I (removeProgram prog (prog \<in> rem) m)"
    by (rule remove [of m prog]) (use Cons.prems in \<open>simp_all add: removeProgram_def Let_def\<close>)
  then show ?case using Cons by simp
qed simp

lemma load_insts: "I m \<Longrightarrow> I (fst (load_instances os insts m))"
proof (induction insts arbitrary: m)
  case (Cons inst insts)
  show ?case
  proof (cases "GetProcess m (pi_Name inst) = None")
    case True
    define m2 where "m2 = (if pc_RedirectStderr (pi_Config inst) then new_capture os (pi_Name inst) ''stdout'' (pi_Config inst) m
        else new_capture os (pi_Name inst) ''stderr'' (pi_Config inst) (new_capture os (pi_Name inst) ''stdout'' (pi_Config inst) m))"
    define q where "q = NewProcess (pi_Name inst) (pi_Group inst) (pi_Config inst) (mg_shutdown m2)"
    define m3 where "m3 = m2\<lparr>mg_processes := AList.update (pi_Name inst) q (mg_processes m2)\<rparr>"
    have "pi_Name inst \<notin> fst ` set (mg_processes m)" using True by (simp add: GetProcess_def map_of_eq_None_iff)
    then have "mg_processes m3 = mg_processes m @ [(pi_Name inst, q)]"
      using update_new by (simp add: m3_def m2_def)
    then have "I m3" unfolding q_def by (rule new [OF Cons.prems True])
    then have "I (fst (load_instances os insts m3))" by (rule Cons.IH)
    moreover have "fst (load_instances os (inst # insts) m) = fst (load_instances os insts m3)"
      using True by (simp add: m3_def m2_def q_def Let_def case_prod_beta)
    ultimately show ?thesis by simp
  qed (use Cons in simp)
qed simp

lemma load_progs: "I m \<Longrightarrow> I (load_programs os ps m)"
proof (induction os ps m rule: load_programs.induct)
  case (2 os progName progCfg ps m)
  have s: "I (fst (load_instances os (ExpandNumprocs progName progCfg) m))" by (rule load_insts [OF "2.prems"])
  show ?case
    by (simp add: Let_def case_prod_beta, rule "2.IH")
      (use s in \<open>auto simp: case_prod_beta intro: same [OF s] split: option.splits\<close>)
qed simp

lemma load: "I m \<Longrightarrow> I (LoadConfig os cfg m)"
  unfolding LoadConfig_def by (rule same [OF load_progs]) simp_all

lemma start: "I m \<Longrightarrow> prog \<in> S \<Longrightarrow> I (startProgram e h prog m)"
  by (simp add: startProgram_def pass program_touched process_op_start)

lemma starts: "I m \<Longrightarrow> set progs \<subseteq> S \<Longrightarrow> I (fold (startProgram e h) progs m)"
  by (induction progs arbitrary: m) (auto simp: start)

end

lemma reload_in_place_restart: "set (snd (reload_in_place old new changed m)) \<subseteq> set changed"
proof (induction changed arbitrary: m)
  case (Cons prog changed)
  show ?case
    using Cons.IH [of m] Cons.IH [of "updateInPlace prog (case map_of (cf_Programs new) prog of
        Some c \<Rightarrow> c | None \<Rightarrow> zero_program) m"]
    by (auto simp: Let_def case_prod_beta)
qed simp

context manager_inv
begin

lemma reload:
  assumes "I m" and "set added \<union> set changed \<union> set removed \<subseteq> S" and "world_ok world"
  shows "I (fst (ApplyReload os e world old new added changed removed m))"
proof -
  define r where "r = reload_in_place old new changed m"
  define retiring where "retiring = removed @ snd r"
  define m3 where "m3 = for_programs (stop_if_active e) retiring (for_programs (\<lambda>_. Retire) retiring (fst r))"
  define w where "w = wait_programs world retiring m3"
  have restart: "set (snd r) \<subseteq> S" using reload_in_place_restart [of old new changed m] assms(2) by (auto simp: r_def)
  then have sub: "set retiring \<subseteq> S" using assms(2) by (simp add: retiring_def)
  have "I (fst r)" unfolding r_def using assms by (intro in_place) auto
  then have "I m3" unfolding m3_def using sub by (intro programs kahi_inv)
  then have "I (fst w)" unfolding w_def by (rule wait_each [OF assms(3)])
  then have "I (fold (\<lambda>prog. if prog \<in> set (snd w) then (\<lambda>x. x) else removeProgram prog (prog \<in> set removed)) retiring (fst w))"
    (is "I ?m5") using sub by (rule removals)
  then have "I (removeStaleGroups new (snd w) ?m5)" by (rule same) (simp add: removeStaleGroups_def)
  then have "I (LoadConfig os new (removeStaleGroups new (snd w) ?m5))" by (rule load)
  moreover have "set (filter P (snd r)) \<subseteq> S" for P using restart by auto
  ultimately show ?thesis
    unfolding ApplyReload_def Let_def case_prod_beta fst_conv
      r_def [symmetric] retiring_def [symmetric] m3_def [symmetric] w_def [symmetric]
    using assms(2) by (intro starts) auto
qed

end

section \<open>A spared process\<close>

text \<open>A process outside the programs \<open>S\<close>, in a manager whose keys are the processes' names.\<close>

definition spared :: "string set \<Rightarrow> string \<Rightarrow> Process \<Rightarrow> Manager \<Rightarrow> bool" where
  "spared S n p m \<longleftrightarrow> mg_wf m \<and> GetProcess m n = Some p \<and> pr_group p \<notin> S"

lemma mg_wf_new:
  "mg_wf m \<Longrightarrow> GetProcess m k = None \<Longrightarrow> mg_processes m' = mg_processes m @ [(k, NewProcess k g cfg sh)] \<Longrightarrow> mg_wf m'"
  by (auto simp: mg_wf_def GetProcess_def map_of_eq_None_iff NewProcess_def)

lemma mg_wf_filter: "mg_wf m \<Longrightarrow> mg_processes m' = filter P (mg_processes m) \<Longrightarrow> mg_wf m'"
  by (auto simp: mg_wf_def distinct_map_filter)

lemma mg_wf_same: "mg_wf m \<Longrightarrow> mg_processes m' = mg_processes m \<Longrightarrow> mg_wf m'"
  by (simp add: mg_wf_def)

interpretation sp: manager_inv "spared S n p" S for S n p
proof
  fix m m' :: Manager and k q f g cfg sh prog
  assume s: "spared S n p m"
  show "mg_wf m" using s by (simp add: spared_def)
  show "mg_processes m' = mg_processes m \<Longrightarrow> spared S n p m'" using s by (simp add: spared_def mg_wf_def GetProcess_def)
  show "spared S n p (on_process k f m)" if "GetProcess m k = Some q" "pr_group q \<in> S" "process_op f"
    using s that by (auto simp: spared_def tbl.get_upd process_op_def intro!: mg_wf_on_process)
  show "spared S n p m'" if "GetProcess m k = None" "mg_processes m' = mg_processes m @ [(k, NewProcess k g cfg sh)]"
    using s that mg_wf_new [OF _ that] by (auto simp: spared_def GetProcess_def map_add_def)
  show "spared S n p m'" if "prog \<in> S" "mg_processes m' = filter (\<lambda>(n, p). pr_group p \<noteq> prog) (mg_processes m)"
  proof -
    have "distinct (map fst (mg_processes m'))" "mg_wf m'"
      using s mg_wf_filter [OF _ that(2)] by (simp_all add: spared_def mg_wf_def)
    moreover have "(n, p) \<in> set (mg_processes m')"
      using s that by (auto simp: spared_def GetProcess_def dest!: map_of_SomeD)
    ultimately show ?thesis using s by (simp add: spared_def GetProcess_def)
  qed
qed

text \<open>
  C11 (safety).  A reload does not touch what did not change: a process whose program is neither
  added, changed nor removed is after the reload the very same process, child, state and events
  included, as long as nothing else acts on it while the reload waits.
\<close>

theorem reload_spares_unchanged_programs:
  assumes "mg_wf m" and "GetProcess m n = Some p"
    and "pr_group p \<notin> set added \<union> set changed \<union> set removed"
    and "\<And>k m m'. mg_wf m \<Longrightarrow> GetProcess m n = Some p \<Longrightarrow> m' \<in> set (world k m) \<Longrightarrow>
      mg_wf m' \<and> GetProcess m' n = Some p"
  shows "GetProcess (fst (ApplyReload os e world old new added changed removed m)) n = Some p"
proof -
  let ?S = "set added \<union> set changed \<union> set removed"
  have "spared ?S n p m" using assms(1-3) by (simp add: spared_def)
  moreover have "sp.world_ok ?S n p world"
    unfolding sp.world_ok_def spared_def using assms(4) by blast
  ultimately have "spared ?S n p (fst (ApplyReload os e world old new added changed removed m))"
    by (rule sp.reload [where S = ?S, OF _ subset_refl])
  then show ?thesis by (simp add: spared_def)
qed

end
