(* ===== verification/Manager_Runs.thy ===== *)
theory Manager_Runs
  imports Manager_Reload
begin

text \<open>
  A group removal that leaves a process behind, and the concrete managers that show the hypotheses
  of the theorems of \<open>Manager_Safety\<close> and \<open>Manager_Reload\<close> can hold.
\<close>

section \<open>A removed group\<close>

lemma retry_up:
  assumes "pr_state p = Backoff" and "\<not> pr_retired p" and "\<not> pr_shutdown p" and "plain (pr_config p)"
  shows "spawns (pr_trace (retryAfterBackoff (up_env now pid) p)) = Suc (spawns (pr_trace p))"
proof -
  define sm where "sm = (pr_sm p)\<lparr>sm_state := Starting, sm_startedAt := now\<rparr>"
  have r: "RetryFromBackoff now (pr_sm p) = (sm, None)"
    using assms(1) by (simp add: RetryFromBackoff_def transitionLocked_def applyTransition_def Let_def sm_def)
  let ?p = "publishStateLocked Starting (set_sm sm p)"
  have "plain (pr_config ?p)" using assms(4) by simp
  from spawn_config_plain [OF this] obtain sc where sc: "spawn_config (up_env now pid) ?p = Inr sc" by blast
  have "spawns (pr_trace (fst (spawnLocked (up_env now pid) ?p))) = Suc (spawns (pr_trace ?p))"
    using assms(4) sc by (simp add: spawnLocked_def plain_def up_env_def Let_def)
  then show ?thesis using assms r by (simp add: retryAfterBackoff_def up_env_def)
qed

text \<open>
  \<open>RemoveGroup\<close> refuses only a group with a RUNNING or STARTING process.  A process in
  BACKOFF does not stop it, is dropped from the manager and is not retired, so its pending retry
  still spawns a child, which no pid lookup and no shutdown of the manager finds any more.
\<close>

theorem removed_group_can_respawn:
  assumes "map_of (mg_groups m) g = Some grp" and "gr_Processes grp = [n]"
    and "GetProcess m n = Some p" and "pr_state p = Backoff"
    and "\<not> pr_retired p" and "\<not> pr_shutdown p" and "plain (pr_config p)"
  shows "snd (RemoveGroup g m) = None \<and> GetProcess (fst (RemoveGroup g m)) n = None \<and>
     spawns (pr_trace (retryAfterBackoff (up_env now pid) p)) = Suc (spawns (pr_trace p))"
proof -
  have "still_running m [n] = None" using assms(3,4) by simp
  moreover have "map_of (filter (\<lambda>(k, p). k \<noteq> n) (mg_processes m)) n = None"
    by (auto simp: map_of_eq_None_iff)
  ultimately show ?thesis
    using assms(1,2) retry_up [OF assms(4-7)] by (simp add: RemoveGroup_def GetProcess_def)
qed

section \<open>Concrete managers\<close>

definition mgr :: "Process \<Rightarrow> Manager" where
  "mgr p = (NewManager sample_fs)\<lparr>mg_processes := [(''web'', p)],
     mg_groups := [(''web'', \<lparr>gr_Name = ''web'', gr_Processes = [''web''], gr_Priority = 999\<rparr>)]\<rparr>"

lemma mgr_get [simp]: "GetProcess (mgr p) k = (if k = ''web'' then Some p else None)"
  by (simp add: GetProcess_def mgr_def)

lemma mgr_groups [simp]:
  "mg_groups (mgr p) = [(''web'', \<lparr>gr_Name = ''web'', gr_Processes = [''web''], gr_Priority = 999\<rparr>)]"
  by (simp add: mgr_def)

lemma mgr_wf: "pr_name p = ''web'' \<Longrightarrow> mg_wf (mgr p)"
  by (simp add: mg_wf_def mgr_def)

lemma web_names: "pr_name web0 = ''web''" "pr_name web1 = ''web''" "pr_group web0 = ''web''" "pr_group web1 = ''web''"
  by (simp_all add: web1_def web0_def NewProcess_def)

lemma web0_env: "pr_shutdown web0 = False" "plain (pr_config web0)" "pc_Autostart (pr_config web0) \<noteq> Some False"
  by (simp_all add: web0_fields valid_config_fields)
    (simp_all add: web0_def NewProcess_def valid_config_def default_program_def sample_program_def zero_program_def
      Let_def unset_def)

definition web_backoff :: Process where
  "web_backoff = set_sm ((pr_sm web0)\<lparr>sm_state := Backoff\<rparr>) web0"

theorem removed_group_can_respawn_witness:
  "snd (RemoveGroup ''web'' (mgr web_backoff)) = None"
  using removed_group_can_respawn [of "mgr web_backoff" "''web''" _ "''web''" web_backoff]
    web0_env web0_fields
  by (simp add: web_backoff_def)

theorem stop_order_is_reverse_start_order_witness:
  "orderedNames (mgr web0) False = rev (orderedNames (mgr web0) True)"
  using stop_order_is_reverse_start_order [OF mgr_wf [OF web_names(1)]] by simp

theorem autostart_starts_each_once_witness:
  "GetProcess (AutostartAll (\<lambda>_. up_env 0 7) (mgr web0)) ''web'' = Some web1"
  using autostart_starts_each_once [OF mgr_wf [OF web_names(1)], of "\<lambda>_. up_env 0 7" "''web''"] web0_env(3)
  by (simp add: web1_def)


theorem restart_all_reports_every_process_witness:
  "map (map_option ar_Name) (snd (RestartAllOrdered (\<lambda>_. up_env 0 7) (\<lambda>_. False) (\<lambda>_ _. []) (mgr web0))) =
     [Some ''web'']"
proof -
  have "orderedNames (mgr web0) True = [''web'']"
    using web_names(1)
    by (simp add: orderedNames_def sortedProcesses_def sortByPriority_def mgr_def)
  then show ?thesis
    using restart_all_reports_every_process [OF mgr_wf [OF web_names(1)],
        of "\<lambda>_. up_env 0 7" "\<lambda>_. False" "\<lambda>_ _. []"] by simp
qed

theorem config_diff_partition_witness:
  "\<exists>changed removed. ConfigDiff (sample_config\<lparr>cf_Programs := []\<rparr>)
     (sample_config\<lparr>cf_Programs := [(''web'', sample_program)]\<rparr>) = ([''web''], changed, removed) \<and>
     distinct ([''web''] @ changed @ removed)"
proof -
  let ?old = "sample_config\<lparr>cf_Programs := []\<rparr>" and ?new = "sample_config\<lparr>cf_Programs := [(''web'', sample_program)]\<rparr>"
  have d: "ConfigDiff ?old ?new = ([''web''], [], [])" by (simp add: ConfigDiff_def sort_strings_def)
  have "distinct ([''web''] @ [] @ [])" using config_diff_partition [of ?old ?new, OF _ _ d] by simp
  then show ?thesis using d by blast
qed

theorem reload_spares_unchanged_programs_witness:
  "GetProcess (fst (ApplyReload open_os (\<lambda>_. up_env 0 7) (\<lambda>_ _. []) sample_config
       (sample_config\<lparr>cf_Programs := (''api'', sample_program) # cf_Programs sample_config\<rparr>)
       [''api''] [] [] (mgr web1))) ''web'' = Some web1"
  by (rule reload_spares_unchanged_programs [OF mgr_wf [OF web_names(2)]])
    (simp_all add: web_names)

end
