(* ===== verification/Manager_Invariant.thy ===== *)
theory Manager_Invariant
  imports Manager_Runs
begin

text \<open>
  The manager as a state machine: every operation of the manager and every step of one of its
  processes, and the invariant that the table is keyed by the processes' names and that every
  process tracks exactly the child it has.
\<close>

section \<open>The invariant\<close>

definition mg_ok :: "Manager \<Rightarrow> bool" where
  "mg_ok m \<longleftrightarrow> mg_wf m \<and> (\<forall>(n, p)\<in>set (mg_processes m). pinv p)"

lemma mg_ok_get: "mg_ok m \<Longrightarrow> GetProcess m n = Some p \<Longrightarrow> pinv p \<and> pr_name p = n"
  by (auto simp: mg_ok_def mg_wf_get GetProcess_def mg_wf_def dest!: map_of_SomeD)

lemma mg_ok_on:
  assumes "mg_ok m" and "process_op f" shows "mg_ok (on_process k f m)"
proof -
  have "mg_wf (on_process k f m)" using assms by (intro mg_wf_on_process) (simp_all add: mg_ok_def process_op_def)
  moreover have "\<forall>(n, p)\<in>set (mg_processes (on_process k f m)). pinv p"
    using assms by (auto simp: mg_ok_def on_process_def process_op_def)
  ultimately show ?thesis by (simp add: mg_ok_def)
qed

lemma mg_ok_same: "mg_ok m \<Longrightarrow> mg_processes m' = mg_processes m \<Longrightarrow> mg_ok m'"
  by (simp add: mg_ok_def mg_wf_def)

lemma mg_ok_filter: "mg_ok m \<Longrightarrow> mg_processes m' = filter P (mg_processes m) \<Longrightarrow> mg_ok m'"
  by (auto simp: mg_ok_def intro: mg_wf_filter)

interpretation ok: manager_inv mg_ok UNIV
proof
  fix m m' :: Manager and k q f g cfg sh prog
  assume s: "mg_ok m"
  show "mg_wf m" using s by (simp add: mg_ok_def)
  show "mg_processes m' = mg_processes m \<Longrightarrow> mg_ok m'" using s by (rule mg_ok_same)
  show "process_op f \<Longrightarrow> mg_ok (on_process k f m)" using s by (rule mg_ok_on)
  show "mg_ok m'" if "GetProcess m k = None" "mg_processes m' = mg_processes m @ [(k, NewProcess k g cfg sh)]"
    using s that mg_wf_new [OF _ that] pinv_New by (auto simp: mg_ok_def)
  show "mg_processes m' = filter (\<lambda>(n, p). pr_group p \<noteq> prog) (mg_processes m) \<Longrightarrow> mg_ok m'"
    using s by (rule mg_ok_filter)
qed

section \<open>The operations keep it\<close>

lemma process_op_acts [kahi_inv]:
  "process_op (\<lambda>p. fst (Signal e s p))" "process_op (\<lambda>p. fst (WriteStdin e d p))"
proof -
  have "pr_name (fst (Signal e s p)) = pr_name p \<and> pr_group (fst (Signal e s p)) = pr_group p"
    and "pr_name (fst (WriteStdin e d p)) = pr_name p \<and> pr_group (fst (WriteStdin e d p)) = pr_group p" for p
    by (simp_all add: Signal_def WriteStdin_def split: option.splits)
  then show "process_op (\<lambda>p. fst (Signal e s p))" "process_op (\<lambda>p. fst (WriteStdin e d p))"
    using pstep_inv [OF p_signal] pstep_inv [OF p_stdin] by (simp_all add: process_op_def)
qed

lemma passes_ok:
  "(\<And>k. process_op (f k)) \<Longrightarrow> mg_ok m \<Longrightarrow> mg_ok (fold (\<lambda>p. on_process (pr_name p) (f (pr_name p))) ps m)"
  by (induction ps arbitrary: m) (simp_all add: mg_ok_on)

lemma act_on_ok [kahi_inv]: "mg_ok m \<Longrightarrow> process_op (\<lambda>p. fst (f p)) \<Longrightarrow> mg_ok (fst (act_on n f m))"
  by (simp add: act_on_def mg_ok_on split: option.split)

lemma AutostartAll_ok [kahi_inv]: "mg_ok m \<Longrightarrow> mg_ok (AutostartAll e m)"
  by (simp add: AutostartAll_def passes_ok process_op_start)

lemma shutdown_ok: "mg_ok m \<Longrightarrow>
    mg_ok (m\<lparr>mg_shutdown := True, mg_processes := map (\<lambda>(n, p). (n, p\<lparr>pr_shutdown := True\<rparr>)) (mg_processes m)\<rparr>)"
  using pstep_inv [OF p_shutdown] by (auto simp: mg_ok_def mg_wf_def comp_def case_prod_beta)

lemma StopAll_ok [kahi_inv]: "mg_ok m \<Longrightarrow> mg_ok (StopAll e m)"
  unfolding StopAll_def Let_def by (intro passes_ok process_op_stop shutdown_ok)

lemma start_pass_ok: "mg_ok m \<Longrightarrow> mg_ok (fold (\<lambda>p. on_process (pr_name p) (\<lambda>q. fst (Start (e (pr_name p)) q))) ps m)"
  by (rule passes_ok [where f = "\<lambda>n q. fst (Start (e n) q)", OF process_ops(4)])

lemma stop_pass_ok: "mg_ok m \<Longrightarrow> mg_ok (fold (\<lambda>p. on_process (pr_name p) (stop_if_active e (pr_name p))) ps m)"
  by (rule passes_ok [OF process_op_stop])

lemma groups_ok [kahi_inv]: "mg_ok m \<Longrightarrow> mg_ok (fst (StartGroup e g m))" "mg_ok m \<Longrightarrow> mg_ok (fst (StopGroup e g m))"
  by (auto simp: StartGroup_def StopGroup_def intro: start_pass_ok stop_pass_ok split: option.split)

lemma wait_all_ok: "ok.world_ok world \<Longrightarrow> mg_ok m \<Longrightarrow> mg_ok (wait_all world ns m)"
  by (induction ns arbitrary: m) (auto simp: ok.wait split: option.split)

lemma restart_ok [kahi_inv]:
  assumes "ok.world_ok world" and "mg_ok m"
  shows "mg_ok (fst (Restart e world n m))" and "mg_ok (fst (RestartGroup e world g m))"
proof -
  obtain m1 r where a: "act_on n (Stop (e n)) m = (m1, r)" by fastforce
  then have "mg_ok m1" using act_on_ok [OF assms(2) process_ops(5), of n "e n"] by simp
  then show "mg_ok (fst (Restart e world n m))"
    using assms a by (cases r) (auto simp: Restart_def intro!: act_on_ok process_ops ok.wait split: option.split)
  obtain m2 s where g: "StopGroup e g m = (m2, s)" by fastforce
  then have "mg_ok m2" using groups_ok(2) [OF assms(2), of e g] by simp
  then show "mg_ok (fst (RestartGroup e world g m))"
    using assms g by (cases s) (auto simp: RestartGroup_def intro!: groups_ok wait_all_ok split: option.split)
qed

lemma startOne_ok: "mg_ok m \<Longrightarrow> mg_ok (fst (startOne e late n m))"
proof (cases "GetProcess m n")
  case (Some p)
  assume m: "mg_ok m"
  obtain m1 r where a: "act_on n (Start (e n)) m = (m1, r)" by fastforce
  then have "mg_ok m1" using act_on_ok [OF m process_ops(4), of n "e n"] by simp
  then show ?thesis using Some a m
    by (auto simp: startOne_def Let_def intro: act_on_ok process_ops split: option.split)
qed (simp add: startOne_def)

lemma stopOne_ok: "ok.world_ok world \<Longrightarrow> mg_ok m \<Longrightarrow> mg_ok (fst (stopOne e world n m))"
proof (cases "GetProcess m n")
  case (Some p)
  assume w: "ok.world_ok world" and m: "mg_ok m"
  obtain m1 r where a: "act_on n (Stop (e n)) m = (m1, r)" by fastforce
  then have m1: "mg_ok m1" using act_on_ok [OF m process_ops(5), of n "e n"] by simp
  show ?thesis using Some a m1 m ok.wait [OF w m, of n] ok.wait [OF w m1, of n]
    by (cases "pr_state p"; cases r) (simp_all add: stopOne_def Let_def case_prod_beta)
qed (simp add: stopOne_def)

lemma bulk_passes_ok:
  "mg_ok m \<Longrightarrow> mg_ok (fst (startPass e late order skip m))"
  "ok.world_ok world \<Longrightarrow> mg_ok m \<Longrightarrow> mg_ok (fst (stopPass e world order m))"
  by (induction order arbitrary: m) (simp_all add: Let_def case_prod_beta startOne_ok stopOne_ok)

lemma bulk_ok [kahi_inv]:
  "mg_ok m \<Longrightarrow> mg_ok (fst (StartAllOrdered e late m))"
  "ok.world_ok world \<Longrightarrow> mg_ok m \<Longrightarrow> mg_ok (fst (StopAllOrdered e world m))"
  "ok.world_ok world \<Longrightarrow> mg_ok m \<Longrightarrow> mg_ok (fst (RestartAllOrdered e late world m))"
  by (simp_all add: StartAllOrdered_def StopAllOrdered_def RestartAllOrdered_def Let_def case_prod_beta bulk_passes_ok)

lemma runtime_groups_ok [kahi_inv]:
  "mg_ok m \<Longrightarrow> mg_ok (fst (AddGroup n ps prio m))" "mg_ok m \<Longrightarrow> mg_ok (fst (RemoveGroup n m))"
  "mg_ok m \<Longrightarrow> mg_ok (RemoveProcess n m)"
  by (auto simp: AddGroup_def RemoveGroup_def RemoveProcess_def intro: mg_ok_same mg_ok_filter split: option.split)

lemma logs_ok [kahi_inv]:
  "mg_ok m \<Longrightarrow> mg_ok (fst (ReopenLogs os m))" "mg_ok m \<Longrightarrow> mg_ok (CloseLogs m)"
  "mg_ok m \<Longrightarrow> mg_ok (on_output os n s d m)" "mg_ok m \<Longrightarrow> mg_ok (fst (preSpawn os n m))"
  by (auto simp: ReopenLogs_def CloseLogs_def on_output_def preSpawn_def Let_def case_prod_beta
      intro: mg_ok_same split: option.split)

lemma stopLocked_ids: "pr_name (fst (stopLocked e p)) = pr_name p"
  using start_stop_ids(3) [of e p] by (simp add: Stop_def)

lemma exit_ids [simp]:
  "pr_name (HandleExitStatus e c s p) = pr_name p"
  by (auto simp: HandleExitStatus_def exit_by_state_def Let_def stopLocked_ids split: State.splits option.splits)

lemma run_task_ids [simp]: "pr_name (run_task e t p) = pr_name p"
proof -
  have d: "pr_name (drop_task t p) = pr_name p" by (simp add: drop_task_def)
  have "pr_name (retryAfterBackoff e q) = pr_name q" for q
    by (simp add: retryAfterBackoff_def stopLocked_ids split: prod.splits option.splits)
  moreover have "pr_name (restartAfterExit e q) = pr_name q" for q
    using start_stop_ids(1) [of e q] by (simp add: restartAfterExit_def Start_def)
  ultimately show ?thesis
    using d by (cases t) (simp_all add: run_task_def Let_def watchStart_def watchStop_def killLocked_def)
qed

lemma pstep_name: "pstep a p q \<Longrightarrow> pr_name q = pr_name p"
  by (induction rule: pstep.induct)
    (simp_all add: Kill_def killLocked_def drop_task_def Signal_def WriteStdin_def split: option.splits)

lemma process_step_ok [kahi_inv]:
  assumes "mg_ok m" and "GetProcess m n = Some p" and "pstep a p q"
  shows "mg_ok (on_process n (\<lambda>_. q) m)"
proof -
  have p: "pinv p" "pr_name p = n" using mg_ok_get [OF assms(1,2)] by simp_all
  then have q: "pinv q" "pr_name q = n" using pstep_inv [OF assms(3)] pstep_name [OF assms(3)] by simp_all
  have "map fst (mg_processes (on_process n (\<lambda>_. q) m)) = map fst (mg_processes m)"
    by (simp add: on_process_def case_prod_beta comp_def)
  then have "distinct (map fst (mg_processes (on_process n (\<lambda>_. q) m)))"
    using assms(1) by (simp only: mg_ok_def mg_wf_def)
  then show ?thesis using assms(1) q by (auto simp: mg_ok_def mg_wf_def on_process_def)
qed

section \<open>Reachable managers\<close>

text \<open>
  A step that waits sees reachable managers only.  \<open>reach_process\<close> is a step of one process: an exit,
  a timer, a queued goroutine.
\<close>

inductive mg_reach :: "Manager \<Rightarrow> bool" where
  reach_new: "mg_reach (NewManager fs)"
| reach_load: "mg_reach m \<Longrightarrow> mg_reach (LoadConfig os cfg m)"
| reach_autostart: "mg_reach m \<Longrightarrow> mg_reach (AutostartAll e m)"
| reach_stop_all: "mg_reach m \<Longrightarrow> mg_reach (StopAll e m)"
| reach_start: "mg_reach m \<Longrightarrow> mg_reach (fst (manager_Start e n m))"
| reach_stop: "mg_reach m \<Longrightarrow> mg_reach (fst (manager_Stop e n m))"
| reach_signal: "mg_reach m \<Longrightarrow> mg_reach (fst (manager_Signal e n s m))"
| reach_stdin: "mg_reach m \<Longrightarrow> mg_reach (fst (manager_WriteStdin e n s m))"
| reach_start_group: "mg_reach m \<Longrightarrow> mg_reach (fst (StartGroup e g m))"
| reach_stop_group: "mg_reach m \<Longrightarrow> mg_reach (fst (StopGroup e g m))"
| reach_restart: "mg_reach m \<Longrightarrow> (\<And>k m' m''. m'' \<in> set (world k m') \<Longrightarrow> mg_reach m'') \<Longrightarrow>
    mg_reach (fst (Restart e world n m))"
| reach_restart_group: "mg_reach m \<Longrightarrow> (\<And>k m' m''. m'' \<in> set (world k m') \<Longrightarrow> mg_reach m'') \<Longrightarrow>
    mg_reach (fst (RestartGroup e world g m))"
| reach_start_bulk: "mg_reach m \<Longrightarrow> mg_reach (fst (StartAllOrdered e late m))"
| reach_stop_bulk: "mg_reach m \<Longrightarrow> (\<And>k m' m''. m'' \<in> set (world k m') \<Longrightarrow> mg_reach m'') \<Longrightarrow>
    mg_reach (fst (StopAllOrdered e world m))"
| reach_restart_bulk: "mg_reach m \<Longrightarrow> (\<And>k m' m''. m'' \<in> set (world k m') \<Longrightarrow> mg_reach m'') \<Longrightarrow>
    mg_reach (fst (RestartAllOrdered e late world m))"
| reach_reload: "mg_reach m \<Longrightarrow> (\<And>k m' m''. m'' \<in> set (world k m') \<Longrightarrow> mg_reach m'') \<Longrightarrow>
    mg_reach (fst (ApplyReload os e world old new added changed removed m))"
| reach_add_group: "mg_reach m \<Longrightarrow> mg_reach (fst (AddGroup n ps prio m))"
| reach_remove_group: "mg_reach m \<Longrightarrow> mg_reach (fst (RemoveGroup n m))"
| reach_remove_process: "mg_reach m \<Longrightarrow> mg_reach (RemoveProcess n m)"
| reach_reopen: "mg_reach m \<Longrightarrow> mg_reach (fst (ReopenLogs os m))"
| reach_close: "mg_reach m \<Longrightarrow> mg_reach (CloseLogs m)"
| reach_output: "mg_reach m \<Longrightarrow> mg_reach (on_output os n s d m)"
| reach_publish: "mg_reach m \<Longrightarrow> mg_reach (m\<lparr>mg_events := mg_events m @ evs\<rparr>)"
| reach_process: "mg_reach m \<Longrightarrow> GetProcess m n = Some p \<Longrightarrow> pstep a p q \<Longrightarrow>
    mg_reach (on_process n (\<lambda>_. q) m)"

lemma mg_reach_ok: "mg_reach m \<Longrightarrow> mg_ok m"
proof (induction rule: mg_reach.induct)
  case (reach_new fs)
  then show ?case by (simp add: mg_ok_def mg_wf_def NewManager_def)
next
  case (reach_load m os cfg)
  then show ?case by (simp add: ok.load)
next
  case (reach_reload m world os e old new added changed removed)
  then show ?case by (intro ok.reload) (auto simp: ok.world_ok_def)
next
  case (reach_restart m world e n)
  then show ?case by (intro restart_ok) (auto simp: ok.world_ok_def)
next
  case (reach_restart_group m world e g)
  then show ?case by (intro restart_ok) (auto simp: ok.world_ok_def)
next
  case (reach_stop_bulk m world e)
  then show ?case by (intro bulk_ok) (auto simp: ok.world_ok_def)
next
  case (reach_restart_bulk m world e late)
  then show ?case by (intro bulk_ok) (auto simp: ok.world_ok_def)
next
  case (reach_publish m evs)
  show ?case by (rule mg_ok_same [OF reach_publish.IH]) simp
next
  case (reach_process m n p a q)
  then show ?case by (intro process_step_ok)
qed (simp_all add: AutostartAll_ok StopAll_ok groups_ok bulk_ok(1) runtime_groups_ok logs_ok act_on_ok process_ops
    process_op_acts manager_Start_def manager_Stop_def manager_Signal_def manager_WriteStdin_def)



end
