(* ===== verification/Config_Expand.thy ===== *)
theory Config_Expand
  imports Config_Types
begin

text \<open>
  \<open>internal/config/expand.go\<close>: the expansion of \<open>%(name)s\<close> variables and \<open>${NAME}\<close> references
  in a configuration.  The scanners work on the rest of the string; \<open>os.LookupEnv\<close> is the
  parameter \<open>env\<close>.  An error is \<open>Inl\<close>.
\<close>

section \<open>Results\<close>

definition and_then :: "'e + 'a \<Rightarrow> ('a \<Rightarrow> 'e + 'b) \<Rightarrow> 'e + 'b" where
  "and_then r f = (case r of Inl e \<Rightarrow> Inl e | Inr v \<Rightarrow> f v)"

definition tag_error :: "('d \<Rightarrow> 'e) \<Rightarrow> 'd + 'a \<Rightarrow> 'e + 'a" where
  "tag_error t r = map_sum t (\<lambda>v. v) r"

lemma and_then_simps [simp]:
  "and_then (Inl e) f = Inl e" "and_then (Inr v) f = f v"
  by (simp_all add: and_then_def)

lemma and_then_Inr: "and_then r f = Inr w \<longleftrightarrow> (\<exists>v. r = Inr v \<and> f v = Inr w)"
  by (cases r) auto

lemma tag_error_Inr [simp]: "tag_error t r = Inr v \<longleftrightarrow> r = Inr v"
  by (cases r) (auto simp: tag_error_def)

lemma tag_error_of_Inr [simp]: "tag_error t (Inr v) = Inr v"
  by (simp add: tag_error_def)

section \<open>Strings\<close>

datatype expand_error =
    UnclosedVariable string
  | UnknownVariable string
  | UnclosedReference string
  | UndefinedEnv string

record ExpandContext =
  ec_Here :: string
  ec_ProgramName :: string
  ec_ProcessNum :: int
  ec_GroupName :: string
  ec_NumProcs :: int
  ec_KeepProcessNum :: bool

definition resolveTemplateVar :: "string \<Rightarrow> ExpandContext \<Rightarrow> expand_error + string" where
  "resolveTemplateVar name ctx =
     (if name = ''here'' then Inr (ec_Here ctx)
      else if name = ''program_name'' then Inr (ec_ProgramName ctx)
      else if name = ''process_num'' then
        (if ec_KeepProcessNum ctx then Inr ''%(process_num)d'' else Inr (itoa (ec_ProcessNum ctx)))
      else if name = ''group_name'' then Inr (ec_GroupName ctx)
      else if name = ''numprocs'' then Inr (itoa (ec_NumProcs ctx))
      else Inl (UnknownVariable name))"

text \<open>The end of the variable that opens the string: the position of the nearer of \<open>)s\<close> and \<open>)d\<close>.\<close>

definition variable_end :: "string \<Rightarrow> nat option" where
  "variable_end s =
     (case (index_of '')s'' s, index_of '')d'' s) of
        (None, None) \<Rightarrow> None
      | (Some e, None) \<Rightarrow> Some e
      | (None, Some d) \<Rightarrow> Some d
      | (Some e, Some d) \<Rightarrow> Some (if e < d then e else d))"

function expandTemplateVars :: "ExpandContext \<Rightarrow> string \<Rightarrow> expand_error + string" where
  "expandTemplateVars ctx [] = Inr []"
| "expandTemplateVars ctx (c # cs) =
     (if has_prefix (c # cs) ''%%''
      then and_then (expandTemplateVars ctx (drop 1 cs)) (\<lambda>r. Inr (''%%'' @ r))
      else if has_prefix (c # cs) ''%('' then
        (case variable_end (c # cs) of
           None \<Rightarrow> Inl (UnclosedVariable (c # cs))
         | Some e \<Rightarrow>
             and_then (resolveTemplateVar (take (e - 2) (drop 2 (c # cs))) ctx)
               (\<lambda>val. and_then (expandTemplateVars ctx (drop (e + 1) cs)) (\<lambda>r. Inr (val @ r))))
      else and_then (expandTemplateVars ctx cs) (\<lambda>r. Inr (c # r)))"
  by pat_completeness auto
termination
  by (relation "measure (\<lambda>(ctx, s). length s)") auto

function expandEnvVars :: "(string \<Rightarrow> string option) \<Rightarrow> string \<Rightarrow> expand_error + string" where
  "expandEnvVars env [] = Inr []"
| "expandEnvVars env (c # cs) =
     (if has_prefix (c # cs) ''$$''
      then and_then (expandEnvVars env (drop 1 cs)) (\<lambda>r. Inr (''$$'' @ r))
      else if has_prefix (c # cs) ''${'' then
        (case index_of ''}'' (c # cs) of
           None \<Rightarrow> Inl (UnclosedReference (c # cs))
         | Some e \<Rightarrow>
             (case env (take (e - 2) (drop 2 (c # cs))) of
                None \<Rightarrow> Inl (UndefinedEnv (take (e - 2) (drop 2 (c # cs))))
              | Some val \<Rightarrow> and_then (expandEnvVars env (drop e cs)) (\<lambda>r. Inr (val @ r))))
      else and_then (expandEnvVars env cs) (\<lambda>r. Inr (c # r)))"
  by pat_completeness auto
termination
  by (relation "measure (\<lambda>(env, s). length s)") auto

definition expandString ::
  "(string \<Rightarrow> string option) \<Rightarrow> ExpandContext \<Rightarrow> string \<Rightarrow> expand_error + string" where
  "expandString env ctx s =
     (if s = [] then Inr s
      else and_then (expandTemplateVars ctx s) (\<lambda>r1.
           and_then (expandEnvVars env r1) (\<lambda>r2.
           Inr (replace_all ''$$'' ''$'' (replace_all ''%%'' ''%'' r2)))))"

section \<open>Configurations\<close>

datatype field_error = FieldError "string list" expand_error

text \<open>The loop over a program's environment.\<close>

fun expand_environment ::
  "(string \<Rightarrow> string option) \<Rightarrow> ExpandContext \<Rightarrow> string \<Rightarrow> (string \<times> string) list
     \<Rightarrow> field_error + (string \<times> string) list" where
  "expand_environment env ctx name [] = Inr []"
| "expand_environment env ctx name ((k, v) # kvs) =
     and_then (tag_error (FieldError [''programs'', name, ''environment'', k]) (expandString env ctx v))
       (\<lambda>v'. and_then (expand_environment env ctx name kvs) (\<lambda>kvs'. Inr ((k, v') # kvs')))"

definition program_context :: "ExpandContext \<Rightarrow> string \<Rightarrow> ProgramConfig \<Rightarrow> ExpandContext" where
  "program_context ctx name p =
     ctx\<lparr>ec_ProgramName := name, ec_GroupName := name, ec_NumProcs := pc_Numprocs p,
        ec_ProcessNum := pc_NumprocsStart p, ec_KeepProcessNum := pc_Numprocs p > 1\<rparr>"

definition expand_program ::
  "(string \<Rightarrow> string option) \<Rightarrow> ExpandContext \<Rightarrow> string \<Rightarrow> ProgramConfig \<Rightarrow> field_error + ProgramConfig" where
  "expand_program env ctx0 name p =
     (let ctx = program_context ctx0 name p;
          field = (\<lambda>key s. tag_error (FieldError [''programs'', name, key]) (expandString env ctx s)) in
      and_then (field ''command'' (pc_Command p)) (\<lambda>command.
      and_then (field ''directory'' (pc_Directory p)) (\<lambda>directory.
      and_then (field ''stdout_logfile'' (pc_StdoutLogfile p)) (\<lambda>out.
      and_then (field ''stderr_logfile'' (pc_StderrLogfile p)) (\<lambda>err.
      and_then (field ''process_name'' (pc_ProcessName p)) (\<lambda>pname.
      and_then (field ''user'' (pc_User p)) (\<lambda>user.
      and_then (expand_environment env ctx name (pc_Environment p)) (\<lambda>environment.
      Inr (p\<lparr>pc_Command := command, pc_Directory := directory, pc_StdoutLogfile := out,
             pc_StderrLogfile := err, pc_ProcessName := pname, pc_User := user,
             pc_Environment := environment\<rparr>)))))))))"

fun expand_programs ::
  "(string \<Rightarrow> string option) \<Rightarrow> ExpandContext \<Rightarrow> (string \<times> ProgramConfig) list
     \<Rightarrow> field_error + (string \<times> ProgramConfig) list" where
  "expand_programs env ctx [] = Inr []"
| "expand_programs env ctx ((name, p) # ps) =
     and_then (expand_program env ctx name p) (\<lambda>p'.
     and_then (expand_programs env ctx ps) (\<lambda>ps'. Inr ((name, p') # ps')))"

text \<open>\<open>filepath.Dir\<close> is the parameter \<open>dir\<close>.\<close>

definition ExpandVariables ::
  "(string \<Rightarrow> string) \<Rightarrow> (string \<Rightarrow> string option) \<Rightarrow> string \<Rightarrow> Config \<Rightarrow> field_error + Config" where
  "ExpandVariables dir env path cfg =
     (let ctx = \<lparr>ec_Here = dir path, ec_ProgramName = [], ec_ProcessNum = 0, ec_GroupName = [],
                 ec_NumProcs = 0, ec_KeepProcessNum = False\<rparr>;
          field = (\<lambda>key s. tag_error (FieldError key) (expandString env ctx s));
          sv = cf_Supervisor cfg; ux = sc_Unix (cf_Server cfg) in
      and_then (field [''supervisor'', ''logfile''] (sv_Logfile sv)) (\<lambda>logfile.
      and_then (field [''supervisor'', ''directory''] (sv_Directory sv)) (\<lambda>directory.
      and_then (field [''server'', ''unix'', ''file''] (ux_File ux)) (\<lambda>file.
      and_then (expand_programs env ctx (cf_Programs cfg)) (\<lambda>programs.
      Inr (cfg\<lparr>cf_Supervisor := sv\<lparr>sv_Logfile := logfile, sv_Directory := directory\<rparr>,
               cf_Server := (cf_Server cfg)\<lparr>sc_Unix := ux\<lparr>ux_File := file\<rparr>\<rparr>,
               cf_Programs := programs\<rparr>))))))"

section \<open>Correctness\<close>

text \<open>Doubling every percent and dollar sign, as the comments tell a user to write them.\<close>

fun escape :: "string \<Rightarrow> string" where
  "escape [] = []"
| "escape (c # cs) = (if c = CHR ''%'' \<or> c = CHR ''$'' then c # c # escape cs else c # escape cs)"

lemma expandTemplateVars_escape: "expandTemplateVars ctx (escape s) = Inr (escape s)"
  by (induction s) (auto simp: has_prefix_def)

lemma expandEnvVars_escape: "expandEnvVars env (escape s) = Inr (escape s)"
  by (induction s) (auto simp: has_prefix_def)

lemma escape_empty [simp]: "escape s = [] \<longleftrightarrow> s = []"
  by (cases s) simp_all

fun escape_dollars :: "string \<Rightarrow> string" where
  "escape_dollars [] = []"
| "escape_dollars (c # cs) = (if c = CHR ''$'' then c # c # escape_dollars cs else c # escape_dollars cs)"

lemma unescape_percents: "replace_all ''%%'' ''%'' (escape s) = escape_dollars s"
  by (induction s) (auto simp: has_prefix_def)

lemma unescape_dollars: "replace_all ''$$'' ''$'' (escape_dollars s) = s"
  by (induction s) (auto simp: has_prefix_def)

text \<open>
  Escaping works: a string whose percent and dollar signs are doubled expands
  to the string itself, in every context and environment.
\<close>

theorem expand_escaped: "expandString env ctx (escape s) = Inr s"
  by (simp add: expandString_def expandTemplateVars_escape expandEnvVars_escape
      unescape_percents unescape_dollars escape_empty)

text \<open>
  The unescaping pass runs over the substituted text too: a doubled percent or
  dollar sign in the value of an environment variable is collapsed, so the value does not reach
  the program as it is, and a reference in the configuration directory's name is expanded.
\<close>

theorem substituted_values_are_unescaped:
  "env ''P'' = Some ''a%%b$$c'' \<Longrightarrow> ec_Here ctx = ''/x${P}'' \<Longrightarrow>
   expandString env ctx ''${P}'' = Inr ''a%b$c'' \<and> expandString env ctx ''%(here)s'' = Inr ''/xa%b$c''"
  by (simp add: expandString_def has_prefix_def variable_end_def resolveTemplateVar_def)

theorem substituted_values_are_unescaped_witness:
  "expandString [''P'' \<mapsto> ''a%%b$$c'']
     \<lparr>ec_Here = ''/x${P}'', ec_ProgramName = ''web'', ec_ProcessNum = 0, ec_GroupName = ''web'',
      ec_NumProcs = 1, ec_KeepProcessNum = False\<rparr> ''${P}'' = Inr ''a%b$c''"
  by (rule substituted_values_are_unescaped [THEN conjunct1]) simp_all

end
