(* ===== verification/Config_Load.thy ===== *)
theory Config_Load
  imports Config_Validate Config_Expand
begin

text \<open>
  \<open>internal/config/search.go\<close>, \<open>load.go\<close>, \<open>include.go\<close>, \<open>ignored.go\<close> and \<open>sanitize.go\<close>: finding,
  loading and merging configuration files, the warnings they give, and the view of a
  configuration that the API may show.  What the files hold and how paths are resolved is the
  record \<open>cfg_env\<close>.
\<close>

section \<open>The search path\<close>

definition DefaultSearchPaths :: "string list" where
  "DefaultSearchPaths = [''./kahi.toml'', ''/etc/kahi/kahi.toml'', ''/etc/kahi.toml'']"

definition DaemonSearchPaths :: "string list" where
  "DaemonSearchPaths = [''/etc/kahi/kahi.toml'', ''/etc/kahi.toml'']"

datatype resolve_error = CannotRead string | NoConfigFile "string list"

fun first_existing :: "(string \<Rightarrow> bool) \<Rightarrow> string list \<Rightarrow> string option" where
  "first_existing exists [] = None"
| "first_existing exists (p # ps) = (if exists p then Some p else first_existing exists ps)"

text \<open>\<open>exists\<close> is a successful \<open>os.Stat\<close>; \<open>env\<close> the value of \<open>KAHI_CONFIG\<close>.\<close>

definition resolve ::
  "(string \<Rightarrow> bool) \<Rightarrow> string \<Rightarrow> string \<Rightarrow> string list \<Rightarrow> resolve_error + string" where
  "resolve exists env explicit searchPaths =
     (if explicit \<noteq> [] then (if exists explicit then Inr explicit else Inl (CannotRead explicit))
      else if env \<noteq> [] then (if exists env then Inr env else Inl (CannotRead env))
      else case first_existing exists searchPaths of
        Some p \<Rightarrow> Inr p
      | None \<Rightarrow> Inl (NoConfigFile searchPaths))"

definition Resolve :: "(string \<Rightarrow> bool) \<Rightarrow> string \<Rightarrow> string \<Rightarrow> resolve_error + string" where
  "Resolve exists env explicit = resolve exists env explicit DefaultSearchPaths"

definition ResolveDaemon :: "(string \<Rightarrow> bool) \<Rightarrow> string \<Rightarrow> string \<Rightarrow> resolve_error + string" where
  "ResolveDaemon exists env explicit = resolve exists env explicit DaemonSearchPaths"

lemma first_existing_Some: "first_existing exists ps = Some p \<Longrightarrow> p \<in> set ps \<and> exists p"
  by (induction ps) (auto split: if_splits)

text \<open>
  A daemon that was given neither a path nor \<open>KAHI_CONFIG\<close> never reads a file of the
  current directory: what it resolves to is an existing file under \<open>/etc\<close>; and an explicit path
  is used or refused, never replaced.
\<close>

theorem daemon_never_resolves_to_cwd:
  assumes "ResolveDaemon exists env explicit = Inr p"
  shows "exists p \<and> (if explicit \<noteq> [] then p = explicit else if env \<noteq> [] then p = env
     else has_prefix p ''/etc/'')"
  using assms
  by (auto simp: ResolveDaemon_def resolve_def DaemonSearchPaths_def has_prefix_def
      split: if_splits option.splits dest!: first_existing_Some)

theorem daemon_never_resolves_to_cwd_witness:
  "ResolveDaemon (\<lambda>p. True) [] [] = Inr ''/etc/kahi/kahi.toml'' \<and> has_prefix ''/etc/kahi/kahi.toml'' ''/etc/''"
proof -
  have r: "ResolveDaemon (\<lambda>p. True) [] [] = Inr ''/etc/kahi/kahi.toml''"
    by (simp add: ResolveDaemon_def resolve_def DaemonSearchPaths_def)
  show ?thesis using r daemon_never_resolves_to_cwd [OF r] by simp
qed

section \<open>Loading one file\<close>

text \<open>
  \<open>read\<close> reads a file; \<open>decode\<close> is the TOML decoder: the configuration, the defined keys and the
  undecoded keys.  \<open>glob\<close>, \<open>absolute\<close>, \<open>dir\<close> and \<open>clean\<close> are \<open>filepath\<close>'s functions, \<open>None\<close> an error.
\<close>

record cfg_env =
  ce_read :: "string \<Rightarrow> string option"
  ce_decode :: "string \<Rightarrow> (Config \<times> (string list \<Rightarrow> bool) \<times> string list list) option"
  ce_glob :: "string \<Rightarrow> string list option"
  ce_abs :: "string \<Rightarrow> string option"
  ce_dir :: "string \<Rightarrow> string"
  ce_clean :: "string \<Rightarrow> string"
  ce_lookup_env :: "string \<Rightarrow> string option"
  ce_socket :: string
  ce_goos :: string
  ce_split_host :: "string \<Rightarrow> (string \<times> string) option"
  ce_lookup_port :: "string \<Rightarrow> bool"

datatype load_error =
    ReadFailed string
  | ParseFailed string
  | Invalid string "cfg_error list"
  | ExpansionFailed string field_error
  | BadPattern string
  | NoAbsolutePath string
  | CircularInclude string
  | IncludeFailed string load_error
  | DuplicateProgram string string
  | InvalidNames "group_error list" "name_error list"
and group_error =
    EmptyGroup string
  | NoSuchProgram string string
  | InSeveralGroups string string string

definition LoadBytes ::
  "cfg_env \<Rightarrow> string \<Rightarrow> string \<Rightarrow> string list \<times> (load_error + Config)" where
  "LoadBytes e data path =
     (case ce_decode e data of
        None \<Rightarrow> ([], Inl (ParseFailed path))
      | Some (cfg0, defined, undecoded) \<Rightarrow>
          let cfg = ApplyDefaults defined (ce_socket e) cfg0;
              warnings = map (\<lambda>key. ''unknown config key: '' @ join ''.'' key) undecoded @
                         listenWarnings (ce_split_host e) cfg;
              errs = Validate (ce_split_host e) (ce_lookup_port e) (ce_goos e) cfg
          in if errs \<noteq> [] then (warnings, Inl (Invalid path errs)) else (warnings, Inr cfg))"

definition Load :: "cfg_env \<Rightarrow> string \<Rightarrow> string list \<times> (load_error + Config)" where
  "Load e path =
     (case ce_read e path of None \<Rightarrow> ([], Inl (ReadFailed path)) | Some data \<Rightarrow> LoadBytes e data path)"

section \<open>Merging\<close>

fun merge_programs_loop ::
  "string \<Rightarrow> (string \<times> ProgramConfig) list \<Rightarrow> (string \<times> ProgramConfig) list
     \<Rightarrow> load_error + (string \<times> ProgramConfig) list" where
  "merge_programs_loop path dst [] = Inr dst"
| "merge_programs_loop path dst ((name, prog) # src) =
     (case map_of dst name of
        Some _ \<Rightarrow> Inl (DuplicateProgram name path)
      | None \<Rightarrow> merge_programs_loop path (AList.update name prog dst) src)"

definition mergePrograms :: "string \<Rightarrow> Config \<Rightarrow> Config \<Rightarrow> load_error + Config" where
  "mergePrograms path dst src =
     and_then (merge_programs_loop path (cf_Programs dst) (cf_Programs src))
       (\<lambda>ps. Inr (dst\<lparr>cf_Programs := ps\<rparr>))"

definition mergeGroups :: "Config \<Rightarrow> Config \<Rightarrow> Config" where
  "mergeGroups dst src =
     dst\<lparr>cf_Groups := fold (\<lambda>(name, g). AList.update name g) (cf_Groups src) (cf_Groups dst)\<rparr>"

definition mergeWebhooks :: "Config \<Rightarrow> Config \<Rightarrow> Config" where
  "mergeWebhooks dst src =
     dst\<lparr>cf_Webhooks := fold (\<lambda>(name, w). AList.update name w) (cf_Webhooks src) (cf_Webhooks dst)\<rparr>"

lemma list_all2_map_eq:
  "list_all2 P xs ys \<Longrightarrow> (\<And>x y. P x y \<Longrightarrow> f x = g y) \<Longrightarrow> map f xs = map g ys"
  by (induction xs ys rule: list_all2_induct) auto

lemma merge_programs_loop_ok:
  "merge_programs_loop path dst src = Inr m \<Longrightarrow> distinct (map fst src) \<Longrightarrow>
   fst ` set dst \<inter> fst ` set src = {} \<and> map_of m = map_of src ++ map_of dst"
proof (induction path dst src rule: merge_programs_loop.induct)
  case (2 path dst name prog src)
  have new: "map_of dst name = None" using "2.prems"(1) by (cases "map_of dst name") auto
  then have r: "merge_programs_loop path (AList.update name prog dst) src = Inr m"
    using "2.prems"(1) by simp
  have IH: "insert name (fst ` set dst) \<inter> fst ` set src = {}"
    "map_of m = map_of src ++ map_of (AList.update name prog dst)"
    using "2.IH" [OF new r] "2.prems"(2) by (simp_all add: keys_update)
  have "name \<notin> fst ` set src" using "2.prems"(2) by simp
  then have "map_of src name = None" by (simp add: map_of_eq_None_iff)
  then have "map_of m = map_of ((name, prog) # src) ++ map_of dst"
    unfolding IH(2) using new by (auto simp: update_conv' map_add_def fun_eq_iff split: option.splits)
  moreover have "name \<notin> fst ` set dst" using new by (simp add: map_of_eq_None_iff)
  ultimately show ?case using IH(1) by (metis Int_insert_left Int_insert_right_if0 image_insert
      insert_disjoint(1) list.simps(15) fst_conv)
qed simp

section \<open>Includes\<close>

text \<open>
  Go recurses into an included file while its path is not in \<open>seen\<close>; \<open>fuel\<close> bounds the depth of
  nested files and \<open>OutOfFuel\<close> is its exhaustion.  \<open>IncOk\<close> carries the warnings, the files seen
  and the merged configuration, \<open>IncErr\<close> the warnings and the error.
\<close>

datatype include_result =
    OutOfFuel
  | IncErr "string list" load_error
  | IncOk "string list" "string list" Config

definition include_pattern :: "cfg_env \<Rightarrow> string \<Rightarrow> string \<Rightarrow> string" where
  "include_pattern e configDir pattern =
     (if is_abs pattern then pattern else path_join (ce_clean e) configDir pattern)"

text \<open>Loading and expanding one matched file: its absolute path, the warnings and its configuration.\<close>

definition open_include ::
  "cfg_env \<Rightarrow> string \<Rightarrow> string list \<Rightarrow> string list \<Rightarrow> include_result + (string \<times> string list \<times> Config)" where
  "open_include e path warnings seen =
     (case ce_abs e path of
        None \<Rightarrow> Inl (IncErr warnings (NoAbsolutePath path))
      | Some absPath \<Rightarrow>
          if absPath \<in> set seen then Inl (IncErr warnings (CircularInclude absPath))
          else (case Load e absPath of
            (_, Inl err) \<Rightarrow> Inl (IncErr warnings (IncludeFailed absPath err))
          | (incWarnings, Inr included) \<Rightarrow>
              (case ExpandVariables (ce_dir e) (ce_lookup_env e) absPath included of
                 Inl err \<Rightarrow> Inl (IncErr (warnings @ incWarnings)
                   (IncludeFailed absPath (ExpansionFailed absPath err)))
               | Inr included' \<Rightarrow> Inr (absPath, warnings @ incWarnings, included'))))"

definition merge_include :: "string \<Rightarrow> Config \<Rightarrow> Config \<Rightarrow> load_error + Config" where
  "merge_include absPath cfg included =
     and_then (mergePrograms absPath cfg included)
       (\<lambda>cfg1. Inr (mergeWebhooks (mergeGroups cfg1 included) included))"

function (sequential)
  include_patterns ::
    "cfg_env \<Rightarrow> nat \<Rightarrow> string \<Rightarrow> string list \<Rightarrow> string list \<Rightarrow> string list \<Rightarrow> Config \<Rightarrow> include_result" and
  include_files ::
    "cfg_env \<Rightarrow> nat \<Rightarrow> string list \<Rightarrow> string list \<Rightarrow> string list \<Rightarrow> Config \<Rightarrow> include_result"
where
  "include_patterns e fuel configDir [] warnings seen cfg =
     IncOk warnings seen (cfg\<lparr>cf_Include := []\<rparr>)"
| "include_patterns e fuel configDir (pat # pats) warnings seen cfg =
     (let pattern = include_pattern e configDir pat in
      case ce_glob e pattern of
        None \<Rightarrow> IncErr warnings (BadPattern pattern)
      | Some matches \<Rightarrow>
          if matches = []
          then include_patterns e fuel configDir pats
                 (warnings @ [''include pattern '' @ go_quote pattern @ '' matched no files'']) seen cfg
          else (case include_files e fuel (sort_strings matches) warnings seen cfg of
                  IncOk warnings' seen' cfg' \<Rightarrow> include_patterns e fuel configDir pats warnings' seen' cfg'
                | r \<Rightarrow> r))"
| "include_files e fuel [] warnings seen cfg = IncOk warnings seen cfg"
| "include_files e 0 (path # paths) warnings seen cfg =
     (case open_include e path warnings seen of Inl r \<Rightarrow> r | Inr _ \<Rightarrow> OutOfFuel)"
| "include_files e (Suc fuel) (path # paths) warnings seen cfg =
     (case open_include e path warnings seen of
        Inl r \<Rightarrow> r
      | Inr (absPath, w1, included) \<Rightarrow>
          (case include_patterns e fuel (ce_dir e absPath) (cf_Include included) [] (absPath # seen) included of
             OutOfFuel \<Rightarrow> OutOfFuel
           | IncErr nested err \<Rightarrow> IncErr (w1 @ nested) err
           | IncOk nested seen' included' \<Rightarrow>
               (case merge_include absPath cfg included' of
                  Inl err \<Rightarrow> IncErr (w1 @ nested) err
                | Inr cfg' \<Rightarrow> include_files e (Suc fuel) paths (w1 @ nested) seen' cfg')))"
  by pat_completeness auto
termination
  by (relation "measures [\<lambda>x. case x of Inl (e, n, d, ps, w, s, c) \<Rightarrow> n | Inr (e, n, fs, w, s, c) \<Rightarrow> n,
       \<lambda>x. case x of Inl _ \<Rightarrow> 1 | Inr _ \<Rightarrow> 0,
       \<lambda>x. case x of Inl (e, n, d, ps, w, s, c) \<Rightarrow> length ps | Inr (e, n, fs, w, s, c) \<Rightarrow> length fs]") auto

definition resolveIncludes :: "cfg_env \<Rightarrow> nat \<Rightarrow> string \<Rightarrow> string list \<Rightarrow> Config \<Rightarrow> include_result" where
  "resolveIncludes e fuel configDir seen cfg =
     (if cf_Include cfg = [] then IncOk [] seen cfg
      else include_patterns e fuel configDir (cf_Include cfg) [] seen cfg)"

text \<open>Files already merged stay in \<open>seen\<close>.\<close>

lemma include_seen_mono:
  "include_patterns e n d ps w seen cfg = IncOk w' seen' cfg' \<Longrightarrow> set seen \<subseteq> set seen'"
  "include_files e n fs w seen cfg = IncOk w' seen' cfg' \<Longrightarrow> set seen \<subseteq> set seen'"
proof (induction e n d ps w seen cfg and e n fs w seen cfg arbitrary: w' seen' cfg' and w' seen' cfg'
    rule: include_patterns_include_files.induct)
  case (2 e n d p ps w seen cfg)
  let ?pat = "include_pattern e d p"
  obtain ms where ms: "ce_glob e ?pat = Some ms"
    using "2.prems" by (cases "ce_glob e ?pat") (auto simp: Let_def)
  show ?case
  proof (cases "ms = []")
    case True
    then show ?thesis using "2.IH"(1) [OF refl ms] "2.prems" ms by (simp add: Let_def)
  next
    case False
    then obtain w1 s1 c1 where f: "include_files e n (sort_strings ms) w seen cfg = IncOk w1 s1 c1"
      using "2.prems" ms by (cases "include_files e n (sort_strings ms) w seen cfg") (auto simp: Let_def)
    then have "include_patterns e n d ps w1 s1 c1 = IncOk w' seen' cfg'"
      using "2.prems" ms False by (simp add: Let_def)
    then show ?thesis using "2.IH"(2) [OF refl ms False f] "2.IH"(3) [OF refl ms False f] by blast
  qed
next
  case (4 e p ps w seen cfg)
  then show ?case by (auto simp: open_include_def split: sum.splits option.splits if_splits prod.splits)
next
  case (5 e n p ps w seen cfg)
  show ?case
  proof (cases "open_include e p w seen")
    case (Inl r)
    then show ?thesis
      using "5.prems" by (auto simp: open_include_def split: sum.splits option.splits if_splits prod.splits)
  next
    case (Inr x)
    obtain a w1 inc where x: "x = (a, w1, inc)" by (metis prod_cases3)
    let ?r = "include_patterns e n (ce_dir e a) (cf_Include inc) [] (a # seen) inc"
    obtain nw s1 c1 where r: "?r = IncOk nw s1 c1"
      using "5.prems" Inr x by (cases ?r) auto
    obtain cfg1 where m: "merge_include a cfg c1 = Inr cfg1"
      using "5.prems" Inr x r by (cases "merge_include a cfg c1") auto
    then have "include_files e (Suc n) ps (w1 @ nw) s1 cfg1 = IncOk w' seen' cfg'"
      using "5.prems" Inr x r by simp
    then have "set s1 \<subseteq> set seen'" using "5.IH"(2) [OF Inr [unfolded x] refl refl r m] by blast
    moreover have "set (a # seen) \<subseteq> set s1" using "5.IH"(1) [OF Inr [unfolded x] refl refl r] by blast
    ultimately show ?thesis by auto
  qed
qed auto

lemma open_include_Inr:
  assumes "open_include e p w seen = Inr (a, w1, inc)"
  shows "a \<notin> set seen" and "\<exists>ws c. Load e a = (ws, Inr c)"
  using assms by (auto simp: open_include_def split: option.splits if_splits sum.splits prod.splits)

lemma open_include_Inl: "open_include e p w seen = Inl r \<Longrightarrow> r \<noteq> OutOfFuel"
  by (auto simp: open_include_def split: option.splits if_splits sum.splits prod.splits)

lemma include_enough_fuel:
  assumes F: "finite F" "\<And>p ws c. Load e p = (ws, Inr c) \<Longrightarrow> p \<in> F"
  shows "card (F - set seen) \<le> n \<Longrightarrow> include_patterns e n d ps w seen cfg \<noteq> OutOfFuel"
    and "card (F - set seen) \<le> n \<Longrightarrow> include_files e n fs w seen cfg \<noteq> OutOfFuel"
  using F
proof (induction e n d ps w seen cfg and e n fs w seen cfg rule: include_patterns_include_files.induct)
  case (2 e n d p ps w seen cfg)
  note F = "2.prems"(2,3)
  let ?pat = "include_pattern e d p"
  show ?case
  proof (cases "ce_glob e ?pat")
    case (Some ms)
    show ?thesis
    proof (cases "ms = []")
      case True
      then show ?thesis using "2.IH"(1) [OF refl Some True "2.prems"(1) F] Some by (simp add: Let_def)
    next
      case False
      note IHf = "2.IH"(2) [OF refl Some False "2.prems"(1) F]
      show ?thesis
      proof (cases "include_files e n (sort_strings ms) w seen cfg")
        case (IncOk w1 s1 c1)
        have "set seen \<subseteq> set s1" using include_seen_mono(2) IncOk by blast
        then have "card (F - set s1) \<le> card (F - set seen)"
          using F(1) by (intro card_mono) auto
        then have "card (F - set s1) \<le> n" using "2.prems"(1) by simp
        from "2.IH"(3) [OF refl Some False IncOk this F]
        show ?thesis using Some False IncOk by (simp add: Let_def)
      qed (use Some False IHf in \<open>simp_all add: Let_def\<close>)
    qed
  qed (simp add: Let_def)
next
  case (4 e p ps w seen cfg)
  note F = "4.prems"(2,3)
  show ?case
  proof (cases "open_include e p w seen")
    case (Inr x)
    obtain a w1 inc where x: "x = (a, w1, inc)" by (metis prod_cases3)
    have "a \<in> F - set seen" using open_include_Inr [OF Inr [unfolded x]] F(2) by blast
    then have "card (F - set seen) \<noteq> 0" using F(1) by auto
    then show ?thesis using "4.prems"(1) by simp
  qed (use open_include_Inl in auto)
next
  case (5 e n p ps w seen cfg)
  note F = "5.prems"(2,3)
  show ?case
  proof (cases "open_include e p w seen")
    case (Inr x)
    obtain a w1 inc where x: "x = (a, w1, inc)" by (metis prod_cases3)
    have a: "a \<in> F - set seen" using open_include_Inr [OF Inr [unfolded x]] F(2) by blast
    have "F - set (a # seen) = (F - set seen) - {a}" by auto
    then have "card (F - set (a # seen)) = card (F - set seen) - 1" using a F(1) by simp
    then have "card (F - set (a # seen)) \<le> n" using "5.prems"(1) by simp
    note IHp = "5.IH"(1) [OF Inr [unfolded x] refl refl this F]
    let ?r = "include_patterns e n (ce_dir e a) (cf_Include inc) [] (a # seen) inc"
    show ?thesis
    proof (cases ?r)
      case (IncOk nw s1 c1)
      have "set seen \<subseteq> set s1" using include_seen_mono(1) [OF IncOk] by auto
      then have "card (F - set s1) \<le> card (F - set seen)"
        using F(1) by (intro card_mono) auto
      then have c: "card (F - set s1) \<le> Suc n" using "5.prems"(1) by simp
      show ?thesis
      proof (cases "merge_include a cfg c1")
        case (Inr cfg1)
        from "5.IH"(2) [OF \<open>open_include e p w seen = Inr x\<close> [unfolded x] refl refl IncOk Inr c F]
        show ?thesis using \<open>open_include e p w seen = Inr x\<close> x IncOk Inr by simp
      qed (use Inr x IncOk in simp)
    qed (use Inr x IHp in simp_all)
  qed (use open_include_Inl in auto)
qed simp_all

text \<open>
  C31 (termination).  Include resolution always ends, cycles and all: when only finitely many
  files load, a depth of as many files as have not been seen is enough, because no file is loaded
  twice.
\<close>

theorem includes_terminate:
  assumes "finite F" and "\<And>p ws c. Load e p = (ws, Inr c) \<Longrightarrow> p \<in> F" and "card (F - set seen) \<le> n"
  shows "resolveIncludes e n configDir seen cfg \<noteq> OutOfFuel"
  using include_enough_fuel(1) [OF assms(1,2,3)] by (simp add: resolveIncludes_def)

definition no_files :: cfg_env where
  "no_files = \<lparr>ce_read = (\<lambda>p. if p = ''a'' then Some [] else None),
     ce_decode = (\<lambda>_. Some (sample_config\<lparr>cf_Programs := [], cf_Include := [''a'']\<rparr>, (\<lambda>_. False), [])),
     ce_glob = (\<lambda>p. Some [''a'']), ce_abs = Some, ce_dir = (\<lambda>_. ''/''), ce_clean = (\<lambda>p. p),
     ce_lookup_env = (\<lambda>_. None), ce_socket = RootSocketPath, ce_goos = ''linux'',
     ce_split_host = (\<lambda>_. None), ce_lookup_port = (\<lambda>_. True)\<rparr>"

text \<open>A file that includes itself.\<close>

theorem includes_terminate_witness:
  "resolveIncludes no_files 1 ''/'' [] (sample_config\<lparr>cf_Include := [''a'']\<rparr>) \<noteq> OutOfFuel"
proof (rule includes_terminate [of "{''a''}"])
  fix p ws c assume "Load no_files p = (ws, Inr c)"
  then show "p \<in> {''a''}" by (auto simp: Load_def no_files_def split: if_splits)
qed simp_all

section \<open>The whole load\<close>

fun group_reference_errors :: "Config \<Rightarrow> (string \<times> GroupConfig) list \<Rightarrow> group_error list" where
  "group_reference_errors cfg [] = []"
| "group_reference_errors cfg ((groupName, grp) # gs) =
     err_if (gc_Programs grp = []) (EmptyGroup groupName) @
     concat (map (\<lambda>prog. err_if (map_of (cf_Programs cfg) prog = None) (NoSuchProgram groupName prog))
       (gc_Programs grp)) @
     group_reference_errors cfg gs"

text \<open>The second loop, over pairs of a group and one of its programs.\<close>

fun several_groups :: "(string \<times> string) list \<Rightarrow> (string \<times> string) list \<Rightarrow> group_error list" where
  "several_groups [] owner = []"
| "several_groups ((groupName, prog) # rest) owner =
     (case map_of owner prog of
        Some existing \<Rightarrow> [InSeveralGroups prog existing groupName]
      | None \<Rightarrow> []) @ several_groups rest ((prog, groupName) # owner)"

definition validateGroupReferences :: "Config \<Rightarrow> group_error list" where
  "validateGroupReferences cfg =
     group_reference_errors cfg (cf_Groups cfg) @
     several_groups (concat (map (\<lambda>(g, grp). map (\<lambda>prog. (g, prog)) (gc_Programs grp)) (cf_Groups cfg))) []"

definition stopWaitWarnings :: "Config \<Rightarrow> string list" where
  "stopWaitWarnings cfg =
     (let limit = sv_ShutdownTimeout (cf_Supervisor cfg);
          names = map fst (filter (\<lambda>(name, p). pc_Stopwaitsecs p > limit) (cf_Programs cfg)) in
      map (\<lambda>name. ''program '' @ go_quote name @ '': stopwaitsecs ('' @
          itoa (pc_Stopwaitsecs (the (map_of (cf_Programs cfg) name))) @
          '') exceeds supervisor.shutdown_timeout ('' @ itoa limit @
          ''); daemon shutdown will SIGKILL it after '' @ itoa limit @ ''s'') (sort_strings names))"

definition warn_if :: "bool \<Rightarrow> string \<Rightarrow> string list" where
  "warn_if b setting = (if b then [setting @ '' is not implemented yet and is ignored''] else [])"

definition ignoredSettingWarnings :: "Config \<Rightarrow> string list" where
  "ignoredSettingWarnings cfg =
     (let s = cf_Supervisor cfg in
      warn_if (cf_Webhooks cfg \<noteq> [])
        (''[webhooks] ('' @ join '', '' (sort_strings (map fst (cf_Webhooks cfg))) @ ''): no webhook is delivered'') @
      warn_if (sv_Directory s \<noteq> []) ''supervisor.directory'' @
      warn_if (sv_Minfds s \<noteq> 1024) (''supervisor.minfds = '' @ itoa (sv_Minfds s)) @
      warn_if (sv_Minprocs s \<noteq> 200) (''supervisor.minprocs = '' @ itoa (sv_Minprocs s)) @
      warn_if (sv_Nocleanup s) ''supervisor.nocleanup'' @
      warn_if (sv_Identifier s \<noteq> []) ''supervisor.identifier'' @
      concat (map (\<lambda>name.
        (let p = the (map_of (cf_Programs cfg) name) in
         warn_if (pc_StdoutCaptureMaxbytes p \<noteq> []) (''programs.'' @ name @
           ''.stdout_capture_maxbytes (the capture buffer is fixed at 64 KB)'') @
         warn_if (pc_StderrCaptureMaxbytes p \<noteq> []) (''programs.'' @ name @
           ''.stderr_capture_maxbytes (the capture buffer is fixed at 64 KB)'') @
         warn_if (pc_StdoutSyslog p) (''programs.'' @ name @ ''.stdout_syslog'') @
         warn_if (pc_StderrSyslog p) (''programs.'' @ name @ ''.stderr_syslog'')))
        (sort_strings (map fst (cf_Programs cfg)))))"

text \<open>The result of \<open>LoadWithIncludes\<close>: \<open>None\<close> when the fuel for the includes runs out.\<close>

definition LoadWithIncludes ::
  "cfg_env \<Rightarrow> nat \<Rightarrow> string \<Rightarrow> (string list \<times> (load_error + Config)) option" where
  "LoadWithIncludes e fuel path =
     (case Load e path of
        (warnings, Inl err) \<Rightarrow> Some (warnings, Inl err)
      | (warnings, Inr cfg0) \<Rightarrow>
          (case ExpandVariables (ce_dir e) (ce_lookup_env e) path cfg0 of
             Inl err \<Rightarrow> Some (warnings, Inl (ExpansionFailed path err))
           | Inr cfg1 \<Rightarrow>
               (let seen = (case ce_abs e path of Some a \<Rightarrow> [a] | None \<Rightarrow> []) in
                case resolveIncludes e fuel (ce_dir e path) seen cfg1 of
                  OutOfFuel \<Rightarrow> None
                | IncErr w err \<Rightarrow> Some (warnings @ w, Inl err)
                | IncOk w seen' cfg \<Rightarrow>
                    let groupErrs = validateGroupReferences cfg; nameErrs = validateProcessNames cfg in
                    if groupErrs \<noteq> [] \<or> nameErrs \<noteq> []
                    then Some (warnings @ w, Inl (InvalidNames groupErrs nameErrs))
                    else Some (warnings @ w @ stopWaitWarnings cfg @ ignoredSettingWarnings cfg, Inr cfg))))"

lemma group_reference_errors_ok:
  "group_reference_errors cfg gs = [] \<Longrightarrow> (g, grp) \<in> set gs \<Longrightarrow>
   gc_Programs grp \<noteq> [] \<and> (\<forall>prog\<in>set (gc_Programs grp). map_of (cf_Programs cfg) prog \<noteq> None)"
  by (induction gs rule: group_reference_errors.induct) auto

lemma several_groups_ok:
  "several_groups ps owner = [] \<Longrightarrow> distinct (map snd ps) \<and> snd ` set ps \<inter> fst ` set owner = {}"
proof (induction ps owner rule: several_groups.induct)
  case (2 g prog rest owner)
  have n: "map_of owner prog = None" and r: "several_groups rest ((prog, g) # owner) = []"
    using "2.prems" by (auto split: option.splits)
  have "prog \<notin> fst ` set owner" using n by (simp add: map_of_eq_None_iff)
  then show ?case using "2.IH" [OF r] by auto
qed simp

text \<open>
  What \<open>LoadWithIncludes\<close> accepts is consistent across all files: process names are
  pairwise distinct, every group lists at least one program and only programs that exist, and no
  program is listed twice, in one group or in two.
\<close>

theorem loaded_config_consistent:
  assumes "LoadWithIncludes e fuel path = Some (warnings, Inr cfg)"
  shows "distinct (concat (map (\<lambda>n. InstanceNames n (the (map_of (cf_Programs cfg) n)))
            (sort_strings (map fst (cf_Programs cfg))))) \<and>
         (\<forall>(g, grp)\<in>set (cf_Groups cfg). gc_Programs grp \<noteq> [] \<and>
            (\<forall>prog\<in>set (gc_Programs grp). map_of (cf_Programs cfg) prog \<noteq> None)) \<and>
         distinct (concat (map (\<lambda>(g, grp). gc_Programs grp) (cf_Groups cfg)))"
proof -
  have v: "validateGroupReferences cfg = []" "validateProcessNames cfg = []"
    using assms
    by (auto simp: LoadWithIncludes_def Let_def split: sum.splits prod.splits include_result.splits if_splits)
  let ?ps = "concat (map (\<lambda>(g, grp). map (\<lambda>prog. (g, prog)) (gc_Programs grp)) (cf_Groups cfg))"
  have "several_groups ?ps [] = []" using v(1) by (simp add: validateGroupReferences_def)
  then have "distinct (map snd ?ps)" using several_groups_ok by blast
  moreover have "map snd ?ps = concat (map (\<lambda>(g, grp). gc_Programs grp) (cf_Groups cfg))"
    by (simp add: map_concat comp_def split_def)
  ultimately have d: "distinct (concat (map (\<lambda>(g, grp). gc_Programs grp) (cf_Groups cfg)))" by simp
  have "group_reference_errors cfg (cf_Groups cfg) = []"
    using v(1) by (simp add: validateGroupReferences_def)
  then have g: "\<forall>(g, grp)\<in>set (cf_Groups cfg). gc_Programs grp \<noteq> [] \<and>
            (\<forall>prog\<in>set (gc_Programs grp). map_of (cf_Programs cfg) prog \<noteq> None)"
    using group_reference_errors_ok by fast
  have "distinct (concat (map (\<lambda>n. InstanceNames n (the (map_of (cf_Programs cfg) n)))
            (sort_strings (map fst (cf_Programs cfg)))))"
    using validate_names_loop_ok [OF v(2) [unfolded validateProcessNames_def]]
    by (force simp: Let_def map_of_eq_None_iff)
  then show ?thesis using d g by blast
qed

section \<open>The view for the API\<close>

definition RedactMask :: string where "RedactMask = ''***''"

definition maskValues :: "(string \<times> string) list \<Rightarrow> (string \<times> string) list" where
  "maskValues m = map (\<lambda>(k, v). (k, RedactMask)) m"

text \<open>\<open>url.Parse\<close> followed by dropping the user information and \<open>String\<close> is the parameter \<open>strip\<close>.\<close>

definition stripURLUserinfo :: "(string \<Rightarrow> string option) \<Rightarrow> string \<Rightarrow> string" where
  "stripURLUserinfo strip raw =
     (if raw = [] then raw
      else case strip raw of
        None \<Rightarrow> if contains raw ''@'' then RedactMask else raw
      | Some u \<Rightarrow> u)"

definition Sanitized :: "(string \<Rightarrow> string option) \<Rightarrow> Config \<Rightarrow> Config" where
  "Sanitized strip c =
     c\<lparr>cf_Programs := map (\<lambda>(name, p). (name, p\<lparr>pc_Environment := maskValues (pc_Environment p)\<rparr>))
         (cf_Programs c),
       cf_Webhooks := map (\<lambda>(name, w). (name, w\<lparr>wc_Headers := maskValues (wc_Headers w),
           wc_URL := stripURLUserinfo strip (wc_URL w)\<rparr>)) (cf_Webhooks c)\<rparr>"

text \<open>
  Two configurations that differ only in secrets: the values of environment variables and of
  webhook headers, and what \<open>strip\<close> removes from a webhook address.
\<close>

definition same_keys :: "(string \<times> string) list \<Rightarrow> (string \<times> string) list \<Rightarrow> bool" where
  "same_keys a b \<longleftrightarrow> map fst a = map fst b"

definition program_public_eq :: "ProgramConfig \<Rightarrow> ProgramConfig \<Rightarrow> bool" where
  "program_public_eq p q \<longleftrightarrow> same_keys (pc_Environment p) (pc_Environment q) \<and>
     p\<lparr>pc_Environment := []\<rparr> = q\<lparr>pc_Environment := []\<rparr>"

definition webhook_public_eq :: "(string \<Rightarrow> string option) \<Rightarrow> WebhookConfig \<Rightarrow> WebhookConfig \<Rightarrow> bool" where
  "webhook_public_eq strip v w \<longleftrightarrow> same_keys (wc_Headers v) (wc_Headers w) \<and>
     wc_URL v \<noteq> [] \<and> wc_URL w \<noteq> [] \<and> strip (wc_URL v) \<noteq> None \<and> strip (wc_URL v) = strip (wc_URL w) \<and>
     v\<lparr>wc_Headers := [], wc_URL := []\<rparr> = w\<lparr>wc_Headers := [], wc_URL := []\<rparr>"

definition public_eq :: "(string \<Rightarrow> string option) \<Rightarrow> Config \<Rightarrow> Config \<Rightarrow> bool" where
  "public_eq strip c d \<longleftrightarrow>
     list_all2 (\<lambda>x y. fst x = fst y \<and> program_public_eq (snd x) (snd y)) (cf_Programs c) (cf_Programs d) \<and>
     list_all2 (\<lambda>x y. fst x = fst y \<and> webhook_public_eq strip (snd x) (snd y)) (cf_Webhooks c) (cf_Webhooks d) \<and>
     c\<lparr>cf_Programs := [], cf_Webhooks := []\<rparr> = d\<lparr>cf_Programs := [], cf_Webhooks := []\<rparr>"

lemma maskValues_keys: "same_keys a b \<Longrightarrow> maskValues a = maskValues b"
proof -
  have "maskValues m = map (\<lambda>k. (k, RedactMask)) (map fst m)" for m
    by (simp add: maskValues_def case_prod_beta)
  then show "same_keys a b \<Longrightarrow> maskValues a = maskValues b" by (simp only: same_keys_def)
qed

lemma sanitized_program:
  "program_public_eq p q \<Longrightarrow>
   p\<lparr>pc_Environment := maskValues (pc_Environment p)\<rparr> = q\<lparr>pc_Environment := maskValues (pc_Environment q)\<rparr>"
proof -
  assume e: "program_public_eq p q"
  have r: "x\<lparr>pc_Environment := v\<rparr> = (x\<lparr>pc_Environment := []\<rparr>)\<lparr>pc_Environment := v\<rparr>" for x :: ProgramConfig and v
    by simp
  show ?thesis using e maskValues_keys r unfolding program_public_eq_def by metis
qed

lemma sanitized_webhook:
  "webhook_public_eq strip v w \<Longrightarrow>
   v\<lparr>wc_Headers := maskValues (wc_Headers v), wc_URL := stripURLUserinfo strip (wc_URL v)\<rparr> =
   w\<lparr>wc_Headers := maskValues (wc_Headers w), wc_URL := stripURLUserinfo strip (wc_URL w)\<rparr>"
proof -
  assume e: "webhook_public_eq strip v w"
  have r: "x\<lparr>wc_Headers := h, wc_URL := u\<rparr> = (x\<lparr>wc_Headers := [], wc_URL := []\<rparr>)\<lparr>wc_Headers := h, wc_URL := u\<rparr>"
    for x :: WebhookConfig and h u by simp
  have "stripURLUserinfo strip (wc_URL v) = stripURLUserinfo strip (wc_URL w)"
    using e by (auto simp: webhook_public_eq_def stripURLUserinfo_def)
  then show ?thesis using e maskValues_keys r unfolding webhook_public_eq_def by metis
qed

text \<open>
  The configuration view reveals no secret: two configurations that differ only in
  the values of environment variables and webhook headers and in the user information of webhook
  addresses have the same view.
\<close>

theorem sanitized_view_hides_secrets:
  assumes "public_eq strip c d" shows "Sanitized strip c = Sanitized strip d"
proof -
  let ?P = "\<lambda>c. map (\<lambda>(n, p). (n, p\<lparr>pc_Environment := maskValues (pc_Environment p)\<rparr>)) (cf_Programs c)"
  let ?W = "\<lambda>c. map (\<lambda>(n, w). (n, w\<lparr>wc_Headers := maskValues (wc_Headers w),
           wc_URL := stripURLUserinfo strip (wc_URL w)\<rparr>)) (cf_Webhooks c)"
  have P: "?P c = ?P d"
    by (rule list_all2_map_eq [of "\<lambda>x y. fst x = fst y \<and> program_public_eq (snd x) (snd y)"])
      (use assms sanitized_program in \<open>auto simp: public_eq_def\<close>)
  have W: "?W c = ?W d"
    by (rule list_all2_map_eq [of "\<lambda>x y. fst x = fst y \<and> webhook_public_eq strip (snd x) (snd y)"])
      (use assms sanitized_webhook in \<open>auto simp: public_eq_def\<close>)
  have S: "Sanitized strip x = (x\<lparr>cf_Programs := [], cf_Webhooks := []\<rparr>)\<lparr>cf_Programs := ?P x, cf_Webhooks := ?W x\<rparr>"
    for x by (simp add: Sanitized_def)
  have e: "c\<lparr>cf_Programs := [], cf_Webhooks := []\<rparr> = d\<lparr>cf_Programs := [], cf_Webhooks := []\<rparr>"
    using assms by (simp add: public_eq_def)
  show ?thesis by (simp only: S [of c] S [of d] P W e)
qed

definition secret_config :: "string \<Rightarrow> Config" where
  "secret_config v = sample_config\<lparr>cf_Programs := [(''web'', sample_program\<lparr>pc_Environment := [(''TOKEN'', v)]\<rparr>)]\<rparr>"

theorem sanitized_view_hides_secrets_witness:
  "Sanitized (\<lambda>u. Some u) (secret_config ''s3cret'') = Sanitized (\<lambda>u. Some u) (secret_config ''other'')"
  by (rule sanitized_view_hides_secrets)
    (simp add: public_eq_def secret_config_def program_public_eq_def same_keys_def sample_config_def)

definition one_file :: cfg_env where
  "one_file = no_files\<lparr>ce_decode := (\<lambda>_. Some (sample_config\<lparr>cf_Programs := []\<rparr>, (\<lambda>_. False), []))\<rparr>"

lemma bare_config_loads: "\<exists>w. LoadWithIncludes one_file 0 ''a'' = Some (w, Inr bare_config)"
proof -
  have b: "cf_Programs bare_config = []" "cf_Groups bare_config = []" "cf_Include bare_config = []"
    "sv_Logfile (cf_Supervisor bare_config) = []" "sv_Directory (cf_Supervisor bare_config) = []"
    by (simp_all add: bare_config_def ApplyDefaults_def sample_config_def default_supervisor_def)
  have f: "ux_File (sc_Unix (cf_Server bare_config)) = RootSocketPath"
    by (simp add: bare_config_def ApplyDefaults_def sample_config_def default_unix_def or_default_def)
  have "ExpandVariables d env p bare_config = Inr bare_config" for d env p
  proof -
    have "expandString env ctx RootSocketPath = Inr RootSocketPath" for env ctx
      by (simp add: RootSocketPath_def expandString_def has_prefix_def)
    then show ?thesis
      by (simp add: ExpandVariables_def Let_def b f expandString_def)
  qed
  moreover have "Load one_file ''a'' = (listenWarnings (\<lambda>_. None) bare_config, Inr bare_config)"
    using bare_config_valid
    by (simp add: Load_def LoadBytes_def one_file_def no_files_def bare_config_def Let_def)
  ultimately show ?thesis
    by (simp add: LoadWithIncludes_def Let_def one_file_def no_files_def resolveIncludes_def b
        validateGroupReferences_def validateProcessNames_def sort_strings_def)
qed

theorem loaded_config_consistent_witness:
  "\<exists>w. LoadWithIncludes one_file 0 ''a'' = Some (w, Inr bare_config) \<and>
     distinct (concat (map (\<lambda>(g, grp). gc_Programs grp) (cf_Groups bare_config)))"
  using bare_config_loads loaded_config_consistent by blast

end
