(* ===== verification/Manager_Loading.thy ===== *)
theory Manager_Loading
  imports Manager_Invariant Config_Load
begin

text \<open>
  From a configuration to the processes: what \<open>ExpandNumprocs\<close> and \<open>LoadConfig\<close> make of a
  configuration, and how the output of a process reaches the log, the events and the daemon's own
  output.
\<close>

section \<open>Instances\<close>

lemma expandVar_none: "index_of num_pattern (expandVar s n) = None"
proof (induction s n rule: expandVar.induct)
  case (1 s n)
  then show ?case by (cases "index_of num_pattern s") (simp_all add: expandVar.simps [of s n])
qed

lemma expandVar_other: "index_of num_pattern s = None \<Longrightarrow> expandVar s n = s"
  by (simp add: expandVar.simps [of s n])

lemma ExpandNumprocs_names: "map pi_Name (ExpandNumprocs prog cfg) = InstanceNames prog cfg"
proof (cases "pc_Numprocs cfg \<le> 1")
  case False
  have "map pi_Name (map (\<lambda>(k, name). \<lparr>pi_Name = name, pi_Group = prog, pi_Config = f k\<rparr>) (zip [0..<length ns] ns)) = ns"
    for f and ns :: "string list"
    by (simp add: comp_def case_prod_beta)
  then show ?thesis using False by (simp add: ExpandNumprocs_def Let_def del: map_map)
qed (simp add: ExpandNumprocs_def Let_def InstanceNames_def)

lemma ExpandNumprocs_group: "i \<in> set (ExpandNumprocs prog cfg) \<Longrightarrow> pi_Group i = prog"
  by (auto simp: ExpandNumprocs_def Let_def split: if_splits)

text \<open>
  Expanding \<open>numprocs\<close> gives one instance per name, in order, of the program's
  group; with several processes the instance numbers are consecutive from \<open>numprocs_start\<close> and no
  instance has the placeholder left in its command, directory, log files, user or environment.
\<close>

theorem instances_are_numbered:
  assumes "1 < pc_Numprocs cfg" and "k < length (InstanceNames prog cfg)"
  shows "length (ExpandNumprocs prog cfg) = length (InstanceNames prog cfg) \<and>
     (let i = ExpandNumprocs prog cfg ! k; c = pi_Config i in
        pi_Name i = instanceName prog cfg (pc_NumprocsStart cfg + int k) \<and> pi_Group i = prog \<and>
        c = instanceConfig cfg (pc_NumprocsStart cfg + int k) \<and>
        (\<forall>s\<in>{pc_Command c, pc_Directory c, pc_StdoutLogfile c, pc_StderrLogfile c, pc_User c} \<union>
           snd ` set (pc_Environment c). \<not> contains s num_pattern))"
proof -
  let ?ns = "InstanceNames prog cfg" and ?c = "instanceConfig cfg (pc_NumprocsStart cfg + int k)"
  have ns: "?ns = map (instanceName prog cfg)
      [pc_NumprocsStart cfg .. i64 (pc_NumprocsStart cfg + pc_Numprocs cfg) - 1]"
    using assms(1) by (simp add: InstanceNames_def)
  then have nth: "?ns ! k = instanceName prog cfg (pc_NumprocsStart cfg + int k)"
    using assms(2) by simp
  have e: "ExpandNumprocs prog cfg ! k = \<lparr>pi_Name = ?ns ! k, pi_Group = prog, pi_Config = ?c\<rparr>"
    "length (ExpandNumprocs prog cfg) = length ?ns"
    using assms by (simp_all add: ExpandNumprocs_def Let_def)
  have "\<forall>s\<in>{pc_Command ?c, pc_Directory ?c, pc_StdoutLogfile ?c, pc_StderrLogfile ?c, pc_User ?c} \<union>
      snd ` set (pc_Environment ?c). \<not> contains s num_pattern"
    by (auto simp: instanceConfig_def contains_def expandVar_none)
  then show ?thesis using e nth by (simp add: Let_def)
qed

theorem instances_are_numbered_witness:
  "pi_Name (ExpandNumprocs ''web'' (sample_program\<lparr>pc_Numprocs := 2\<rparr>) ! 1) = ''web_1''"
proof -
  let ?c = "sample_program\<lparr>pc_Numprocs := 2\<rparr>"
  have f: "pc_Numprocs ?c = 2" "pc_NumprocsStart ?c = 0" "pc_ProcessName ?c = []"
    by (simp_all add: sample_program_def zero_program_def)
  have "[0..1::int] = [0, 1]" by (simp add: upto.simps)
  then have "length (InstanceNames ''web'' ?c) = 2" using f by (simp add: InstanceNames_def i64_id)
  moreover have "itoa 1 = ''1''" by code_simp
  ultimately show ?thesis
    using instances_are_numbered [of ?c 1 "''web''"] f by (simp add: Let_def instanceName_def)
qed

section \<open>Loading\<close>

definition loaded_process :: "bool \<Rightarrow> ProcessInstance \<Rightarrow> string \<times> Process" where
  "loaded_process sh i = (pi_Name i, NewProcess (pi_Name i) (pi_Group i) (pi_Config i) sh)"

lemma new_capture_keeps [simp]:
  "mg_groups (new_capture os k s c m) = mg_groups m" "mg_shutdown (new_capture os k s c m) = mg_shutdown m"
  by (simp_all add: new_capture_def case_prod_beta)

lemma load_instances_fresh:
  assumes "distinct (map pi_Name insts)" and "set (map pi_Name insts) \<inter> fst ` set (mg_processes m) = {}"
  shows "mg_processes (fst (load_instances os insts m)) = mg_processes m @ map (loaded_process (mg_shutdown m)) insts"
    and "snd (load_instances os insts m) = map pi_Name insts"
    and "mg_groups (fst (load_instances os insts m)) = mg_groups m"
    and "mg_shutdown (fst (load_instances os insts m)) = mg_shutdown m"
proof -
  have "mg_processes (fst (load_instances os insts m)) = mg_processes m @ map (loaded_process (mg_shutdown m)) insts \<and>
      snd (load_instances os insts m) = map pi_Name insts \<and>
      mg_groups (fst (load_instances os insts m)) = mg_groups m \<and>
      mg_shutdown (fst (load_instances os insts m)) = mg_shutdown m"
    using assms
  proof (induction insts arbitrary: m)
    case (Cons i insts)
    have n: "GetProcess m (pi_Name i) = None" using Cons.prems(2) by (simp add: GetProcess_def map_of_eq_None_iff)
    define m2 where "m2 = (if pc_RedirectStderr (pi_Config i) then new_capture os (pi_Name i) ''stdout'' (pi_Config i) m
        else new_capture os (pi_Name i) ''stderr'' (pi_Config i) (new_capture os (pi_Name i) ''stdout'' (pi_Config i) m))"
    define m3 where "m3 = m2\<lparr>mg_processes := AList.update (pi_Name i)
        (NewProcess (pi_Name i) (pi_Group i) (pi_Config i) (mg_shutdown m2)) (mg_processes m2)\<rparr>"
    have m2: "mg_processes m2 = mg_processes m" "mg_shutdown m2 = mg_shutdown m" "mg_groups m2 = mg_groups m"
      by (simp_all add: m2_def)
    have m3: "mg_processes m3 = mg_processes m @ [loaded_process (mg_shutdown m) i]"
      "mg_shutdown m3 = mg_shutdown m" "mg_groups m3 = mg_groups m"
      using Cons.prems(2) m2 by (simp_all add: m3_def loaded_process_def update_new)
    have "load_instances os (i # insts) m =
        (fst (load_instances os insts m3), pi_Name i # snd (load_instances os insts m3))"
      using n by (simp add: m3_def m2_def Let_def case_prod_beta)
    then show ?case using Cons.IH [of m3] Cons.prems m3 by (auto simp: loaded_process_def)
  qed simp
  then show "mg_processes (fst (load_instances os insts m)) = mg_processes m @ map (loaded_process (mg_shutdown m)) insts"
    "snd (load_instances os insts m) = map pi_Name insts"
    "mg_groups (fst (load_instances os insts m)) = mg_groups m"
    "mg_shutdown (fst (load_instances os insts m)) = mg_shutdown m" by blast+
qed

definition config_instances :: "(string \<times> ProgramConfig) list \<Rightarrow> ProcessInstance list" where
  "config_instances ps = concat (map (\<lambda>(prog, cfg). ExpandNumprocs prog cfg) ps)"

lemma config_instances_names:
  "map pi_Name (config_instances ps) = concat (map (\<lambda>(prog, cfg). InstanceNames prog cfg) ps)"
  by (simp add: config_instances_def map_concat comp_def split_def ExpandNumprocs_names)

lemma load_programs_fresh:
  "distinct (map pi_Name (config_instances ps)) \<Longrightarrow>
   set (map pi_Name (config_instances ps)) \<inter> fst ` set (mg_processes m) = {} \<Longrightarrow>
   mg_processes (load_programs os ps m) = mg_processes m @ map (loaded_process (mg_shutdown m)) (config_instances ps)"
proof (induction os ps m rule: load_programs.induct)
  case (2 os prog cfg ps m)
  let ?is = "ExpandNumprocs prog cfg"
  have c: "config_instances ((prog, cfg) # ps) = ?is @ config_instances ps" by (simp add: config_instances_def)
  have d: "distinct (map pi_Name ?is)" "set (map pi_Name ?is) \<inter> fst ` set (mg_processes m) = {}"
    using "2.prems" by (auto simp: c)
  obtain m1 names where l: "load_instances os ?is m = (m1, names)" by fastforce
  note f = load_instances_fresh [OF d, of os, unfolded l fst_conv snd_conv]
  define m2 where "m2 = (case map_of (mg_groups m1) prog of Some _ \<Rightarrow> m1
      | None \<Rightarrow> m1\<lparr>mg_groups := AList.update prog
          \<lparr>gr_Name = prog, gr_Processes = names, gr_Priority = pc_Priority cfg\<rparr> (mg_groups m1)\<rparr>)"
  have m2: "mg_processes m2 = mg_processes m1" "mg_shutdown m2 = mg_shutdown m1"
    by (simp_all add: m2_def split: option.split)
  have "load_programs os ((prog, cfg) # ps) m = load_programs os ps m2" by (simp add: l m2_def)
  moreover have "mg_processes (load_programs os ps m2) =
      mg_processes m2 @ map (loaded_process (mg_shutdown m2)) (config_instances ps)"
  proof (rule "2.IH" [OF l [symmetric] refl m2_def])
    show "distinct (map pi_Name (config_instances ps))" using "2.prems"(1) by (simp add: c)
    have "fst ` set (mg_processes m2) = fst ` set (mg_processes m) \<union> set (map pi_Name ?is)"
      by (simp add: m2 f(1) image_Un image_image loaded_process_def)
    then show "set (map pi_Name (config_instances ps)) \<inter> fst ` set (mg_processes m2) = {}"
      using "2.prems" unfolding c map_append distinct_append set_append by blast
  qed
  ultimately show ?case using f(1,4) by (simp add: m2 c)
qed (simp add: config_instances_def)

lemma mset_concat_map: "mset (concat (map f xs)) = (\<Sum>x\<in>#mset xs. mset (f x))"
  by (induction xs) simp_all

lemma validated_names_list:
  assumes "validateProcessNames cfg = []" and "distinct (map fst (cf_Programs cfg))"
  shows "distinct (map pi_Name (config_instances (cf_Programs cfg)))"
proof -
  let ?ps = "cf_Programs cfg" and ?f = "\<lambda>n. InstanceNames n (the (map_of (cf_Programs cfg) n))"
  have d: "distinct (concat (map ?f (sort_strings (map fst ?ps))))"
    using validate_names_loop_ok [OF assms(1) [unfolded validateProcessNames_def]]
    by (force simp: Let_def map_of_eq_None_iff)
  have "mset (sort_strings (map fst ?ps)) = mset (map fst ?ps)" by (simp add: sort_strings_def)
  then have "mset (concat (map ?f (sort_strings (map fst ?ps)))) = mset (concat (map ?f (map fst ?ps)))"
    by (simp only: mset_concat_map)
  then have "distinct (concat (map ?f (map fst ?ps)))" using d mset_eq_imp_distinct_iff by blast
  moreover have "map ?f (map fst ?ps) = map (\<lambda>(prog, c). InstanceNames prog c) ?ps"
    using assms(2) by (auto simp: map_of_eq_Some_iff)
  ultimately show ?thesis by (simp only: config_instances_names)
qed

lemma LoadConfig_processes:
  assumes "distinct (map pi_Name (config_instances (cf_Programs cfg)))"
  shows "mg_processes (LoadConfig os cfg (NewManager fs)) = map (loaded_process False) (config_instances (cf_Programs cfg))"
  using load_programs_fresh [of "cf_Programs cfg" "NewManager fs" os] assms
  by (simp add: LoadConfig_def NewManager_def)

section \<open>Output\<close>

lemma captures_strip:
  "captures os ps cw fs = (cw', fs', ds) \<Longrightarrow>
   (if cc_StripAnsi (cw_config cw) then strip_chunks (cw_stripper cw) ps = (cw_stripper cw', concat ds) else ds = ps)"
proof (induction ps arbitrary: cw fs ds)
  case (Cons p ps)
  obtain cw1 fs1 calls d where c: "Capture os p cw fs = (cw1, fs1, calls, d)" by (metis prod_cases4)
  obtain ds1 where r: "captures os ps cw1 fs1 = (cw', fs', ds1)" "ds = d # ds1"
    using Cons.prems c by (auto split: prod.splits)
  have keep: "cw_stripper (fst (capture_file os x w f)) = cw_stripper w" for x w f
    by (simp add: capture_file_def rotateIfNeeded_def Let_def split: option.split prod.split)
  have cfg: "cw_config cw1 = cw_config cw" using Capture_ring [OF c] by simp
  have "if cc_StripAnsi (cw_config cw) then Strip (cw_stripper cw) p = (cw_stripper cw1, d) else d = p"
    using c keep by (auto simp: Capture_def capture_strip_def Let_def case_prod_beta split: if_splits prod.splits)
  then show ?case using Cons.IH [OF r(1)] r(2) by (auto simp: cfg split: if_splits prod.splits)
qed auto

text \<open>The events of a stream's output.\<close>

definition output_events :: "string \<Rightarrow> string \<Rightarrow> string list \<Rightarrow> (event_type \<times> (string \<times> string) list) list" where
  "output_events name stream outs = map (\<lambda>d. (log_event stream, [(''name'', name), (''data'', d)])) outs"

lemma on_output_captures:
  assumes "map_of (mg_captures m) (name @ '':'' @ stream) = Some cw"
    and "captures os ps cw (mg_fs m) = (cw', fs', ds)"
  shows "map_of (mg_captures (fold (on_output os name stream) ps m)) (name @ '':'' @ stream) = Some cw'"
    and "mg_events (fold (on_output os name stream) ps m) =
      mg_events m @ output_events name stream (filter (\<lambda>d. d \<noteq> []) ds)"
proof -
  have "map_of (mg_captures (fold (on_output os name stream) ps m)) (name @ '':'' @ stream) = Some cw' \<and>
      mg_events (fold (on_output os name stream) ps m) =
        mg_events m @ output_events name stream (filter (\<lambda>d. d \<noteq> []) ds)"
    using assms
  proof (induction ps arbitrary: m cw ds)
    case (Cons p ps)
    obtain cw1 fs1 calls d where c: "Capture os p cw (mg_fs m) = (cw1, fs1, calls, d)" by (metis prod_cases4)
    obtain ds1 where r: "captures os ps cw1 fs1 = (cw', fs', ds1)" "ds = d # ds1"
      using Cons.prems(2) c by (auto split: prod.splits)
    have "map_of (mg_captures (on_output os name stream p m)) (name @ '':'' @ stream) = Some cw1"
      and "mg_fs (on_output os name stream p m) = fs1"
      and "mg_events (on_output os name stream p m) = mg_events m @ output_events name stream (filter (\<lambda>d. d \<noteq> []) [d])"
      using Cons.prems(1) c by (simp_all add: on_output_def update_conv' output_events_def)
    then show ?case using Cons.IH [of "on_output os name stream p m" cw1 ds1] r by (simp add: output_events_def)
  qed (simp add: output_events_def)
  then show "map_of (mg_captures (fold (on_output os name stream) ps m)) (name @ '':'' @ stream) = Some cw'"
    "mg_events (fold (on_output os name stream) ps m) =
      mg_events m @ output_events name stream (filter (\<lambda>d. d \<noteq> []) ds)" by blast+
qed

lemma concat_filter_Nil [simp]: "concat (filter (\<lambda>d. d \<noteq> []) ds) = concat ds"
  by (induction ds) simp_all



end
