(* ===== verification/Supervisor_Model.thy ===== *)
theory Supervisor_Model
  imports Manager_Loading
begin

text \<open>
  \<open>internal/supervisor/runloop.go\<close> and \<open>supervisor.go\<close>: the daemon's main loop, the reaping of
  children, reloads and shutdown.  The event bus is the manager's.  A blocking loop takes the list
  of what its \<open>select\<close> receives; when the list ends before the loop does, the loop is still waiting
  and the result is \<open>None\<close>.  Between two receives other goroutines may have moved the manager, which
  is an input of its own.
\<close>

section \<open>The supervisor\<close>

record Supervisor =
  su_config :: Config
  su_manager :: Manager
  su_shutting :: bool
  su_reloading :: bool
  su_shutdownClosed :: bool
  su_done :: bool
  su_startupWeb :: WebServerConfig
  su_logLevel :: "string option"
  su_log :: "string list"
  su_pidFile :: string
  su_pidFiles :: "(string \<times> string) list"

text \<open>\<open>su_logLevel\<close> is the level of the daemon's log when it can be changed; \<open>su_log\<close> the warnings logged.\<close>

definition New :: "Config \<Rightarrow> string \<Rightarrow> string option \<Rightarrow> FS \<Rightarrow> Supervisor" where
  "New cfg pidFile level fs =
     \<lparr>su_config = cfg, su_manager = NewManager fs, su_shutting = False, su_reloading = False,
      su_shutdownClosed = False, su_done = False, su_startupWeb = sc_Web (cf_Server cfg),
      su_logLevel = level, su_log = [], su_pidFile = pidFile, su_pidFiles = []\<rparr>"

definition on_manager :: "(Manager \<Rightarrow> Manager) \<Rightarrow> Supervisor \<Rightarrow> Supervisor" where
  "on_manager f s = s\<lparr>su_manager := f (su_manager s)\<rparr>"

definition publish_state :: "event_type \<Rightarrow> Manager \<Rightarrow> Manager" where
  "publish_state t m = m\<lparr>mg_events := mg_events m @ [(t, [])]\<rparr>"

definition warn :: "string \<Rightarrow> Supervisor \<Rightarrow> Supervisor" where
  "warn w s = s\<lparr>su_log := su_log s @ [w]\<rparr>"

section \<open>Reaping\<close>

text \<open>What \<open>wait4\<close> reports of a child: its exit code, or the name of the signal that killed it.\<close>

datatype wait_status = WExited int | WSignaled string

fun ExitStatus :: "wait_status \<Rightarrow> int" where
  "ExitStatus (WExited c) = c"
| "ExitStatus (WSignaled _) = -1"

fun exit_signal :: "wait_status \<Rightarrow> string" where
  "exit_signal (WExited _) = []"
| "exit_signal (WSignaled s) = trim_prefix s ''SIG''"

text \<open>The results of \<open>reapChild\<close>: a pid that is not positive, or the end of the list, ends the loop.\<close>

type_synonym reaps = "(int \<times> wait_status) list"

fun handleSigchld :: "envs \<Rightarrow> reaps \<Rightarrow> Manager \<Rightarrow> Manager" where
  "handleSigchld e [] m = m"
| "handleSigchld e ((pid, ws) # rest) m =
     (if pid \<le> 0 then m
      else case ProcessByPid m (nat pid) of
        None \<Rightarrow> handleSigchld e rest m
      | Some (n, p) \<Rightarrow>
          handleSigchld e rest (on_process n (HandleExitStatus (e n) (ExitStatus ws) (exit_signal ws)) m))"

section \<open>Reloading\<close>

record ReloadResult =
  rr_Added :: "string list"
  rr_Changed :: "string list"
  rr_Removed :: "string list"
  rr_Warnings :: "string list"

datatype reload_error = ReloadShuttingDown | ReloadLoadFailed load_error

text \<open>\<open>level_ok\<close> tells which levels the logger accepts.\<close>

definition applyLogChange :: "(string \<Rightarrow> bool) \<Rightarrow> Config \<Rightarrow> Config \<Rightarrow> Supervisor \<Rightarrow> Supervisor" where
  "applyLogChange level_ok oldCfg newCfg s =
     (let o_sv = cf_Supervisor oldCfg; n_sv = cf_Supervisor newCfg;
          s1 = (if sv_LogLevel o_sv \<noteq> sv_LogLevel n_sv \<and> su_logLevel s \<noteq> None \<and> level_ok (sv_LogLevel n_sv)
                then s\<lparr>su_logLevel := Some (sv_LogLevel n_sv)\<rparr> else s)
      in if sv_LogFormat o_sv \<noteq> sv_LogFormat n_sv \<or> sv_Logfile o_sv \<noteq> sv_Logfile n_sv
         then warn ''supervisor.log_format and supervisor.logfile changes take effect after restart'' s1
         else s1)"

definition warnWebChange :: "Config \<Rightarrow> Supervisor \<Rightarrow> Supervisor" where
  "warnWebChange newCfg s =
     (if sc_Web (cf_Server newCfg) \<noteq> su_startupWeb s
      then warn ''server.web changes take effect after restart'' s else s)"

text \<open>What the new configuration keeps of the old one: the programs that did not stop.\<close>

definition keep_stuck :: "Config \<Rightarrow> string list \<Rightarrow> Config \<Rightarrow> Config" where
  "keep_stuck oldCfg stuck newCfg =
     newCfg\<lparr>cf_Programs := fold (\<lambda>prog ps. case map_of (cf_Programs oldCfg) prog of
        Some c \<Rightarrow> AList.update prog c ps | None \<Rightarrow> ps) stuck (cf_Programs newCfg)\<rparr>"

text \<open>\<open>loaded\<close> is the result of \<open>LoadWithIncludes\<close> on the configuration file.\<close>

type_synonym loaded = "string list \<times> (load_error + Config)"

definition applyReload ::
  "OS \<Rightarrow> envs \<Rightarrow> world \<Rightarrow> (string \<Rightarrow> bool) \<Rightarrow> loaded \<Rightarrow> Supervisor \<Rightarrow> Supervisor \<times> (reload_error + ReloadResult)" where
  "applyReload os e world level_ok loaded s =
     (if su_shutting s then (s, Inl ReloadShuttingDown)
      else case loaded of
        (warnings, Inl err) \<Rightarrow> (s, Inl (ReloadLoadFailed err))
      | (warnings, Inr newCfg) \<Rightarrow>
          let oldCfg = su_config s;
              s1 = fold warn warnings s;
              (added, changed, removed) = ConfigDiff oldCfg newCfg;
              s2 = applyLogChange level_ok oldCfg newCfg (warnWebChange newCfg s1);
              (m, stuck) = ApplyReload os e world oldCfg newCfg added changed removed (su_manager s2)
          in (s2\<lparr>su_manager := m, su_config := keep_stuck oldCfg stuck newCfg\<rparr>,
              Inr \<lparr>rr_Added = added, rr_Changed = changed, rr_Removed = removed, rr_Warnings = warnings\<rparr>))"

definition PreviewReload :: "loaded \<Rightarrow> Supervisor \<Rightarrow> load_error + ReloadResult" where
  "PreviewReload loaded s =
     (case loaded of
        (warnings, Inl err) \<Rightarrow> Inl err
      | (warnings, Inr newCfg) \<Rightarrow>
          (case ConfigDiff (su_config s) newCfg of (added, changed, removed) \<Rightarrow>
             Inr \<lparr>rr_Added = added, rr_Changed = changed, rr_Removed = removed, rr_Warnings = warnings\<rparr>))"

text \<open>
  SIGHUP takes the reload lock or is ignored; the reload then runs in the background and releases the
  lock.  An API reload waits for the lock, so it starts when the lock is free.
\<close>

definition handleReload :: "Supervisor \<Rightarrow> Supervisor" where
  "handleReload s =
     (if su_reloading s then warn ''reload already in progress; ignoring SIGHUP'' s
      else s\<lparr>su_reloading := True\<rparr>)"

definition finish_reload ::
  "OS \<Rightarrow> envs \<Rightarrow> world \<Rightarrow> (string \<Rightarrow> bool) \<Rightarrow> loaded \<Rightarrow> Supervisor \<Rightarrow> Supervisor" where
  "finish_reload os e world level_ok loaded s =
     (fst (applyReload os e world level_ok loaded s))\<lparr>su_reloading := False\<rparr>"

definition Reload ::
  "OS \<Rightarrow> envs \<Rightarrow> world \<Rightarrow> (string \<Rightarrow> bool) \<Rightarrow> loaded \<Rightarrow> Supervisor \<Rightarrow>
     (Supervisor \<times> (reload_error + ReloadResult)) option" where
  "Reload os e world level_ok loaded s =
     (if su_reloading s then None else Some (applyReload os e world level_ok loaded s))"

definition handleLogReopen :: "OS \<Rightarrow> Supervisor \<Rightarrow> Supervisor" where
  "handleLogReopen os s = on_manager (\<lambda>m. fst (ReopenLogs os m)) s"

section \<open>Shutdown\<close>

definition active :: "State \<Rightarrow> bool" where
  "active st \<longleftrightarrow> st = Running \<or> st = Starting \<or> st = Stopping"

definition allStopped :: "Manager \<Rightarrow> bool" where
  "allStopped m \<longleftrightarrow> list_all (\<lambda>(n, p). \<not> active (pr_state p)) (mg_processes m)"

definition kill_active :: "Process \<Rightarrow> Process" where
  "kill_active p = (if active (pr_state p) then Kill p else p)"

text \<open>The rounds of reaping until the grace period ends.\<close>

fun kill_rounds :: "envs \<Rightarrow> reaps list \<Rightarrow> Manager \<Rightarrow> Manager" where
  "kill_rounds e [] m = m"
| "kill_rounds e (r # rs) m =
     (let m1 = handleSigchld e r m in if allStopped m1 then m1 else kill_rounds e rs m1)"

definition killRemaining :: "envs \<Rightarrow> reaps list \<Rightarrow> Manager \<Rightarrow> Manager" where
  "killRemaining e rounds m =
     kill_rounds e rounds (m\<lparr>mg_processes := map (\<lambda>(n, p). (n, kill_active p)) (mg_processes m)\<rparr>)"

datatype wait_event =
    WTimeout "reaps list"
  | WTermSignal "reaps list"
  | WChild reaps
  | WOtherSignal
  | WTick reaps
  | WWorld Manager

fun waitForShutdown :: "envs \<Rightarrow> wait_event list \<Rightarrow> Manager \<Rightarrow> Manager option" where
  "waitForShutdown e [] m = None"
| "waitForShutdown e (WTimeout rounds # evs) m = Some (killRemaining e rounds m)"
| "waitForShutdown e (WTermSignal rounds # evs) m = Some (killRemaining e rounds m)"
| "waitForShutdown e (WChild r # evs) m =
     (let m1 = handleSigchld e r m in if allStopped m1 then Some m1 else waitForShutdown e evs m1)"
| "waitForShutdown e (WOtherSignal # evs) m = waitForShutdown e evs m"
| "waitForShutdown e (WTick r # evs) m =
     (let m1 = handleSigchld e r m in if allStopped m1 then Some m1 else waitForShutdown e evs m1)"
| "waitForShutdown e (WWorld m' # evs) m = waitForShutdown e evs m'"

text \<open>\<open>Shutdown\<close> is the API's: it sets the flag and closes the channel the main loop selects on.\<close>

definition Shutdown :: "Supervisor \<Rightarrow> Supervisor" where
  "Shutdown s = (if \<not> su_shutting s then s\<lparr>su_shutting := True, su_shutdownClosed := True\<rparr> else s)"

section \<open>The main loop\<close>

datatype os_signal = OsSignal signal | OsChild reaps

text \<open>The result of \<open>handleSignal\<close> tells whether shutdown begins.\<close>

definition handleSignal :: "OS \<Rightarrow> envs \<Rightarrow> os_signal \<Rightarrow> Supervisor \<Rightarrow> Supervisor \<times> bool" where
  "handleSignal os e sig s =
     (case sig of
        OsChild r \<Rightarrow> (on_manager (handleSigchld e r) s, False)
      | OsSignal g \<Rightarrow>
          if g = SIGTERM \<or> g = SIGINT \<or> g = SIGQUIT then (s, True)
          else if g = SIGHUP then (handleReload s, False)
          else if g = SIGUSR2 then (handleLogReopen os s, False)
          else (s, False))"

text \<open>\<open>InWorld\<close> is a step of the rest of the daemon: an API call, a reload, a goroutine of a process.\<close>

datatype loop_input = InSignal os_signal | InShutdownCh | InWorld Supervisor

fun main_loop :: "OS \<Rightarrow> envs \<Rightarrow> loop_input list \<Rightarrow> Supervisor \<Rightarrow> Supervisor option" where
  "main_loop os e [] s = None"
| "main_loop os e (InSignal sig # ins) s =
     (let (s1, stop) = handleSignal os e sig s in if stop then Some s1 else main_loop os e ins s1)"
| "main_loop os e (InShutdownCh # ins) s = (if su_shutdownClosed s then Some s else main_loop os e ins s)"
| "main_loop os e (InWorld s' # ins) s = main_loop os e ins s'"

definition startup :: "OS \<Rightarrow> envs \<Rightarrow> Supervisor \<Rightarrow> Supervisor" where
  "startup os e s =
     on_manager (AutostartAll e) (on_manager (publish_state SupervisorStateRunning)
       (on_manager (LoadConfig os (su_config s)) s))"

definition begin_shutdown :: "envs \<Rightarrow> Supervisor \<Rightarrow> Supervisor" where
  "begin_shutdown e s =
     on_manager (StopAll e) (on_manager (publish_state SupervisorStateStopping) (s\<lparr>su_shutting := True\<rparr>))"

text \<open>The PID file among the files of the daemon; \<open>write_ok\<close> tells whether it can be written.  The system's error is left out of the text.\<close>

type_synonym pid_files = "(string \<times> string) list"

definition WritePIDFile :: "(string \<Rightarrow> bool) \<Rightarrow> string \<Rightarrow> string \<Rightarrow> pid_files \<Rightarrow> string + pid_files" where
  "WritePIDFile write_ok pid path files =
     (if path = [] then Inr files
      else if \<not> write_ok path then Inl (''cannot write PID file: '' @ path)
      else Inr (AList.update path (pid @ [CHR 0x0A]) files))"

definition RemovePIDFile :: "string \<Rightarrow> pid_files \<Rightarrow> pid_files" where
  "RemovePIDFile path files = (if path = [] then files else AList.delete path files)"

text \<open>\<open>Run\<close> removes the PID file when it returns.\<close>

definition Run ::
  "OS \<Rightarrow> envs \<Rightarrow> (string \<Rightarrow> bool) \<Rightarrow> string \<Rightarrow> loop_input list \<Rightarrow> wait_event list \<Rightarrow> Supervisor \<Rightarrow>
     (Supervisor \<times> string option) option" where
  "Run os e write_ok pid ins evs s =
     (case WritePIDFile write_ok pid (su_pidFile s) (su_pidFiles s) of
        Inl err \<Rightarrow> Some (s, Some err)
      | Inr files \<Rightarrow>
          (case main_loop os e ins (startup os e (s\<lparr>su_pidFiles := files\<rparr>)) of
             None \<Rightarrow> None
           | Some s1 \<Rightarrow>
               let s2 = begin_shutdown e s1 in
               (case waitForShutdown e evs (su_manager s2) of
                  None \<Rightarrow> None
                | Some m \<Rightarrow>
                    let s3 = s2\<lparr>su_manager := CloseLogs m, su_done := True\<rparr> in
                    Some (s3\<lparr>su_pidFiles := RemovePIDFile (su_pidFile s) (su_pidFiles s3)\<rparr>, None))))"

text \<open>The same by cases on the path of the PID file.\<close>

lemma Run_cases:
  "Run os e write_ok pid ins evs s =
     (let path = su_pidFile s in
      if path \<noteq> [] \<and> \<not> write_ok path then Some (s, Some (''cannot write PID file: '' @ path))
      else
        let s0 = (if path = [] then s
                  else s\<lparr>su_pidFiles := AList.update path (pid @ [CHR 0x0A]) (su_pidFiles s)\<rparr>) in
        case main_loop os e ins (startup os e s0) of
          None \<Rightarrow> None
        | Some s1 \<Rightarrow>
            let s2 = begin_shutdown e s1 in
            (case waitForShutdown e evs (su_manager s2) of
               None \<Rightarrow> None
             | Some m \<Rightarrow>
                 let s3 = s2\<lparr>su_manager := CloseLogs m, su_done := True\<rparr> in
                 Some (if path = [] then s3 else s3\<lparr>su_pidFiles := AList.delete path (su_pidFiles s3)\<rparr>, None)))"
  by (simp add: Run_def WritePIDFile_def RemovePIDFile_def Let_def split: option.split)

section \<open>Readiness\<close>

fun lookup_all :: "Manager \<Rightarrow> string list \<Rightarrow> string + Process list" where
  "lookup_all m [] = Inr []"
| "lookup_all m (n # ns) =
     (case GetProcess m n of
        None \<Rightarrow> Inl (no_such_process n)
      | Some p \<Rightarrow> (case lookup_all m ns of Inl err \<Rightarrow> Inl err | Inr ps \<Rightarrow> Inr (p # ps)))"

text \<open>Pending and failing of the processes asked for.\<close>

definition readiness_of :: "Process list \<Rightarrow> string list \<times> string list" where
  "readiness_of ps =
     (map pr_name (filter (\<lambda>p. pr_state p = Starting \<or> pr_state p = Backoff) ps),
      map pr_name (filter (\<lambda>p. pr_state p \<notin> {Running, Starting, Backoff}) ps))"

definition Readiness :: "string list \<Rightarrow> Supervisor \<Rightarrow> string + string list \<times> string list" where
  "Readiness names s =
     (let m = su_manager s;
          procs = (if names = []
                   then Inr (sort_slice (\<lambda>a b. pr_name a < pr_name b)
                     (filter (\<lambda>p. pc_Autostart (pr_config p) = Some True) (map snd (mg_processes m))))
                   else lookup_all m names)
      in case procs of Inl err \<Rightarrow> Inl err | Inr ps \<Rightarrow> Inr (readiness_of ps))"

end
