(* ===== verification/Supervisor_Safety.thy ===== *)
theory Supervisor_Safety
  imports Supervisor_Model
begin

text \<open>
  What the supervisor guarantees: a SIGCHLD reaps every child that has exited and touches nothing
  else, shutdown ends and leaves no child that has not been killed; and how a reload that does not
  finish can leave a program that never starts again.
\<close>

section \<open>Reaping\<close>

lemma on_process_at:
  "mg_wf m \<Longrightarrow> GetProcess m n = Some p \<Longrightarrow> on_process n f m = on_process n (\<lambda>_. f p) m"
proof -
  assume w: "mg_wf m" and g: "GetProcess m n = Some p"
  have "q = p" if "(n, q) \<in> set (mg_processes m)" for q
  proof -
    have "GetProcess m n = Some q" using w that by (simp add: mg_wf_def GetProcess_def)
    then show ?thesis using g by simp
  qed
  then have "map (\<lambda>(k, q). (k, if k = n then f q else q)) (mg_processes m) =
      map (\<lambda>(k, q). (k, if k = n then f p else q)) (mg_processes m)"
    by (intro map_cong) auto
  then show ?thesis by (simp add: on_process_def)
qed

lemma ProcessByPid_Some:
  assumes "mg_ok m" and "ProcessByPid m pid = Some (n, p)" and "0 < pid"
  shows "GetProcess m n = Some p" and "pr_spawned p = Some pid"
proof -
  obtain i where i: "i < length (mg_processes m)" "mg_processes m ! i = (n, p)" "pidLocked p = pid"
    using assms(2) by (auto simp: ProcessByPid_def find_Some_iff)
  then have "(n, p) \<in> set (mg_processes m)" "pidLocked p = pid" using nth_mem [OF i(1)] by simp_all
  then show "GetProcess m n = Some p" "pr_spawned p = Some pid"
    using assms(1,3) by (auto simp: mg_ok_def mg_wf_def GetProcess_def pidLocked_def split: option.splits)
qed

text \<open>One child that has exited.\<close>

definition reap_one :: "envs \<Rightarrow> nat \<Rightarrow> wait_status \<Rightarrow> Manager \<Rightarrow> Manager" where
  "reap_one e pid ws m =
     (case ProcessByPid m pid of
        None \<Rightarrow> m
      | Some (n, p) \<Rightarrow> on_process n (HandleExitStatus (e n) (ExitStatus ws) (exit_signal ws)) m)"

lemma handleSigchld_Cons:
  "handleSigchld e ((pid, ws) # rest) m =
     (if pid \<le> 0 then m else handleSigchld e rest (reap_one e (nat pid) ws m))"
  by (simp add: reap_one_def split: option.split)

declare handleSigchld.simps(2) [simp del]

lemma reap_one_ok:
  assumes ok: "mg_ok m" and "0 < pid" shows "mg_ok (reap_one e pid ws m)"
proof (cases "ProcessByPid m pid")
  case (Some np)
  obtain n p where np: "np = (n, p)" by fastforce
  note p = ProcessByPid_Some [OF ok Some [unfolded np] assms(2)]
  have "mg_ok (on_process n (\<lambda>_. HandleExitStatus (e n) (ExitStatus ws) (exit_signal ws) p) m)"
    by (rule process_step_ok [OF ok p(1) p_exit]) (simp add: p(2))
  moreover have "reap_one e pid ws m = on_process n (\<lambda>_. HandleExitStatus (e n) (ExitStatus ws) (exit_signal ws) p) m"
    unfolding reap_one_def Some np option.case prod.case
    by (rule on_process_at [OF _ p(1)]) (use ok in \<open>simp add: mg_ok_def\<close>)
  ultimately show ?thesis by simp
qed (use assms in \<open>simp add: reap_one_def\<close>)

lemma handleSigchld_ok: "mg_ok m \<Longrightarrow> mg_ok (handleSigchld e r m)"
  by (induction r arbitrary: m) (auto simp: handleSigchld_Cons reap_one_ok)

lemma handle_exit_childless:
  assumes "pinv p" and "pr_spawned p \<noteq> None"
  shows "pr_spawned (HandleExitStatus e c sg p) = None"
proof -
  have "pinv (HandleExitStatus e c sg p)" "pr_state (HandleExitStatus e c sg p) \<in> {Stopped, Backoff, Exited, Fatal}"
    using HandleExitStatus_inv [OF assms] by blast+
  then show ?thesis unfolding pinv_def by auto
qed

text \<open>No two processes have the same child.\<close>

definition pids_distinct :: "Manager \<Rightarrow> bool" where
  "pids_distinct m \<longleftrightarrow> (\<forall>n n' p p' pid. GetProcess m n = Some p \<longrightarrow> GetProcess m n' = Some p' \<longrightarrow>
     pr_spawned p = Some pid \<longrightarrow> pr_spawned p' = Some pid \<longrightarrow> n = n')"

text \<open>What the exits \<open>r\<close> make of a process.\<close>

definition reaped :: "penv \<Rightarrow> reaps \<Rightarrow> Process \<Rightarrow> Process" where
  "reaped e r p =
     (case pr_spawned p of
        None \<Rightarrow> p
      | Some pid \<Rightarrow>
          (case map_of r (int pid) of
             None \<Rightarrow> p
           | Some ws \<Rightarrow> HandleExitStatus e (ExitStatus ws) (exit_signal ws) p))"

lemma reap_one_get:
  assumes "mg_ok m" and "pids_distinct m" and "0 < pid"
  shows "GetProcess (reap_one e pid ws m) n = map_option (reaped (e n) [(int pid, ws)]) (GetProcess m n)"
proof (cases "ProcessByPid m pid")
  case None
  have "pr_spawned p \<noteq> Some pid" if "GetProcess m n = Some p" for p
  proof -
    have "(n, p) \<in> set (mg_processes m)" using that by (simp add: GetProcess_def map_of_SomeD)
    then have "pidLocked p \<noteq> pid" using None by (auto simp: ProcessByPid_def find_None_iff)
    then show ?thesis by (auto simp: pidLocked_def)
  qed
  then show ?thesis using None
    by (cases "GetProcess m n") (auto simp: reap_one_def reaped_def split: option.split)
next
  case (Some np)
  obtain k p where np: "np = (k, p)" by fastforce
  note p = ProcessByPid_Some [OF assms(1) Some [unfolded np] assms(3)]
  have other: "pr_spawned q \<noteq> Some pid" if "GetProcess m n = Some q" "n \<noteq> k" for q
    using assms(2) p that unfolding pids_distinct_def by blast
  have r: "reap_one e pid ws m = on_process k (HandleExitStatus (e k) (ExitStatus ws) (exit_signal ws)) m"
    using Some np by (simp add: reap_one_def)
  show ?thesis
  proof (cases "n = k")
    case True
    then show ?thesis using p by (simp add: r tbl.get_upd reaped_def)
  next
    case False
    then show ?thesis using other
      by (cases "GetProcess m n") (auto simp: r tbl.get_upd reaped_def split: option.split)
  qed
qed

lemma reaped_spawned:
  assumes "pinv p" shows "pr_spawned (reaped e r p) = pr_spawned p \<or> pr_spawned (reaped e r p) = None"
  using handle_exit_childless [OF assms] by (auto simp: reaped_def split: option.splits)

lemma reap_one_pids:
  assumes "mg_ok m" and "pids_distinct m" and "0 < pid" shows "pids_distinct (reap_one e pid ws m)"
  unfolding pids_distinct_def
proof (intro allI impI)
  fix n n' p p' c
  assume g: "GetProcess (reap_one e pid ws m) n = Some p" "GetProcess (reap_one e pid ws m) n' = Some p'"
    and c: "pr_spawned p = Some c" "pr_spawned p' = Some c"
  obtain q q' where q: "GetProcess m n = Some q" "GetProcess m n' = Some q'"
      "p = reaped (e n) [(int pid, ws)] q" "p' = reaped (e n') [(int pid, ws)] q'"
    using g unfolding reap_one_get [OF assms] by auto
  have "pinv q" "pinv q'" using mg_ok_get [OF assms(1)] q by auto
  then have "pr_spawned q = Some c" "pr_spawned q' = Some c"
    using reaped_spawned c unfolding q(3,4) by (metis option.distinct(1))+
  then show "n = n'" using assms(2) q(1,2) unfolding pids_distinct_def by blast
qed

lemma reaped_Cons:
  assumes "pinv p" and "0 < pid" and "pid \<notin> fst ` set r"
  shows "reaped e r (reaped e [(pid, ws)] p) = reaped e ((pid, ws) # r) p"
proof (cases "pr_spawned p")
  case (Some c)
  have "pr_spawned (HandleExitStatus e x sg p) = None" for x sg
    using handle_exit_childless [OF assms(1)] Some by simp
  then show ?thesis using Some by (auto simp: reaped_def split: option.split)
qed (simp add: reaped_def)

lemma handleSigchld_get:
  "mg_ok m \<Longrightarrow> pids_distinct m \<Longrightarrow> distinct (map fst r) \<Longrightarrow> (\<And>pid ws. (pid, ws) \<in> set r \<Longrightarrow> 0 < pid) \<Longrightarrow>
   GetProcess (handleSigchld e r m) n = map_option (reaped (e n) r) (GetProcess m n)"
proof (induction r arbitrary: m)
  case Nil
  then show ?case by (cases "GetProcess m n") (auto simp: reaped_def split: option.split)
next
  case (Cons a r)
  obtain pid ws where a: "a = (pid, ws)" by fastforce
  have pos: "0 < pid" using Cons.prems(4) [of pid ws] a by simp
  then obtain k where k: "pid = int k" "0 < k" by (metis zero_less_imp_eq_int)
  let ?m = "reap_one e k ws m"
  note ok = Cons.prems(1)
  have "GetProcess (handleSigchld e r ?m) n = map_option (reaped (e n) r) (GetProcess ?m n)"
    using Cons.prems by (intro Cons.IH reap_one_ok reap_one_pids ok k(2)) auto
  also have "\<dots> = map_option (reaped (e n) (a # r)) (GetProcess m n)"
    using reap_one_get [OF ok Cons.prems(2) k(2)] mg_ok_get [OF ok] Cons.prems(3) reaped_Cons [OF _ pos, of _ r "e n" ws]
    by (cases "GetProcess m n") (auto simp: a k)
  finally show ?case using k(2) by (simp add: a k(1) handleSigchld_Cons)
qed

text \<open>
  C14 (functional).  One SIGCHLD is enough for any number of exits: after it every process whose child
  is among the reaped ones has handled exactly its own child's exit and has no child, every other
  process is untouched, and reaped pids that are no process's child change nothing.
\<close>

theorem sigchld_reaps_exactly_the_exited:
  assumes "mg_reach m" and "pids_distinct m" and "distinct (map fst r)" and "\<forall>(pid, ws)\<in>set r. 0 < pid"
  shows "GetProcess (handleSigchld e r m) n = map_option (reaped (e n) r) (GetProcess m n) \<and>
     (\<forall>p pid. GetProcess m n = Some p \<longrightarrow> pr_spawned p = Some pid \<longrightarrow> int pid \<in> fst ` set r \<longrightarrow>
        (\<exists>q. GetProcess (handleSigchld e r m) n = Some q \<and> pr_spawned q = None))"
proof -
  have g: "GetProcess (handleSigchld e r m) n = map_option (reaped (e n) r) (GetProcess m n)"
    using assms mg_reach_ok by (intro handleSigchld_get) auto
  have "pr_spawned (reaped (e n) r p) = None"
    if p: "GetProcess m n = Some p" "pr_spawned p = Some pid" "int pid \<in> fst ` set r" for p pid
  proof -
    have "map_of r (int pid) \<noteq> None" using p(3) by (simp add: map_of_eq_None_iff)
    moreover have "pinv p" using mg_ok_get [OF mg_reach_ok [OF assms(1)] p(1)] by simp
    ultimately show ?thesis using p(2) handle_exit_childless [of p] by (auto simp: reaped_def)
  qed
  then show ?thesis using g by auto
qed

section \<open>Shutdown\<close>

text \<open>No child is left that SIGKILL has not been sent to.\<close>

definition none_spared :: "Manager \<Rightarrow> bool" where
  "none_spared m \<longleftrightarrow> (\<forall>n p. GetProcess m n = Some p \<longrightarrow> pr_spawned p \<noteq> None \<longrightarrow> killed (pr_trace p))"

lemma pinv_active: "pinv p \<Longrightarrow> pr_spawned p \<noteq> None \<longleftrightarrow> active (pr_state p)"
  unfolding pinv_def active_def by auto

lemma allStopped_none_spared:
  assumes "mg_ok m" and "allStopped m" shows "none_spared m"
  unfolding none_spared_def
proof (intro allI impI)
  fix n p assume g: "GetProcess m n = Some p" and s: "pr_spawned p \<noteq> None"
  have "\<not> active (pr_state p)"
    using assms(2) g by (auto simp: allStopped_def list_all_iff GetProcess_def dest!: map_of_SomeD)
  moreover have "pinv p" using mg_ok_get [OF assms(1) g] by simp
  ultimately show "killed (pr_trace p)" using s pinv_active by blast
qed

lemma killed_Kill: "pr_spawned p \<noteq> None \<Longrightarrow> killed (pr_trace (Kill p))"
  by (simp add: Kill_def killLocked_def emit_def)

text \<open>Killing every active process.\<close>

definition kill_all :: "Manager \<Rightarrow> Manager" where
  "kill_all m = m\<lparr>mg_processes := map (\<lambda>(n, p). (n, kill_active p)) (mg_processes m)\<rparr>"

lemma kill_all_get: "GetProcess (kill_all m) n = map_option kill_active (GetProcess m n)"
  by (simp add: GetProcess_def kill_all_def map_of_map)

lemma kill_active_inv: "pinv p \<Longrightarrow> pinv (kill_active p)" "pr_name (kill_active p) = pr_name p"
  using pstep_inv [OF p_kill] pstep_name [OF p_kill, of p] by (simp_all add: kill_active_def)

lemma kill_all_ok: "mg_ok m \<Longrightarrow> mg_ok (kill_all m)"
  by (auto simp: mg_ok_def mg_wf_def kill_all_def comp_def split_def kill_active_inv)

lemma kill_all_spares_none:
  assumes "mg_ok m" shows "none_spared (kill_all m)"
  unfolding none_spared_def kill_all_get
proof (intro allI impI)
  fix n q assume "map_option kill_active (GetProcess m n) = Some q" and s: "pr_spawned q \<noteq> None"
  then obtain p where p: "GetProcess m n = Some p" "q = kill_active p" by auto
  have sp: "pr_spawned p \<noteq> None" using s p(2) by (auto simp: kill_active_def Kill_def killLocked_def split: if_splits)
  moreover have "pinv p" using mg_ok_get [OF assms p(1)] by simp
  ultimately show "killed (pr_trace q)" using killed_Kill pinv_active p(2) by (auto simp: kill_active_def)
qed

lemma reap_one_none_spared:
  assumes "mg_ok m" and "none_spared m" and "0 < pid" shows "none_spared (reap_one e pid ws m)"
proof (cases "ProcessByPid m pid")
  case (Some np)
  obtain k p where np: "np = (k, p)" by fastforce
  note p = ProcessByPid_Some [OF assms(1) Some [unfolded np] assms(3)]
  have "pinv p" using mg_ok_get [OF assms(1) p(1)] by simp
  then have "pr_spawned (HandleExitStatus e' c sg p) = None" for e' c sg
    using handle_exit_childless p(2) by simp
  moreover have "reap_one e pid ws m = on_process k (HandleExitStatus (e k) (ExitStatus ws) (exit_signal ws)) m"
    using Some np by (simp add: reap_one_def)
  ultimately show ?thesis using assms(2) p(1) by (auto simp: none_spared_def tbl.get_upd split: if_splits)
qed (use assms in \<open>simp add: reap_one_def\<close>)

lemma handleSigchld_none_spared: "mg_ok m \<Longrightarrow> none_spared m \<Longrightarrow> none_spared (handleSigchld e r m)"
  by (induction r arbitrary: m) (auto simp: handleSigchld_Cons reap_one_ok reap_one_none_spared)

lemma kill_rounds_none_spared: "mg_ok m \<Longrightarrow> none_spared m \<Longrightarrow> none_spared (kill_rounds e rs m)"
  by (induction rs arbitrary: m) (simp_all add: Let_def handleSigchld_ok handleSigchld_none_spared)

lemma killRemaining_none_spared: "mg_ok m \<Longrightarrow> none_spared (killRemaining e rounds m)"
  unfolding killRemaining_def kill_all_def [symmetric]
  by (intro kill_rounds_none_spared kill_all_ok kill_all_spares_none)

lemma waitForShutdown_none_spared:
  "waitForShutdown e evs m = Some m' \<Longrightarrow> mg_ok m \<Longrightarrow> (\<And>x. WWorld x \<in> set evs \<Longrightarrow> mg_ok x) \<Longrightarrow> none_spared m'"
proof (induction e evs m rule: waitForShutdown.induct)
  case (4 e r evs m)
  then show ?case using handleSigchld_ok [OF "4.prems"(2), of e r]
    by (auto simp: Let_def allStopped_none_spared split: if_splits)
next
  case (6 e r evs m)
  then show ?case using handleSigchld_ok [OF "6.prems"(2), of e r]
    by (auto simp: Let_def allStopped_none_spared split: if_splits)
qed (auto simp: killRemaining_none_spared)

lemma waitForShutdown_ends: "WTimeout rounds \<in> set evs \<Longrightarrow> waitForShutdown e evs m \<noteq> None"
  by (induction e evs m rule: waitForShutdown.induct) (auto simp: Let_def)


lemma publish_state_ok: "mg_ok m \<Longrightarrow> mg_ok (publish_state t m)"
  by (rule mg_ok_same) (simp_all add: publish_state_def)

lemma handleSignal_ok: "mg_ok (su_manager s) \<Longrightarrow> mg_ok (su_manager (fst (handleSignal os e sig s)))"
  by (auto simp: handleSignal_def on_manager_def handleReload_def handleLogReopen_def warn_def handleSigchld_ok logs_ok(1)
      split: os_signal.split)

lemma main_loop_ok:
  "main_loop os e ins s = Some s' \<Longrightarrow> mg_ok (su_manager s) \<Longrightarrow>
   (\<And>x. InWorld x \<in> set ins \<Longrightarrow> mg_ok (su_manager x)) \<Longrightarrow> mg_ok (su_manager s')"
proof (induction os e ins s rule: main_loop.induct)
  case (2 os e sig ins s)
  obtain s1 stop where h: "handleSignal os e sig s = (s1, stop)" by fastforce
  then have "mg_ok (su_manager s1)" using handleSignal_ok [OF "2.prems"(2), of os e sig] by simp
  then show ?case using "2.IH" [OF h [symmetric] refl] "2.prems" h by (auto split: if_splits)
qed (auto split: if_splits)

lemma startup_ok: "mg_ok (su_manager s) \<Longrightarrow> mg_ok (su_manager (startup os e s))"
  by (simp add: startup_def on_manager_def AutostartAll_ok publish_state_ok ok.load)

lemma begin_shutdown_ok: "mg_ok (su_manager s) \<Longrightarrow> mg_ok (su_manager (begin_shutdown e s))"
  by (simp add: begin_shutdown_def on_manager_def StopAll_ok publish_state_ok)


section \<open>A reload that does not finish\<close>

lemma one_process: "mg_processes m = [(prog, p)] \<Longrightarrow> pr_group p = prog \<Longrightarrow> programProcesses m prog = [p]"
  by (simp add: programProcesses_def)

lemma stuck_reload:
  assumes "mg_processes m = [(prog, p)]" and "pr_name p = prog" and "pr_group p = prog" and "pr_state p = Stopping"
    and "cf_Programs new = []" and "cf_Groups new = []"
  shows "mg_processes (fst (ApplyReload os e (\<lambda>_ _. []) old new [] [] [prog] m)) = [(prog, Retire p)]"
    and "snd (ApplyReload os e (\<lambda>_ _. []) old new [] [] [prog] m) = [prog]"
proof -
  have pp: "programProcesses m prog = [p]" by (rule one_process [OF assms(1,3)])
  define m2 where "m2 = on_process prog Retire m"
  have p2: "mg_processes m2 = [(prog, Retire p)]" by (simp add: m2_def on_process_def assms(1))
  have r: "pr_name (Retire p) = prog" "pr_group (Retire p) = prog" "pr_state (Retire p) = Stopping"
    using assms(2-4) by (simp_all add: Retire_def)
  have pp2: "programProcesses m2 prog = [Retire p]" by (rule one_process [OF p2 r(2)])
  have f2: "for_programs (\<lambda>_. Retire) [prog] m = m2" by (simp add: pp assms(2) m2_def)
  have "stop_if_active e prog (Retire p) = Retire p" by (simp add: stop_if_active_def stoppable_def r)
  then have "on_process prog (stop_if_active e prog) m2 = m2" by (simp add: on_process_def p2)
  then have f3: "for_programs (stop_if_active e) [prog] m2 = m2" by (simp add: pp2 r assms(2))
  have "waitForStopped prog m2 [] = (m2, False)"
    by (subst waitForStopped.simps) (simp add: GetProcess_def p2 r terminal_def)
  then have w: "wait_programs (\<lambda>_ _. []) [prog] m2 = (m2, [prog])" by (simp add: pp2 r assms(2))
  have a: "ApplyReload os e (\<lambda>_ _. []) old new [] [] [prog] m =
      (LoadConfig os new (removeStaleGroups new [prog] m2), [prog])"
    unfolding ApplyReload_def by (simp add: f2 f3 w Let_def sort_strings_def del: for_programs.simps wait_programs.simps)
  then show "mg_processes (fst (ApplyReload os e (\<lambda>_ _. []) old new [] [] [prog] m)) = [(prog, Retire p)]"
    "snd (ApplyReload os e (\<lambda>_ _. []) old new [] [] [prog] m) = [prog]"
    by (simp_all add: LoadConfig_def assms(5,6) removeStaleGroups_def p2)
qed

lemma idle_reload:
  assumes "mg_processes m = [(prog, p)]" and "cf_Programs cfg = [(prog, c)]" and "cf_Groups cfg = []"
    and "pc_Numprocs c \<le> 1" and "pc_ProcessName c = []"
  shows "mg_processes (fst (ApplyReload os e world old cfg [] [] [] m)) = [(prog, p)]"
    and "snd (ApplyReload os e world old cfg [] [] [] m) = []"
proof -
  have i: "ExpandNumprocs prog c = [\<lparr>pi_Name = prog, pi_Group = prog, pi_Config = c\<rparr>]"
    using assms(4,5) by (simp add: ExpandNumprocs_def InstanceNames_def)
  have g: "GetProcess (removeStaleGroups cfg [] m) prog = Some p"
    by (simp add: GetProcess_def removeStaleGroups_def assms(1))
  have "mg_processes (LoadConfig os cfg (removeStaleGroups cfg [] m)) = [(prog, p)]"
    using g by (simp add: LoadConfig_def assms(1-3) i removeStaleGroups_def split: option.split)
  then show "mg_processes (fst (ApplyReload os e world old cfg [] [] [] m)) = [(prog, p)]"
    "snd (ApplyReload os e world old cfg [] [] [] m) = []"
    by (simp_all add: ApplyReload_def sort_strings_def)
qed

lemma log_change_manager [simp]:
  "su_manager (applyLogChange lv a b s) = su_manager s" "su_manager (warnWebChange b s) = su_manager s"
  "su_manager (fold warn ws s) = su_manager s"
  "su_shutting (applyLogChange lv a b s) = su_shutting s" "su_shutting (warnWebChange b s) = su_shutting s"
  "su_shutting (fold warn ws s) = su_shutting s"
proof -
  show "su_manager (fold warn ws s) = su_manager s" "su_shutting (fold warn ws s) = su_shutting s"
    by (induction ws arbitrary: s) (simp_all add: warn_def)
qed (simp_all add: applyLogChange_def warnWebChange_def warn_def Let_def)

lemma retired_never_starts:
  "pruns as p q \<Longrightarrow> pr_retired p \<Longrightarrow> pr_name q = pr_name p \<and> pr_retired q"
proof (induction rule: pruns.induct)
  case (runs_snoc as p q a r)
  have "pr_retired q \<Longrightarrow> pr_retired r"
    using runs_snoc(2)
    by (induction rule: pstep.induct)
      (auto simp: Start_def startLocked_def Stop_def stopLocked_flags small_flags exit_flags run_task_barred
        Retire_def UpdateConfig_def drop_task_def)
  then show ?case using runs_snoc pstep_name [OF runs_snoc(2)] by simp
qed simp

text \<open>
  A program whose process does not stop during a reload keeps its process, retired, and
  its old configuration is recorded as current.  When the file is then put back, the next reload sees no
  difference and the process stays in the table: no start succeeds ever again, not even after it stops.
\<close>

theorem reverted_program_never_starts:
  assumes "\<not> su_shutting s" and "cf_Programs (su_config s) = [(prog, c)]" and "cf_Groups (su_config s) = []"
    and "pc_Numprocs c \<le> 1" and "pc_ProcessName c = []"
    and "mg_processes (su_manager s) = [(prog, p)]" and "pr_name p = prog" and "pr_group p = prog"
    and "pr_state p = Stopping"
  shows "let s1 = fst (applyReload os e (\<lambda>_ _. []) lv (w, Inr ((su_config s)\<lparr>cf_Programs := []\<rparr>)) s);
      s2 = fst (applyReload os e (\<lambda>_ _. []) lv (w', Inr (su_config s)) s1)
    in su_config s2 = su_config s \<and> GetProcess (su_manager s2) prog = Some (Retire p) \<and>
     (\<forall>as q. pruns as (Retire p) q \<longrightarrow>
        snd (Start env q) = Some (''process '' @ prog @ '': removed by config reload''))"
proof -
  let ?cfg = "su_config s" and ?new = "(su_config s)\<lparr>cf_Programs := []\<rparr>"
  have "same_program c c" by (simp add: same_program_def)
  then have d: "ConfigDiff ?cfg ?new = ([], [], [prog])" "ConfigDiff ?cfg ?cfg = ([], [], [])"
    using assms(2) by (simp_all add: ConfigDiff_def sort_strings_def programChanged_def)
  define s1 where "s1 = fst (applyReload os e (\<lambda>_ _. []) lv (w, Inr ?new) s)"
  define s2 where "s2 = fst (applyReload os e (\<lambda>_ _. []) lv (w', Inr ?cfg) s1)"
  have new: "cf_Programs ?new = []" "cf_Groups ?new = []" using assms(3) by simp_all
  note st = stuck_reload [OF assms(6-9) new, of os e ?cfg]
  have k: "keep_stuck ?cfg [prog] ?new = ?cfg" using assms(2) by (simp add: keep_stuck_def)
  have s1: "su_config s1 = ?cfg" "mg_processes (su_manager s1) = [(prog, Retire p)]" "\<not> su_shutting s1"
    using assms(1) st by (simp_all add: s1_def applyReload_def d Let_def case_prod_beta k)
  note id = idle_reload [OF s1(2) assms(2-5), of os e "\<lambda>_ _. []" ?cfg]
  have "keep_stuck ?cfg [] ?cfg = ?cfg" by (simp add: keep_stuck_def)
  then have s2: "su_config s2 = ?cfg" "mg_processes (su_manager s2) = [(prog, Retire p)]"
    using s1(1,3) id by (simp_all add: s2_def applyReload_def d Let_def case_prod_beta)
  have "snd (Start env q) = Some (''process '' @ prog @ '': removed by config reload'')" if "pruns as (Retire p) q" for as q
    using retired_never_starts [OF that] assms(7) by (simp add: Retire_def Start_def startLocked_def)
  then show ?thesis using s2 unfolding s1_def s2_def Let_def by (simp add: GetProcess_def)
qed

section \<open>Concrete daemons\<close>

definition web_config :: Config where
  "web_config = sample_config\<lparr>cf_Programs := [(''web'', valid_config)]\<rparr>"

definition daemon :: "Process \<Rightarrow> Supervisor" where
  "daemon p = (New web_config ''/run/kahi.pid'' None sample_fs)\<lparr>su_manager := mgr p\<rparr>"

lemma web_config_fields: "cf_Programs web_config = [(''web'', valid_config)]" "cf_Groups web_config = []"
  "pc_Numprocs valid_config \<le> 1" "pc_ProcessName valid_config = []"
  by (simp_all add: web_config_def sample_config_def valid_config_def default_program_def sample_program_def
      zero_program_def Let_def unset_def)

lemma web2_ids: "pr_name web2 = ''web''" "pr_group web2 = ''web''"
  using web_names by (simp_all add: web2_def)

theorem reverted_program_never_starts_witness:
  "let s1 = fst (applyReload open_os (\<lambda>_. up_env 0 7) (\<lambda>_ _. []) (\<lambda>_. True)
         ([], Inr (web_config\<lparr>cf_Programs := []\<rparr>)) (daemon web2));
      s2 = fst (applyReload open_os (\<lambda>_. up_env 0 7) (\<lambda>_ _. []) (\<lambda>_. True) ([], Inr web_config) s1)
    in GetProcess (su_manager s2) ''web'' = Some (Retire web2)"
proof -
  have "\<not> su_shutting (daemon web2)" "su_config (daemon web2) = web_config"
    "mg_processes (su_manager (daemon web2)) = [(''web'', web2)]"
    by (simp_all add: daemon_def New_def mgr_def)
  then show ?thesis
    using reverted_program_never_starts [of "daemon web2" "''web''" valid_config web2 open_os "\<lambda>_. up_env 0 7"
        "\<lambda>_. True" "[]" "[]"] web_config_fields web2_ids web2_state
    by (simp add: Let_def)
qed

text \<open>A manager with one started process, reached by loading, starting and nothing else.\<close>

definition live_mgr :: Manager where
  "live_mgr = AutostartAll (\<lambda>_. up_env 0 7) (LoadConfig open_os web_config (NewManager sample_fs))"

lemma live_mgr_reach: "mg_reach live_mgr"
  unfolding live_mgr_def by (intro reach_autostart reach_load reach_new)

lemma live_mgr_processes: "mg_processes live_mgr = [(''web'', web1)]"
proof -
  let ?m = "LoadConfig open_os web_config (NewManager sample_fs)"
  have i: "config_instances [(''web'', valid_config)] = [\<lparr>pi_Name = ''web'', pi_Group = ''web'', pi_Config = valid_config\<rparr>]"
    using web_config_fields(3,4) by (simp add: config_instances_def ExpandNumprocs_def InstanceNames_def)
  have p: "mg_processes ?m = [(''web'', web0)]"
    using LoadConfig_processes [of web_config open_os sample_fs]
    by (simp add: web_config_fields i loaded_process_def web0_def)
  have "autostart_one (\<lambda>_. up_env 0 7) ''web'' web0 = web1"
    using web0_env(3) by (simp add: autostart_one_def web1_def)
  then show ?thesis
    using p web_names by (simp add: live_mgr_def AutostartAll_def sortedProcesses_def sortByPriority_def on_process_def)
qed

theorem sigchld_reaps_exactly_the_exited_witness:
  "\<exists>q. GetProcess (handleSigchld (\<lambda>_. up_env 1 0) [(7, WExited 3), (99, WSignaled ''SIGKILL'')] live_mgr) ''web'' = Some q \<and>
     pr_spawned q = None"
proof -
  have g: "GetProcess live_mgr k = (if k = ''web'' then Some web1 else None)" for k
    by (simp add: GetProcess_def live_mgr_processes)
  then have "pids_distinct live_mgr" by (auto simp: pids_distinct_def split: if_splits)
  then show ?thesis
    using sigchld_reaps_exactly_the_exited [OF live_mgr_reach, of "[(7, WExited 3), (99, WSignaled ''SIGKILL'')]"
        "\<lambda>_. up_env 1 0" "''web''"] g web1_fields(2) by auto
qed



end
