(* ===== verification/Log_Stream.thy ===== *)
theory Log_Stream
  imports Event_Bus
begin

text \<open>
  Streams of server-sent events: the frames \<open>internal/api/api.go\<close> writes for log output, the channel
  between the bus handler and the response, the types of the event stream, and the reader of
  \<open>internal/ctl/ctl.go\<close>.
\<close>

section \<open>Frames\<close>

definition LF :: char where "LF = CHR 0x0A"
definition CR :: char where "CR = CHR 0x0D"

definition data_field :: string where "data_field = ''data: ''"

definition sseLineEnds :: "string \<Rightarrow> string" where
  "sseLineEnds s = replacer [([CR, LF], [LF]), ([CR], [LF])] s"

definition writeSSEData :: "string \<Rightarrow> string" where
  "writeSSEData data =
     concat (map (\<lambda>line. data_field @ line @ [LF]) (split_on LF (sseLineEnds data))) @ [LF]"

text \<open>
  The reader takes lines that end with LF; what follows the last one is dropped.  \<open>data\<close> is the lines
  of the event read so far, and empty where the code has nil.
\<close>

fun copy_lines :: "string list \<Rightarrow> string list \<Rightarrow> string" where
  "copy_lines data [] = []"
| "copy_lines data (line # rest) =
     (if line = [] then (if data \<noteq> [] then join [LF] data @ copy_lines [] rest else copy_lines data rest)
      else if has_prefix line data_field then copy_lines (data @ [drop (length data_field) line]) rest
      else if line = ''data:'' then copy_lines (data @ [[]]) rest
      else copy_lines data rest)"

definition copySSEData :: "string \<Rightarrow> string" where
  "copySSEData body = copy_lines [] (butlast (split_on LF body))"

lemma LF_CR [simp]: "LF \<noteq> CR" "CR \<noteq> LF"
  by (simp_all add: LF_def CR_def)

lemma data_field [simp]: "LF \<notin> set data_field" "data_field \<noteq> []" "has_prefix (data_field @ l) data_field"
  by (simp_all add: LF_def data_field_def has_prefix_def)

lemma copy_data_lines:
  "copy_lines data (map (\<lambda>l. data_field @ l) ls @ rest) = copy_lines (data @ ls) rest"
  by (induction ls arbitrary: data) simp_all

lemma split_lines:
  "(\<And>w. w \<in> set ws \<Longrightarrow> LF \<notin> set w) \<Longrightarrow>
   split_on LF (concat (map (\<lambda>w. w @ [LF]) ws) @ rest) = ws @ split_on LF rest"
proof (induction ws)
  case (Cons w ws)
  have "split_on LF (w @ LF # (concat (map (\<lambda>w. w @ [LF]) ws) @ rest)) =
      w # split_on LF (concat (map (\<lambda>w. w @ [LF]) ws) @ rest)"
    using Cons.prems by (intro split_on_append) simp
  then show ?case using Cons by simp
qed simp

text \<open>The frame of one event is its data lines and an empty line.\<close>

lemma frame_lines:
  "split_on LF (writeSSEData d @ rest) =
     map (\<lambda>l. data_field @ l) (split_on LF (sseLineEnds d)) @ [] # split_on LF rest"
proof -
  let ?ls = "map (\<lambda>l. data_field @ l) (split_on LF (sseLineEnds d)) @ [[]]"
  have "LF \<notin> set w" if "w \<in> set ?ls" for w using that split_on_parts [of _ LF] by auto
  then have "split_on LF (concat (map (\<lambda>w. w @ [LF]) ?ls) @ rest) = ?ls @ split_on LF rest" by (rule split_lines)
  then show ?thesis by (simp add: writeSSEData_def comp_def)
qed

lemma butlast_split: "butlast (xs @ y # split_on LF s) = xs @ y # butlast (split_on LF s)"
  by (simp add: butlast_append)

lemma copySSEData_frame: "copySSEData (writeSSEData d @ rest) = sseLineEnds d @ copySSEData rest"
proof -
  let ?ls = "split_on LF (sseLineEnds d)"
  have "copySSEData (writeSSEData d @ rest) = copy_lines ?ls ([] # butlast (split_on LF rest))"
    by (simp add: copySSEData_def frame_lines butlast_split copy_data_lines)
  also have "\<dots> = join [LF] ?ls @ copySSEData rest" by (simp add: copySSEData_def)
  finally show ?thesis by (simp add: join_split_on)
qed

lemma copySSEData_Nil: "copySSEData [] = []"
  by (simp add: copySSEData_def)


lemma sseLineEnds_plain: "CR \<notin> set s \<Longrightarrow> sseLineEnds s = s"
proof (induction s)
  case (Cons c s)
  have "first_match [([CR, LF], [LF]), ([CR], [LF])] (c # s) = None"
    using Cons.prems by (auto simp: has_prefix_def)
  then show ?case using Cons by (simp add: sseLineEnds_def)
qed (simp add: sseLineEnds_def)

section \<open>The channel of a log stream\<close>

text \<open>
  The bus handler sends the data of its process's events to a channel of 64 and drops them when it
  is full; the response loop receives one at a time.  The result is what has been received and what
  is in the channel.
\<close>

datatype stream_step = SEvent Event | SReceive

definition event_field :: "string \<Rightarrow> Event \<Rightarrow> string" where
  "event_field k e = (case map_of (ev_data e) k of None \<Rightarrow> [] | Some v \<Rightarrow> v)"

definition stream_handler :: "string \<Rightarrow> Event \<Rightarrow> string list \<Rightarrow> string list" where
  "stream_handler name e ch =
     (if event_field ''name'' e \<noteq> name then ch
      else if length ch < 64 then ch @ [event_field ''data'' e] else ch)"

fun stream_run :: "string \<Rightarrow> stream_step list \<Rightarrow> string list \<Rightarrow> string list \<times> string list" where
  "stream_run name [] ch = ([], ch)"
| "stream_run name (SEvent e # steps) ch = stream_run name steps (stream_handler name e ch)"
| "stream_run name (SReceive # steps) ch =
     (case ch of
        [] \<Rightarrow> stream_run name steps []
      | d # ds \<Rightarrow> (let (out, rest) = stream_run name steps ds in (d # out, rest)))"

fun stream_data :: "string \<Rightarrow> stream_step list \<Rightarrow> string list" where
  "stream_data name [] = []"
| "stream_data name (SEvent e # steps) =
     (if event_field ''name'' e = name then event_field ''data'' e # stream_data name steps else stream_data name steps)"
| "stream_data name (SReceive # steps) = stream_data name steps"

text \<open>The data of a process's events.\<close>

fun pending_bound :: "string \<Rightarrow> stream_step list \<Rightarrow> nat \<Rightarrow> bool" where
  "pending_bound name [] n = True"
| "pending_bound name (SEvent e # steps) n =
     (if event_field ''name'' e = name then n < 64 \<and> pending_bound name steps (Suc n) else pending_bound name steps n)"
| "pending_bound name (SReceive # steps) n = pending_bound name steps (n - 1)"

text \<open>
  A log stream never reorders, repeats or invents output: what its client has received
  and what is queued is a subsequence of the data of its process's events, and all of it when the
  client is never more than 64 chunks behind.
\<close>

theorem log_stream_in_order:
  "(let (out, rest) = stream_run name steps [] in
     subseq (out @ rest) (stream_data name steps) \<and>
     (pending_bound name steps 0 \<longrightarrow> out @ rest = stream_data name steps))"
proof -
  have "(let (out, rest) = stream_run name steps ch in
     subseq (out @ rest) (ch @ stream_data name steps) \<and>
     (pending_bound name steps (length ch) \<longrightarrow> out @ rest = ch @ stream_data name steps))" for ch
  proof (induction name steps ch rule: stream_run.induct)
    case (2 name e steps ch)
    have "subseq (ch @ stream_data name steps) (ch @ d # stream_data name steps)" for d
      by (intro list_emb_append_mono subseq_order.refl list_emb_Cons)
    then show ?case using 2 by (auto simp: stream_handler_def split: if_splits intro: subseq_order.trans)
  next
    case (3 name steps ch)
    then show ?case by (cases ch) (auto simp: Let_def)
  qed simp
  from this [of "[]"] show ?thesis by simp
qed

definition chunk :: "string \<Rightarrow> string \<Rightarrow> Event" where
  "chunk name d = \<lparr>ev_type = ProcessLogStdout, ev_time = 0, ev_data = [(''name'', name), (''data'', d)]\<rparr>"

theorem log_stream_in_order_witness:
  "(let (out, rest) = stream_run ''web'' [SEvent (chunk ''web'' ''a''), SEvent (chunk ''db'' ''b''), SReceive,
       SEvent (chunk ''web'' ''c'')] [] in out @ rest = [''a'', ''c''])"
  using log_stream_in_order [of "''web''" "[SEvent (chunk ''web'' ''a''), SEvent (chunk ''db'' ''b''), SReceive,
       SEvent (chunk ''web'' ''c'')]"]
  by (simp add: chunk_def event_field_def stream_handler_def)

section \<open>The event stream\<close>

definition stream_types :: "event_type list" where
  "stream_types = [ProcessStateStopped, ProcessStateStarting, ProcessStateRunning, ProcessStateBackoff,
     ProcessStateStopping, ProcessStateExited, ProcessStateFatal, SupervisorStateRunning,
     SupervisorStateStopping, ProcessGroupAdded, ProcessGroupRemoved]"

text \<open>The types an event stream subscribes to, from its \<open>types\<close> parameter.\<close>

definition event_stream_types :: "string \<Rightarrow> event_type list" where
  "event_stream_types typesParam =
     (if typesParam = [] then stream_types
      else filter (\<lambda>t. t \<in> set (map TrimSpace (split_on (CHR '','') typesParam)))
        (stream_types @ [Tick5, Tick60, Tick3600]))"

text \<open>One frame of the event stream; \<open>json\<close> is the encoding of the event's data.\<close>

definition event_frame :: "((string \<times> string) list \<Rightarrow> string) \<Rightarrow> Event \<Rightarrow> string" where
  "event_frame json e = ''event: '' @ ev_type e @ [LF] @ ''data: '' @ json (ev_data e) @ [LF, LF]"

end
