(* ===== verification/Api_Server.thy ===== *)
theory Api_Server
  imports Supervisor_Safety Log_Stream
begin

text \<open>
  \<open>internal/api/api.go\<close>: the control API as a function from a request to a response and the new
  state.  A request is what the standard library hands to the handlers: the cleaned and decoded path,
  the query, the basic-auth credentials and the decoded JSON body.  A response is the status and the
  body before its JSON encoding.  \<open>None\<close> as a response means that the handler still waits.
\<close>

section \<open>Requests and responses\<close>

datatype http_method = GET | HEAD | POST | PUT | DELETE | OPTIONS | OtherMethod

record request =
  rq_method :: http_method
  rq_path :: "string list"
  rq_remote :: string
  rq_auth :: "(string \<times> string) option"
  rq_query :: "(string \<times> string) list"
  rq_fetch_site :: string
  rq_origin :: string
  rq_host :: string
  rq_signal :: "string option"
  rq_data :: "string option"

datatype body =
    JObj "(string \<times> string) list"
  | JProcs "ProcessInfo list"
  | JProc ProcessInfo
  | JResults "ActionResult list"
  | JNames "string list"
  | JConfig Config
  | JReload string ReloadResult
  | JNotReady "string list" "string list"
  | JText string
  | LogStream string event_type
  | EventStream "event_type list"
  | UIPage
  | Redirect string

record response =
  rs_status :: nat
  rs_body :: body
  rs_challenge :: bool

definition writeJSON :: "nat \<Rightarrow> body \<Rightarrow> response" where
  "writeJSON status b = \<lparr>rs_status = status, rs_body = b, rs_challenge = False\<rparr>"

definition writeError :: "nat \<Rightarrow> string \<Rightarrow> string \<Rightarrow> response" where
  "writeError status message code = writeJSON status (JObj [(''error'', message), (''code'', code)])"

text \<open>The order of the tests is the code's: an error's text decides its status.\<close>

definition classifyError :: "string \<Rightarrow> nat" where
  "classifyError msg =
     (if contains msg ''no such process'' \<or> contains msg ''no such group'' then 404
      else if contains msg ''already started'' \<or> contains msg ''already running'' then 409
      else if contains msg ''invalid signal'' \<or> contains msg ''not running'' \<or> contains msg ''does not accept stdin''
      then 400
      else 500)"

definition errorCode :: "nat \<Rightarrow> string" where
  "errorCode status =
     (if status = 400 then ''BAD_REQUEST''
      else if status = 404 then ''NOT_FOUND''
      else if status = 409 then ''CONFLICT''
      else if status = 401 then ''UNAUTHORIZED''
      else if status = 403 then ''FORBIDDEN''
      else if status = 405 then ''METHOD_NOT_ALLOWED''
      else ''SERVER_ERROR'')"

text \<open>The answer to an operation that may fail.\<close>

definition respond :: "string option \<Rightarrow> (string \<times> string) list \<Rightarrow> response" where
  "respond err ok =
     (case err of
        Some msg \<Rightarrow> writeError (classifyError msg) msg (errorCode (classifyError msg))
      | None \<Rightarrow> writeJSON 200 (JObj ok))"

section \<open>The server\<close>

record Server =
  as_sup :: Supervisor
  as_bulk :: bool
  as_user :: string
  as_pass :: string
  as_ui :: bool

text \<open>The world while a request is served: the results of the parts outside the model.\<close>

record api_env =
  ae_os :: OS
  ae_envs :: envs
  ae_world :: world
  ae_late :: "string \<Rightarrow> bool"
  ae_level_ok :: "string \<Rightarrow> bool"
  ae_loaded :: loaded
  ae_reload_text :: "reload_error \<Rightarrow> string"
  ae_now :: int
  ae_bcrypt :: "string \<Rightarrow> string \<Rightarrow> bool"
  ae_origin_host :: "string \<Rightarrow> string option"
  ae_version :: "(string \<times> string) list"
  ae_strip :: "string \<Rightarrow> string option"

definition as_manager :: "Server \<Rightarrow> Manager" where "as_manager s = su_manager (as_sup s)"

definition set_manager :: "Manager \<Rightarrow> Server \<Rightarrow> Server" where
  "set_manager m s = s\<lparr>as_sup := (as_sup s)\<lparr>su_manager := m\<rparr>\<rparr>"

definition query :: "request \<Rightarrow> string \<Rightarrow> string" where
  "query rq k = (case map_of (rq_query rq) k of None \<Rightarrow> [] | Some v \<Rightarrow> v)"

text \<open>An operation of the manager, answered with its error or the given fields.\<close>

definition run_op ::
  "(Manager \<Rightarrow> Manager \<times> string option) \<Rightarrow> (string \<times> string) list \<Rightarrow> Server \<Rightarrow> Server \<times> response option" where
  "run_op f ok s = (let (m, err) = f (as_manager s) in (set_manager m s, Some (respond err ok)))"

section \<open>Handlers\<close>

definition shutting_down :: response where
  "shutting_down = writeError 409 ''daemon is shutting down'' ''SHUTTING_DOWN''"

definition handleHealthz :: "Server \<Rightarrow> response" where
  "handleHealthz s =
     (if su_shutting (as_sup s) then writeJSON 503 (JObj [(''status'', ''shutting_down'')])
      else writeJSON 200 (JObj [(''status'', ''ok'')]))"

definition handleReadyz :: "request \<Rightarrow> Server \<Rightarrow> response" where
  "handleReadyz rq s =
     (let names = (if query rq ''process'' = [] then [] else split_on (CHR '','') (query rq ''process'')) in
      case Readiness names (as_sup s) of
        Inl err \<Rightarrow> writeError 400 err ''BAD_REQUEST''
      | Inr (pending, failing) \<Rightarrow>
          if pending \<noteq> [] \<or> failing \<noteq> [] then writeJSON 503 (JNotReady pending failing)
          else writeJSON 200 (JObj [(''status'', ''ready'')]))"

definition handleGetProcess :: "api_env \<Rightarrow> string \<Rightarrow> Server \<Rightarrow> response" where
  "handleGetProcess e name s =
     (case manager_Get (ae_now e) name (as_manager s) of
        Inl err \<Rightarrow> writeError 404 err ''NOT_FOUND''
      | Inr info \<Rightarrow> writeJSON 200 (JProc info))"

definition handleStartProcess :: "api_env \<Rightarrow> string \<Rightarrow> Server \<Rightarrow> Server \<times> response option" where
  "handleStartProcess e name s =
     (if su_shutting (as_sup s) then (s, Some shutting_down)
      else run_op (manager_Start (ae_envs e) name) [(''status'', ''started''), (''name'', name)] s)"

definition handleStopProcess :: "api_env \<Rightarrow> string \<Rightarrow> Server \<Rightarrow> Server \<times> response option" where
  "handleStopProcess e name = run_op (manager_Stop (ae_envs e) name) [(''status'', ''stopped''), (''name'', name)]"

definition handleRestartProcess :: "api_env \<Rightarrow> string \<Rightarrow> Server \<Rightarrow> Server \<times> response option" where
  "handleRestartProcess e name =
     run_op (Restart (ae_envs e) (ae_world e) name) [(''status'', ''restarted''), (''name'', name)]"

definition bad_body :: "string \<Rightarrow> string \<Rightarrow> response" where
  "bad_body field example =
     writeError 400 (''request body must contain {'' @ go_quote field @ '':'' @ go_quote example @ ''}'') ''BAD_REQUEST''"

definition handleSignalProcess :: "api_env \<Rightarrow> request \<Rightarrow> string \<Rightarrow> Server \<Rightarrow> Server \<times> response option" where
  "handleSignalProcess e rq name s =
     (case rq_signal rq of
        Some sg \<Rightarrow>
          if sg = [] then (s, Some (bad_body ''signal'' ''NAME''))
          else run_op (manager_Signal (ae_envs e) name sg)
            [(''status'', ''signaled''), (''name'', name), (''signal'', sg)] s
      | None \<Rightarrow> (s, Some (bad_body ''signal'' ''NAME'')))"

definition handleWriteStdin :: "api_env \<Rightarrow> request \<Rightarrow> string \<Rightarrow> Server \<Rightarrow> Server \<times> response option" where
  "handleWriteStdin e rq name s =
     (case rq_data rq of
        Some d \<Rightarrow> run_op (manager_WriteStdin (ae_envs e) name d) [(''status'', ''written''), (''name'', name)] s
      | None \<Rightarrow> (s, Some (bad_body ''data'' ''...'')))"

definition is_stream :: "string \<Rightarrow> bool" where
  "is_stream stream \<longleftrightarrow> stream = ''stdout'' \<or> stream = ''stderr''"

definition bad_stream :: response where
  "bad_stream = writeError 400 ''stream must be stdout or stderr'' ''BAD_REQUEST''"

definition maxReadLength :: int where "maxReadLength = 65536"

definition handleReadLog :: "request \<Rightarrow> string \<Rightarrow> string \<Rightarrow> Server \<Rightarrow> response" where
  "handleReadLog rq name stream s =
     (let read = (\<lambda>len. case ReadLog name stream len (as_manager s) of
                     Inl err \<Rightarrow> writeError (classifyError err) err (errorCode (classifyError err))
                   | Inr d \<Rightarrow> writeJSON 200 (JText d)) in
      if \<not> is_stream stream then bad_stream
      else case (if query rq ''length'' = [] then None else atoi (query rq ''length'')) of
        None \<Rightarrow> read 1600
      | Some v \<Rightarrow>
          if v \<le> 0 then read 1600
          else if v > maxReadLength then writeError 400 ''length exceeds maximum of 65536'' ''BAD_REQUEST''
          else read v)"

definition handleBulk ::
  "(Manager \<Rightarrow> Manager \<times> ActionResult list) \<Rightarrow> Server \<Rightarrow> Server \<times> response option" where
  "handleBulk action s =
     (if su_shutting (as_sup s) \<or> mg_shutdown (as_manager s) then (s, Some shutting_down)
      else if as_bulk s then (s, Some (writeError 409 ''bulk action in progress'' (errorCode 409)))
      else let (m, results) = action (as_manager s) in (set_manager m s, Some (writeJSON 200 (JResults results))))"

text \<open>The zero \<open>ActionResult\<close> of a missing map entry has no constructor; none is missing (see \<open>Manager_Safety\<close>).\<close>

definition restart_all :: "api_env \<Rightarrow> Manager \<Rightarrow> Manager \<times> ActionResult list" where
  "restart_all e m =
     (let (m1, rs) = RestartAllOrdered (ae_envs e) (ae_late e) (ae_world e) m
      in (m1, concat (map (\<lambda>r. case r of Some x \<Rightarrow> [x] | None \<Rightarrow> []) rs)))"

definition handleStreamLog :: "api_env \<Rightarrow> string \<Rightarrow> string \<Rightarrow> Server \<Rightarrow> response" where
  "handleStreamLog e name stream s =
     (if \<not> is_stream stream then bad_stream
      else case manager_Get (ae_now e) name (as_manager s) of
        Inl err \<Rightarrow> writeError 404 err ''NOT_FOUND''
      | Inr _ \<Rightarrow> writeJSON 200 (LogStream name (if stream = ''stdout'' then ProcessLogStdout else ProcessLogStderr)))"

definition handleGroup ::
  "(Manager \<Rightarrow> Manager \<times> string option) \<Rightarrow> string \<Rightarrow> string \<Rightarrow> Server \<Rightarrow> Server \<times> response option" where
  "handleGroup f status name = run_op f [(''status'', status), (''group'', name)]"

definition reload_response :: "api_env \<Rightarrow> string \<Rightarrow> (reload_error + ReloadResult) \<Rightarrow> response" where
  "reload_response e status res =
     (case res of
        Inl err \<Rightarrow> writeError 500 (ae_reload_text e err) ''SERVER_ERROR''
      | Inr r \<Rightarrow> writeJSON 200 (JReload status r))"

definition handleReloadConfig :: "api_env \<Rightarrow> request \<Rightarrow> Server \<Rightarrow> Server \<times> response option" where
  "handleReloadConfig e rq s =
     (if query rq ''dry_run'' = ''true''
      then (s, Some (reload_response e ''preview''
              (case PreviewReload (ae_loaded e) (as_sup s) of
                 Inl err \<Rightarrow> Inl (ReloadLoadFailed err) | Inr r \<Rightarrow> Inr r)))
      else case Reload (ae_os e) (ae_envs e) (ae_world e) (ae_level_ok e) (ae_loaded e) (as_sup s) of
        None \<Rightarrow> (s, None)
      | Some (sv, res) \<Rightarrow> (s\<lparr>as_sup := sv\<rparr>, Some (reload_response e ''reloaded'' res)))"

text \<open>The shutdown itself starts in the background after the response.\<close>

definition handleShutdown :: "Server \<Rightarrow> Server \<times> response option" where
  "handleShutdown s =
     (s\<lparr>as_sup := Shutdown (as_sup s)\<rparr>, Some (writeJSON 200 (JObj [(''status'', ''shutting_down'')])))"

section \<open>Routes\<close>

datatype route =
    RHealthz | RReadyz
  | RListProcesses | RGetProcess string | RStart string | RStop string | RRestart string
  | RSignal string | RStdin string | RReadLog string string | RStreamLog string string
  | RListGroups | RStartGroup string | RStopGroup string | RRestartGroup string
  | RGetConfig | RReload | RShutdown | RVersion | REvents
  | RAllStart | RAllStop | RAllRestart
  | RUI | RRoot | RSlash

text \<open>
  Each registered path has one method.  \<open>RSlash\<close> is the redirect the mux itself makes for a subtree
  without its final slash.
\<close>

definition process_route :: "string \<Rightarrow> string \<Rightarrow> (http_method \<times> route) option" where
  "process_route name act =
     (if act = ''start'' then Some (POST, RStart name)
      else if act = ''stop'' then Some (POST, RStop name)
      else if act = ''restart'' then Some (POST, RRestart name)
      else if act = ''signal'' then Some (POST, RSignal name)
      else if act = ''stdin'' then Some (POST, RStdin name)
      else None)"

definition group_route :: "string \<Rightarrow> string \<Rightarrow> (http_method \<times> route) option" where
  "group_route name act =
     (if act = ''start'' then Some (POST, RStartGroup name)
      else if act = ''stop'' then Some (POST, RStopGroup name)
      else if act = ''restart'' then Some (POST, RRestartGroup name)
      else None)"

definition all_route :: "string \<Rightarrow> (http_method \<times> route) option" where
  "all_route act =
     (if act = ''start'' then Some (POST, RAllStart)
      else if act = ''stop'' then Some (POST, RAllStop)
      else if act = ''restart'' then Some (POST, RAllRestart)
      else None)"

definition v1_route :: "string list \<Rightarrow> (http_method \<times> route) option" where
  "v1_route p =
     (case p of
        [a] \<Rightarrow>
          if a = ''processes'' then Some (GET, RListProcesses)
          else if a = ''groups'' then Some (GET, RListGroups)
          else if a = ''config'' then Some (GET, RGetConfig)
          else if a = ''shutdown'' then Some (POST, RShutdown)
          else if a = ''version'' then Some (GET, RVersion)
          else None
      | [a, b] \<Rightarrow>
          if a = ''processes'' \<and> b \<noteq> [] then Some (GET, RGetProcess b)
          else if a = ''config'' \<and> b = ''reload'' then Some (POST, RReload)
          else if a = ''events'' \<and> b = ''stream'' then Some (GET, REvents)
          else if a = ''all'' then all_route b
          else None
      | [a, b, c] \<Rightarrow>
          if a = ''processes'' \<and> b \<noteq> [] then process_route b c
          else if a = ''groups'' \<and> b \<noteq> [] then group_route b c
          else None
      | [a, b, c, d] \<Rightarrow>
          if a = ''processes'' \<and> b \<noteq> [] \<and> c = ''log'' \<and> d \<noteq> [] then Some (GET, RReadLog b d) else None
      | [a, b, c, d, f] \<Rightarrow>
          if a = ''processes'' \<and> b \<noteq> [] \<and> c = ''log'' \<and> d \<noteq> [] \<and> f = ''stream'' then Some (GET, RStreamLog b d)
          else None
      | _ \<Rightarrow> None)"

definition buildMux :: "bool \<Rightarrow> string list \<Rightarrow> (http_method \<times> route) option" where
  "buildMux ui path =
     (if path = [''healthz''] then Some (GET, RHealthz)
      else if path = [''readyz''] then Some (GET, RReadyz)
      else if ui \<and> path = [[]] then Some (GET, RRoot)
      else if ui \<and> path = [''ui''] then Some (GET, RSlash)
      else if ui \<and> 1 < length path \<and> hd path = ''ui'' then Some (GET, RUI)
      else if take 2 path = [''api'', ''v1''] then v1_route (drop 2 path)
      else None)"

text \<open>What the mux makes of a request; a GET pattern also serves HEAD.\<close>

datatype mux_result = Found route | WrongMethod http_method | NoRoute

definition mux_find :: "bool \<Rightarrow> request \<Rightarrow> mux_result" where
  "mux_find ui rq =
     (case buildMux ui (rq_path rq) of
        None \<Rightarrow> NoRoute
      | Some (m, r) \<Rightarrow> if rq_method rq = m \<or> (m = GET \<and> rq_method rq = HEAD) then Found r else WrongMethod m)"

section \<open>Serving\<close>

definition isUnixConn :: "request \<Rightarrow> bool" where
  "isUnixConn rq \<longleftrightarrow> rq_remote rq = [] \<or> rq_remote rq = ''@''"

definition checkPassword :: "api_env \<Rightarrow> string \<Rightarrow> string \<Rightarrow> bool" where
  "checkPassword e pw hash = (if hash = [] then pw = [] else ae_bcrypt e hash pw)"

definition unauthorized :: "string \<Rightarrow> response" where
  "unauthorized msg = (writeError 401 msg ''UNAUTHORIZED'')\<lparr>rs_challenge := True\<rparr>"

definition requireAuth ::
  "api_env \<Rightarrow> request \<Rightarrow> (Server \<Rightarrow> Server \<times> response option) \<Rightarrow> Server \<Rightarrow> Server \<times> response option" where
  "requireAuth e rq next_h s =
     (if isUnixConn rq then next_h s
      else if as_user s = [] then next_h s
      else case rq_auth rq of
        None \<Rightarrow> (s, Some (unauthorized ''authentication required''))
      | Some (user, pass) \<Rightarrow>
          let userOK = (user = as_user s); passOK = checkPassword e pass (as_pass s) in
          if \<not> userOK \<or> \<not> passOK then (s, Some (unauthorized ''invalid credentials''))
          else next_h s)"

text \<open>The handlers that only read.\<close>

definition handleListProcesses :: "api_env \<Rightarrow> Server \<Rightarrow> response" where
  [simp]: "handleListProcesses e s = writeJSON 200 (JProcs (manager_List (ae_now e) (as_manager s)))"

definition handleListGroups :: "Server \<Rightarrow> response" where
  [simp]: "handleListGroups s = writeJSON 200 (JNames (ListGroups (as_manager s)))"

text \<open>The configuration is the only value the view is asked for, and it is redacted.\<close>

definition sanitizeConfigView :: "api_env \<Rightarrow> Config \<Rightarrow> body" where
  [simp]: "sanitizeConfigView e cfg = JConfig (Sanitized (ae_strip e) cfg)"

definition handleGetConfig :: "api_env \<Rightarrow> Server \<Rightarrow> response" where
  [simp]: "handleGetConfig e s = writeJSON 200 (sanitizeConfigView e (su_config (as_sup s)))"

definition handleVersion :: "api_env \<Rightarrow> response" where
  [simp]: "handleVersion e = writeJSON 200 (JObj (ae_version e))"

fun handle :: "api_env \<Rightarrow> request \<Rightarrow> route \<Rightarrow> Server \<Rightarrow> Server \<times> response option" where
  "handle e rq RHealthz s = (s, Some (handleHealthz s))"
| "handle e rq RReadyz s = (s, Some (handleReadyz rq s))"
| "handle e rq RListProcesses s = (s, Some (handleListProcesses e s))"
| "handle e rq (RGetProcess n) s = (s, Some (handleGetProcess e n s))"
| "handle e rq (RStart n) s = handleStartProcess e n s"
| "handle e rq (RStop n) s = handleStopProcess e n s"
| "handle e rq (RRestart n) s = handleRestartProcess e n s"
| "handle e rq (RSignal n) s = handleSignalProcess e rq n s"
| "handle e rq (RStdin n) s = handleWriteStdin e rq n s"
| "handle e rq (RReadLog n st) s = (s, Some (handleReadLog rq n st s))"
| "handle e rq (RStreamLog n st) s = (s, Some (handleStreamLog e n st s))"
| "handle e rq RListGroups s = (s, Some (handleListGroups s))"
| "handle e rq (RStartGroup n) s = handleGroup (StartGroup (ae_envs e) n) ''started'' n s"
| "handle e rq (RStopGroup n) s = handleGroup (StopGroup (ae_envs e) n) ''stopped'' n s"
| "handle e rq (RRestartGroup n) s = handleGroup (RestartGroup (ae_envs e) (ae_world e) n) ''restarted'' n s"
| "handle e rq RGetConfig s = (s, Some (handleGetConfig e s))"
| "handle e rq RReload s = handleReloadConfig e rq s"
| "handle e rq RShutdown s = handleShutdown s"
| "handle e rq RVersion s = (s, Some (handleVersion e))"
| "handle e rq REvents s = (s, Some (writeJSON 200 (EventStream (event_stream_types (query rq ''types'')))))"
| "handle e rq RAllStart s = handleBulk (StartAllOrdered (ae_envs e) (ae_late e)) s"
| "handle e rq RAllStop s = handleBulk (StopAllOrdered (ae_envs e) (ae_world e)) s"
| "handle e rq RAllRestart s = handleBulk (restart_all e) s"
| "handle e rq RUI s = (s, Some (writeJSON 200 UIPage))"
| "handle e rq RRoot s = (s, Some (writeJSON 302 (Redirect ''/ui/'')))"
| "handle e rq RSlash s = (s, Some (writeJSON 301 (Redirect ''/ui/'')))"

text \<open>The routes without authentication.\<close>

definition is_open :: "route \<Rightarrow> bool" where
  "is_open r \<longleftrightarrow> r = RHealthz \<or> r = RReadyz \<or> r = RSlash"

definition safe_method :: "http_method \<Rightarrow> bool" where
  "safe_method m \<longleftrightarrow> m = GET \<or> m = HEAD \<or> m = OPTIONS"

text \<open>\<open>http.CrossOriginProtection\<close> as configured here: no trusted origins, no bypass.\<close>

definition cross_origin :: "api_env \<Rightarrow> request \<Rightarrow> bool" where
  "cross_origin e rq \<longleftrightarrow>
     \<not> safe_method (rq_method rq) \<and>
     (if rq_fetch_site rq = [] then rq_origin rq \<noteq> [] \<and> ae_origin_host e (rq_origin rq) \<noteq> Some (rq_host rq)
      else rq_fetch_site rq \<noteq> ''same-origin'' \<and> rq_fetch_site rq \<noteq> ''none'')"

definition mux_error :: "request \<Rightarrow> nat \<Rightarrow> response" where
  "mux_error rq status =
     (if take 1 (rq_path rq) = [''api''] \<and> 1 < length (rq_path rq)
      then writeError status (if status = 405 then ''method not allowed'' else ''not found'') (errorCode status)
      else writeJSON status (JText (if status = 405 then ''Method Not Allowed'' else ''404 page not found'')))"

definition serve :: "api_env \<Rightarrow> request \<Rightarrow> Server \<Rightarrow> Server \<times> response option" where
  "serve e rq s =
     (if cross_origin e rq then (s, Some (writeError 403 ''cross-origin request rejected'' (errorCode 403)))
      else case mux_find (as_ui s) rq of
        NoRoute \<Rightarrow> (s, Some (mux_error rq 404))
      | WrongMethod _ \<Rightarrow> (s, Some (mux_error rq 405))
      | Found r \<Rightarrow> if is_open r then handle e rq r s else requireAuth e rq (handle e rq r) s)"

end
