(* ===== verification/Ctl_Client.thy ===== *)
theory Ctl_Client
  imports Api_Server
begin

text \<open>
  The control client: \<open>internal/ctl/ctl.go\<close>, which turns an operation into an HTTP call and the answer
  into a result, and the commands of \<open>cmd/kahi/ctl.go\<close>, which call it for their arguments.  The other end
  of the wire is an argument \<open>net\<close> that answers a call and changes a state of its own.  A body is what
  \<open>Api_Server\<close> sends, before its JSON encoding and after its decoding.
\<close>

section \<open>Calls\<close>

datatype endpoint = UnixSocket string | TCPAddr string

record Client =
  cl_endpoint :: endpoint
  cl_username :: string
  cl_password :: string

definition NewUnixClient :: "string \<Rightarrow> Client" where
  "NewUnixClient path = \<lparr>cl_endpoint = UnixSocket path, cl_username = [], cl_password = []\<rparr>"

definition NewTCPClient :: "string \<Rightarrow> string \<Rightarrow> string \<Rightarrow> Client" where
  "NewTCPClient addr user pass = \<lparr>cl_endpoint = TCPAddr addr, cl_username = user, cl_password = pass\<rparr>"

text \<open>A body is a text written by hand or the encoding of \<open>{"data": ...}\<close>.\<close>

datatype call_body = NoBody | RawBody string | DataBody string

record call =
  ca_method :: http_method
  ca_target :: string
  ca_auth :: "(string \<times> string) option"
  ca_body :: call_body

datatype reply = NoReply string | Reply nat body

type_synonym 'w net = "call \<Rightarrow> 'w \<Rightarrow> 'w \<times> reply"

text \<open>The errors, and their texts; that of the JSON decoder is left out.\<close>

datatype ctl_error =
    ConnectionFailed string | InvalidResponse | Answered string | NoSuchProcess string
  | ServerError nat | NoPID | StreamTimedOut | StreamFailed string

fun error_text :: "ctl_error \<Rightarrow> string" where
  "error_text (ConnectionFailed e) = ''connection failed: '' @ e"
| "error_text InvalidResponse = ''invalid response''"
| "error_text (Answered msg) = msg"
| "error_text (NoSuchProcess name) = ''no such process: '' @ name"
| "error_text (ServerError n) = ''server error (status '' @ itoa (int n) @ '')''"
| "error_text NoPID = ''pid not available from version endpoint''"
| "error_text StreamTimedOut = ''context deadline exceeded (Client.Timeout or context cancellation while reading body)''"
| "error_text (StreamFailed e) = e"

text \<open>\<open>do\<close>.\<close>

definition do_call :: "Client \<Rightarrow> http_method \<Rightarrow> string \<Rightarrow> call_body \<Rightarrow> call" where
  "do_call c m target b =
     \<lparr>ca_method = m, ca_target = target,
      ca_auth = (if cl_username c \<noteq> [] then Some (cl_username c, cl_password c) else None), ca_body = b\<rparr>"

text \<open>What decodes into a map: a JSON object; and the \<open>error\<close> of one.\<close>

fun is_object :: "body \<Rightarrow> bool" where
  "is_object (JObj _) = True"
| "is_object (JProc _) = True"
| "is_object (JConfig _) = True"
| "is_object (JReload _ _) = True"
| "is_object (JNotReady _ _) = True"
| "is_object _ = False"

fun string_map :: "body \<Rightarrow> (string \<times> string) list option" where
  "string_map (JObj kvs) = Some kvs"
| "string_map _ = None"

definition error_field :: "body \<Rightarrow> string option" where
  "error_field b = (case string_map b of None \<Rightarrow> None | Some kvs \<Rightarrow> map_of kvs ''error'')"

definition doJSON ::
  "'w net \<Rightarrow> Client \<Rightarrow> http_method \<Rightarrow> string \<Rightarrow> call_body \<Rightarrow> 'w \<Rightarrow> 'w \<times> (ctl_error + body)" where
  "doJSON net c m target b w =
     (case net (do_call c m target b) w of
        (w', NoReply e) \<Rightarrow> (w', Inl (ConnectionFailed e))
      | (w', Reply status r) \<Rightarrow>
          (w', if \<not> is_object r then Inl InvalidResponse
               else if status \<ge> 400
               then Inl (Answered (case error_field r of Some msg \<Rightarrow> msg | None \<Rightarrow> ''unknown error''))
               else Inr r))"

definition post ::
  "'w net \<Rightarrow> Client \<Rightarrow> string \<Rightarrow> call_body \<Rightarrow> 'w \<Rightarrow> 'w \<times> ctl_error option" where
  "post net c target b w =
     (let (w', r) = doJSON net c POST target b w in (w', case r of Inl e \<Rightarrow> Some e | Inr _ \<Rightarrow> None))"

section \<open>Operations\<close>

definition process_target :: "string \<Rightarrow> string \<Rightarrow> string" where
  "process_target name act = ''/api/v1/processes/'' @ name @ act"

definition group_target :: "string \<Rightarrow> string \<Rightarrow> string" where
  "group_target name act = ''/api/v1/groups/'' @ name @ act"

definition client_Start :: "'w net \<Rightarrow> Client \<Rightarrow> string \<Rightarrow> 'w \<Rightarrow> 'w \<times> ctl_error option" where
  "client_Start net c name = post net c (process_target name ''/start'') NoBody"

definition client_Stop :: "'w net \<Rightarrow> Client \<Rightarrow> string \<Rightarrow> 'w \<Rightarrow> 'w \<times> ctl_error option" where
  "client_Stop net c name = post net c (process_target name ''/stop'') NoBody"

definition client_Restart :: "'w net \<Rightarrow> Client \<Rightarrow> string \<Rightarrow> 'w \<Rightarrow> 'w \<times> ctl_error option" where
  "client_Restart net c name = post net c (process_target name ''/restart'') NoBody"

definition signal_body :: "string \<Rightarrow> string" where
  "signal_body sg = ''{'' @ [CHR 0x22] @ ''signal'' @ [CHR 0x22] @ '':'' @ [CHR 0x22] @ sg @ [CHR 0x22] @ ''}''"

definition client_Signal :: "'w net \<Rightarrow> Client \<Rightarrow> string \<Rightarrow> string \<Rightarrow> 'w \<Rightarrow> 'w \<times> ctl_error option" where
  "client_Signal net c name sg = post net c (process_target name ''/signal'') (RawBody (signal_body sg))"

definition client_StartGroup :: "'w net \<Rightarrow> Client \<Rightarrow> string \<Rightarrow> 'w \<Rightarrow> 'w \<times> ctl_error option" where
  "client_StartGroup net c name = post net c (group_target name ''/start'') NoBody"

definition client_StopGroup :: "'w net \<Rightarrow> Client \<Rightarrow> string \<Rightarrow> 'w \<Rightarrow> 'w \<times> ctl_error option" where
  "client_StopGroup net c name = post net c (group_target name ''/stop'') NoBody"

definition client_RestartGroup :: "'w net \<Rightarrow> Client \<Rightarrow> string \<Rightarrow> 'w \<Rightarrow> 'w \<times> ctl_error option" where
  "client_RestartGroup net c name = post net c (group_target name ''/restart'') NoBody"

definition client_WriteStdin :: "'w net \<Rightarrow> Client \<Rightarrow> string \<Rightarrow> string \<Rightarrow> 'w \<Rightarrow> 'w \<times> ctl_error option" where
  "client_WriteStdin net c name d = post net c (process_target name ''/stdin'') (DataBody (d @ [LF]))"

definition client_Shutdown :: "'w net \<Rightarrow> Client \<Rightarrow> 'w \<Rightarrow> 'w \<times> ctl_error option" where
  "client_Shutdown net c = post net c ''/api/v1/shutdown'' NoBody"

definition client_Reload :: "'w net \<Rightarrow> Client \<Rightarrow> 'w \<Rightarrow> 'w \<times> (ctl_error + body)" where
  "client_Reload net c = doJSON net c POST ''/api/v1/config/reload'' NoBody"

definition client_Reread :: "'w net \<Rightarrow> Client \<Rightarrow> 'w \<Rightarrow> 'w \<times> (ctl_error + body)" where
  "client_Reread net c = doJSON net c POST ''/api/v1/config/reload?dry_run=true'' NoBody"

definition client_Version :: "'w net \<Rightarrow> Client \<Rightarrow> 'w \<Rightarrow> 'w \<times> (ctl_error + body)" where
  "client_Version net c = doJSON net c GET ''/api/v1/version'' NoBody"

text \<open>The list of processes; the status of the answer is not looked at.\<close>

definition fetch_processes :: "'w net \<Rightarrow> Client \<Rightarrow> 'w \<Rightarrow> 'w \<times> (ctl_error + ProcessInfo list)" where
  "fetch_processes net c w =
     (case net (do_call c GET ''/api/v1/processes'' NoBody) w of
        (w', NoReply e) \<Rightarrow> (w', Inl (ConnectionFailed e))
      | (w', Reply status (JProcs ps)) \<Rightarrow> (w', Inr ps)
      | (w', Reply status _) \<Rightarrow> (w', Inl InvalidResponse))"

definition by_process_name :: "ProcessInfo list \<Rightarrow> ProcessInfo list" where
  "by_process_name ps = sort_slice (\<lambda>a b. in_Name a < in_Name b) ps"

definition ProcessPIDs :: "'w net \<Rightarrow> Client \<Rightarrow> 'w \<Rightarrow> 'w \<times> (ctl_error + ProcessInfo list)" where
  "ProcessPIDs net c w =
     (case fetch_processes net c w of
        (w', Inl e) \<Rightarrow> (w', Inl e)
      | (w', Inr ps) \<Rightarrow> (w', Inr (by_process_name (filter (\<lambda>p. in_PID p > 0) ps))))"

text \<open>An object without the fields of a process decodes to process id 0.\<close>

definition client_PID :: "'w net \<Rightarrow> Client \<Rightarrow> string \<Rightarrow> 'w \<Rightarrow> 'w \<times> (ctl_error + string)" where
  "client_PID net c name w =
     (if name = [] then
        (case client_Version net c w of
           (w', Inl e) \<Rightarrow> (w', Inl e)
         | (w', Inr r) \<Rightarrow>
             (w', case string_map r of
                    None \<Rightarrow> Inl NoPID
                  | Some kvs \<Rightarrow> (case map_of kvs ''pid'' of None \<Rightarrow> Inl NoPID | Some pid \<Rightarrow> Inr pid)))
      else
        (case net (do_call c GET (process_target name []) NoBody) w of
           (w', NoReply e) \<Rightarrow> (w', Inl (ConnectionFailed e))
         | (w', Reply status r) \<Rightarrow>
             (w', if \<not> is_object r then Inl InvalidResponse
                  else if status \<ge> 400 then Inl (NoSuchProcess name)
                  else Inr (case r of JProc p \<Rightarrow> itoa (int (in_PID p)) | _ \<Rightarrow> ''0''))))"

definition Health :: "'w net \<Rightarrow> Client \<Rightarrow> 'w \<Rightarrow> 'w \<times> (ctl_error + string)" where
  "Health net c w =
     (case net (do_call c GET ''/healthz'' NoBody) w of
        (w', NoReply e) \<Rightarrow> (w', Inl (ConnectionFailed e))
      | (w', Reply status r) \<Rightarrow>
          (w', case string_map r of
                 None \<Rightarrow> Inl InvalidResponse
               | Some kvs \<Rightarrow> Inr (case map_of kvs ''status'' of None \<Rightarrow> [] | Some s \<Rightarrow> s)))"

definition client_Ready :: "'w net \<Rightarrow> Client \<Rightarrow> string list \<Rightarrow> 'w \<Rightarrow> 'w \<times> (ctl_error + string)" where
  "client_Ready net c names w =
     (case net (do_call c GET (''/readyz'' @ (if names \<noteq> [] then ''?process='' @ join '','' names else [])) NoBody) w of
        (w', NoReply e) \<Rightarrow> (w', Inl (ConnectionFailed e))
      | (w', Reply status r) \<Rightarrow>
          (w', if \<not> is_object r then Inl InvalidResponse
               else case error_field r of
                 Some msg \<Rightarrow> Inl (Answered msg)
               | None \<Rightarrow>
                   (case r of
                      JNotReady _ _ \<Rightarrow> Inr ''not_ready''
                    | JObj kvs \<Rightarrow> Inr (case map_of kvs ''status'' of None \<Rightarrow> [] | Some s \<Rightarrow> s)
                    | _ \<Rightarrow> Inr [])))"

text \<open>The error of an answer with a status from 400 on, for the log calls.\<close>

definition log_error :: "nat \<Rightarrow> body \<Rightarrow> ctl_error" where
  "log_error status r =
     (case string_map r of
        None \<Rightarrow> ServerError status
      | Some kvs \<Rightarrow> Answered (case map_of kvs ''error'' of None \<Rightarrow> [] | Some m \<Rightarrow> m))"

definition default_stream :: "string \<Rightarrow> string" where
  "default_stream stream = (if stream = [] then ''stdout'' else stream)"

definition Tail :: "'w net \<Rightarrow> Client \<Rightarrow> string \<Rightarrow> string \<Rightarrow> int \<Rightarrow> 'w \<Rightarrow> 'w \<times> (ctl_error + string)" where
  "Tail net c name stream n w =
     (case net (do_call c GET (process_target name (''/log/'' @ default_stream stream @ ''?length='' @ itoa n)) NoBody) w of
        (w', NoReply e) \<Rightarrow> (w', Inl (ConnectionFailed e))
      | (w', Reply status r) \<Rightarrow>
          (w', if status \<ge> 400 then Inl (log_error status r)
               else Inr (case r of JText t \<Rightarrow> t | _ \<Rightarrow> [])))"

section \<open>Following a log\<close>

text \<open>
  What the body of a stream delivers, with the nanoseconds since the call.  The client's timeout covers
  the reading of the body: \<open>http.Client\<close> ends it when the timeout has passed.
\<close>

datatype stream_event = Chunk string | EndOfStream | ReadError string | Interrupted

definition clientTimeout :: int where "clientTimeout = 30 * 1000000000"

fun read_stream :: "(int \<times> stream_event) list \<Rightarrow> string \<times> ctl_error option" where
  "read_stream [] = ([], Some StreamTimedOut)"
| "read_stream ((at, ev) # rest) =
     (if at \<ge> clientTimeout then ([], Some StreamTimedOut)
      else case ev of
        Chunk s \<Rightarrow> (let (t, r) = read_stream rest in (s @ t, r))
      | EndOfStream \<Rightarrow> ([], None)
      | ReadError e \<Rightarrow> ([], Some (StreamFailed e))
      | Interrupted \<Rightarrow> ([], None))"

text \<open>The text that is printed, and the error.\<close>

definition TailFollow ::
  "'w net \<Rightarrow> Client \<Rightarrow> string \<Rightarrow> string \<Rightarrow> (int \<times> stream_event) list \<Rightarrow> 'w \<Rightarrow> 'w \<times> string \<times> ctl_error option" where
  "TailFollow net c name stream evs w =
     (case net (do_call c GET (process_target name (''/log/'' @ default_stream stream @ ''/stream'')) NoBody) w of
        (w', NoReply e) \<Rightarrow> (w', [], Some (ConnectionFailed e))
      | (w', Reply status r) \<Rightarrow>
          (w', if status \<ge> 400 then ([], Some (log_error status r))
               else (let (t, err) = read_stream evs in (copySSEData t, err))))"

text \<open>
  \<open>Attach\<close>: what its two goroutines and the context do, in their order.  The first result ends it.
  \<open>None\<close> as a result means that it is still attached.
\<close>

datatype attach_event = InputLine string | InputEnd "ctl_error option" | OutputEnd "ctl_error option" | Detach

fun attach_loop ::
  "'w net \<Rightarrow> Client \<Rightarrow> string \<Rightarrow> attach_event list \<Rightarrow> 'w \<Rightarrow> 'w \<times> ctl_error option option" where
  "attach_loop net c name [] w = (w, None)"
| "attach_loop net c name (InputLine l # evs) w =
     (case client_WriteStdin net c name l w of
        (w', Some e) \<Rightarrow> (w', Some (Some e))
      | (w', None) \<Rightarrow> attach_loop net c name evs w')"
| "attach_loop net c name (InputEnd r # evs) w = (w, Some r)"
| "attach_loop net c name (OutputEnd r # evs) w = (w, Some r)"
| "attach_loop net c name (Detach # evs) w = (w, Some None)"

definition Attach ::
  "'w net \<Rightarrow> Client \<Rightarrow> string \<Rightarrow> attach_event list \<Rightarrow> 'w \<Rightarrow> 'w \<times> ctl_error option option" where
  "Attach net c name evs w =
     (case net (do_call c GET (process_target name []) NoBody) w of
        (w', NoReply e) \<Rightarrow> (w', Some (Some (ConnectionFailed e)))
      | (w', Reply status r) \<Rightarrow>
          if status \<ge> 400 then (w', Some (Some (NoSuchProcess name)))
          else attach_loop net c name evs w')"

text \<open>
  The polls of \<open>WaitGone\<close>: whether the call failed, and whether the clock was past the deadline after it.
  \<open>None\<close> means that it still polls.
\<close>

fun WaitGone :: "(bool \<times> bool) list \<Rightarrow> bool option" where
  "WaitGone [] = None"
| "WaitGone ((gone, late) # polls) = (if gone then Some True else if late then Some False else WaitGone polls)"

end
