(* ===== verification/Ctl_Status.thy ===== *)
theory Ctl_Status
  imports Ctl_Client Ansi_Strip "HOL-Library.Signed_Division"
begin

text \<open>
  The status table of \<open>internal/ctl/ctl.go\<close>: which processes it shows, its cells, and the layout by
  \<open>text/tabwriter\<close>, for cells without tabs and line breaks.  The JSON form is the decoded list.
\<close>

section \<open>Durations\<close>

text \<open>
  Nanoseconds.  The code reads hours and minutes as floating point numbers and truncates them, which is
  exact for whole seconds.
\<close>

definition hours_of :: "int \<Rightarrow> int" where "hours_of d = d sdiv 3600000000000"
definition minutes_of :: "int \<Rightarrow> int" where "minutes_of d = d sdiv 60000000000"

definition formatDuration :: "int \<Rightarrow> string" where
  "formatDuration d =
     (let days = hours_of d sdiv 24; hours = hours_of d smod 24; minutes = minutes_of d smod 60 in
      if days > 0 then itoa days @ ''d '' @ itoa hours @ ''h '' @ itoa minutes @ ''m''
      else if hours > 0 then itoa hours @ ''h '' @ itoa minutes @ ''m''
      else itoa minutes @ ''m'')"

lemma sdiv_nonneg: "0 \<le> a \<Longrightarrow> 0 < b \<Longrightarrow> a sdiv b = a div b" for a b :: int
  by (cases "a = 0") (simp_all add: signed_divide_int_def sgn_mult)

lemma smod_nonneg: "0 \<le> a \<Longrightarrow> 0 < b \<Longrightarrow> a smod b = a mod b" for a b :: int
  by (cases "a = 0") (simp_all add: signed_modulo_int_def)

section \<open>Cells\<close>

definition color_code :: "string \<Rightarrow> string" where
  "color_code state =
     (if state = ''RUNNING'' then ''32''
      else if state = ''FATAL'' then ''31''
      else if state \<in> {''STARTING'', ''BACKOFF'', ''STOPPING''} then ''33''
      else ''39'')"

definition colorState :: "string \<Rightarrow> string" where
  "colorState state = [ESC] @ ''['' @ color_code state @ ''m'' @ state @ [ESC] @ ''[0m''"

definition state_cell :: "bool \<Rightarrow> string \<Rightarrow> string" where
  "state_cell color state = (if color then colorState state else state)"

definition pid_cell :: "ProcessInfo \<Rightarrow> string" where
  "pid_cell p = (if in_PID p > 0 then itoa (int (in_PID p)) else ''-'')"

definition uptime_cell :: "ProcessInfo \<Rightarrow> string" where
  "uptime_cell p = (if in_Uptime p > 0 then formatDuration (i64 (in_Uptime p * 1000000000)) else ''-'')"

definition desc_cell :: "ProcessInfo \<Rightarrow> string" where
  "desc_cell p =
     (if in_State p = ''EXITED''
      then (if in_ExitSignal p \<noteq> [] then ''killed by SIG'' @ in_ExitSignal p else ''exit '' @ itoa (in_ExitStatus p))
      else in_Description p)"

definition row_cells :: "bool \<Rightarrow> ProcessInfo \<Rightarrow> string list" where
  "row_cells color p = [in_Name p, state_cell color (in_State p), pid_cell p, uptime_cell p, desc_cell p]"

definition header_cells :: "bool \<Rightarrow> string list" where
  "header_cells color = [''NAME'', state_cell color ''STATE'', ''PID'', ''UPTIME'', ''DESCRIPTION'']"

section \<open>Layout\<close>

text \<open>The width of a cell is its number of UTF-8 characters: of bytes that do not continue one.\<close>

definition cell_width :: "string \<Rightarrow> nat" where
  "cell_width s = length (filter (\<lambda>c. \<not> (0x80 \<le> (of_char c :: nat) \<and> (of_char c :: nat) < 0xC0)) s)"

definition column_width :: "string list list \<Rightarrow> nat \<Rightarrow> nat" where
  "column_width rows j = foldr max (map (\<lambda>r. cell_width (r ! j)) rows) 0 + 2"

definition pad_cell :: "nat \<Rightarrow> string \<Rightarrow> string" where
  "pad_cell w s = s @ replicate (w - cell_width s) (CHR '' '')"

text \<open>Rows of five cells; the last one ends its line and is not padded.\<close>

definition tab_line :: "string list list \<Rightarrow> string list \<Rightarrow> string" where
  "tab_line rows r = concat (map (\<lambda>j. pad_cell (column_width rows j) (r ! j)) [0..<4]) @ r ! 4 @ [LF]"

definition tab_text :: "string list list \<Rightarrow> string" where
  "tab_text rows = concat (map (tab_line rows) rows)"

definition status_rows :: "bool \<Rightarrow> ProcessInfo list \<Rightarrow> string list list" where
  "status_rows color ps = header_cells color # map (row_cells color) (by_process_name ps)"

definition formatStatusTable :: "bool \<Rightarrow> ProcessInfo list \<Rightarrow> string" where
  "formatStatusTable color ps = tab_text (status_rows color ps)"

section \<open>The status command\<close>

record StatusOptions =
  so_JSON :: bool
  so_NoColor :: bool

datatype status_output = StatusJSON "ProcessInfo list" | StatusTable string

definition filter_names :: "string list \<Rightarrow> ProcessInfo list \<Rightarrow> ProcessInfo list" where
  "filter_names names ps = (if names = [] then ps else filter (\<lambda>p. in_Name p \<in> set names) ps)"

definition StatusWithOptions ::
  "'w net \<Rightarrow> Client \<Rightarrow> string list \<Rightarrow> StatusOptions \<Rightarrow> bool \<Rightarrow> 'w \<Rightarrow> 'w \<times> (ctl_error + status_output)" where
  "StatusWithOptions net c names opts tty w =
     (case fetch_processes net c w of
        (w', Inl e) \<Rightarrow> (w', Inl e)
      | (w', Inr ps) \<Rightarrow>
          (w', Inr (if so_JSON opts then StatusJSON (filter_names names ps)
                    else StatusTable (formatStatusTable (\<not> so_NoColor opts \<and> tty) (filter_names names ps)))))"

section \<open>Durations are shown to the minute\<close>

lemma minutes_split: "u div 60 = u div 60 mod 60 + 60 * (u div 3600 mod 24 + 24 * (u div 3600 div 24))" for u :: int
proof -
  have "u div 3600 = u div 60 div 60" by (simp add: zdiv_zmult2_eq [symmetric])
  moreover have "u div 3600 mod 24 + 24 * (u div 3600 div 24) = u div 3600" by (rule mod_mult_div_eq)
  moreover have "u div 60 mod 60 + 60 * (u div 60 div 60) = u div 60" by (rule mod_mult_div_eq)
  ultimately show ?thesis by metis
qed

lemma minute_bounds: "60 * (u div 60) \<le> u" "u < 60 * (u div 60) + 60" for u :: int
  using div_mult_mod_eq [of u 60] pos_mod_bound [of 60 u] pos_mod_sign [of 60 u] by linarith+

text \<open>
  An uptime of whole seconds is shown rounded down to the minute, in days, hours below 24 and
  minutes below 60, with no wrap-around for 292 years.
\<close>

theorem uptime_is_rounded_down:
  assumes "0 < in_Uptime p" and "in_Uptime p < 2 ^ 63 div 1000000000"
  shows "\<exists>d h m. 0 \<le> d \<and> 0 \<le> h \<and> h < 24 \<and> 0 \<le> m \<and> m < 60 \<and>
     60 * (m + 60 * (h + 24 * d)) \<le> in_Uptime p \<and> in_Uptime p < 60 * (m + 1 + 60 * (h + 24 * d)) \<and>
     uptime_cell p = (if d > 0 then itoa d @ ''d '' @ itoa h @ ''h '' @ itoa m @ ''m''
       else if h > 0 then itoa h @ ''h '' @ itoa m @ ''m'' else itoa m @ ''m'')"
proof -
  let ?u = "in_Uptime p"
  let ?d = "?u div 3600 div 24" and ?h = "?u div 3600 mod 24" and ?m = "?u div 60 mod 60"
  have i: "i64 (?u * 1000000000) = ?u * 1000000000" using assms by (intro i64_id) simp_all
  have "hours_of (?u * 1000000000) = ?u div 3600" "minutes_of (?u * 1000000000) = ?u div 60"
    using assms(1) by (simp_all add: hours_of_def minutes_of_def sdiv_nonneg)
  then have c: "uptime_cell p = (if ?d > 0 then itoa ?d @ ''d '' @ itoa ?h @ ''h '' @ itoa ?m @ ''m''
      else if ?h > 0 then itoa ?h @ ''h '' @ itoa ?m @ ''m'' else itoa ?m @ ''m'')"
    using assms(1) by (simp add: uptime_cell_def i formatDuration_def Let_def sdiv_nonneg smod_nonneg pos_imp_zdiv_nonneg_iff)
  have "?u div 60 = ?m + 60 * (?h + 24 * ?d)" using minutes_split [of ?u] by simp
  then have "60 * (?m + 60 * (?h + 24 * ?d)) = 60 * (?u div 60)" "60 * (?m + 1 + 60 * (?h + 24 * ?d)) = 60 * (?u div 60) + 60"
    by simp_all
  then have b: "60 * (?m + 60 * (?h + 24 * ?d)) \<le> ?u" "?u < 60 * (?m + 1 + 60 * (?h + 24 * ?d))"
    using minute_bounds [of ?u] by (simp_all only:)
  show ?thesis
    by (intro exI [of _ ?d] exI [of _ ?h] exI [of _ ?m] conjI c b)
      (simp_all only: pos_mod_sign pos_mod_bound pos_imp_zdiv_nonneg_iff zero_less_numeral less_imp_le [OF assms(1)])
qed

section \<open>Colour\<close>

definition no_escape :: "string \<Rightarrow> bool" where "no_escape s \<longleftrightarrow> ESC \<notin> set s"

lemma StripANSI_plain: "no_escape s \<Longrightarrow> StripANSI (s @ t) = s @ StripANSI t"
  by (induction s) (auto simp: no_escape_def)

lemma StripANSI_reset: "StripANSI (ESC # CHR ''['' # CHR ''0'' # CHR ''m'' # t) = StripANSI t"
  by (simp add: is_final_def)

lemma StripANSI_color: "StripANSI (ESC # CHR ''['' # color_code s @ CHR ''m'' # t) = StripANSI t"
  by (simp add: color_code_def is_final_def)

lemma StripANSI_state:
  assumes "no_escape s" shows "StripANSI (colorState s @ t) = s @ StripANSI t"
proof -
  have "colorState s @ t = ESC # CHR ''['' # color_code s @ CHR ''m'' # (s @ (ESC # CHR ''['' # CHR ''0'' # CHR ''m'' # t))"
    by (simp add: colorState_def)
  then show ?thesis by (simp only: StripANSI_color StripANSI_plain [OF assms] StripANSI_reset)
qed

lemma cell_width_append: "cell_width (s @ t) = cell_width s + cell_width t"
  by (simp add: cell_width_def)

lemma cell_width_color: "cell_width (colorState s) = cell_width s + 9"
  by (simp add: colorState_def cell_width_append) (simp add: cell_width_def color_code_def ESC_def)

lemma column_width_rows:
  "column_width (status_rows color ps) j = foldr max (cell_width (header_cells color ! j) #
     map (\<lambda>p. cell_width (row_cells color p ! j)) (by_process_name ps)) 0 + 2"
  by (simp add: column_width_def status_rows_def comp_def)

lemma foldr_max_shift: "xs \<noteq> [] \<Longrightarrow> foldr max (map (\<lambda>x. f x + k) xs) 0 = foldr max (map f xs) 0 + (k :: nat)"
proof (induction xs)
  case (Cons x xs)
  then show ?case by (cases "xs = []") simp_all
qed simp

lemma column_widths_color:
  "column_width (status_rows True ps) j = column_width (status_rows False ps) j + (if j = 1 then 9 else 0)"
  if "j < 4"
proof -
  have "j = 0 \<or> j = 1 \<or> j = 2 \<or> j = 3" using that by auto
  moreover have "foldr max (map (\<lambda>s. cell_width (colorState s)) (''STATE'' # map in_State (by_process_name ps))) 0 =
      foldr max (map cell_width (''STATE'' # map in_State (by_process_name ps))) 0 + 9"
    unfolding cell_width_color by (rule foldr_max_shift) simp
  ultimately show ?thesis
    by (elim disjE) (simp_all add: column_width_rows header_cells_def row_cells_def state_cell_def comp_def)
qed

lemma tab_line_cells:
  "tab_line rows r = pad_cell (column_width rows 0) (r ! 0) @ pad_cell (column_width rows 1) (r ! 1) @
     pad_cell (column_width rows 2) (r ! 2) @ pad_cell (column_width rows 3) (r ! 3) @ r ! 4 @ [LF]"
  by (simp add: tab_line_def numeral_nat)

lemma no_escape_text: "no_escape (itoa n)" "no_escape (s @ t) \<longleftrightarrow> no_escape s \<and> no_escape t"
  "no_escape (replicate k (CHR '' ''))" "no_escape [LF]" "no_escape [] "
  "no_escape (c # s) \<longleftrightarrow> c \<noteq> ESC \<and> no_escape s"
  using nat_digits_free [of ESC] by (auto simp: no_escape_def itoa_def ESC_def LF_def)

lemma pad_state: "no_escape s \<Longrightarrow>
   StripANSI (pad_cell (w + 9) (colorState s) @ t) = pad_cell w s @ StripANSI t"
  by (simp add: pad_cell_def cell_width_color StripANSI_state StripANSI_plain no_escape_text)

lemma pad_plain: "no_escape s \<Longrightarrow> StripANSI (pad_cell w s @ t) = pad_cell w s @ StripANSI t"
  using StripANSI_plain [of "pad_cell w s" t] by (simp add: pad_cell_def no_escape_text)

definition plain_process :: "ProcessInfo \<Rightarrow> bool" where
  "plain_process p \<longleftrightarrow> no_escape (in_Name p) \<and> no_escape (in_State p) \<and> no_escape (in_Description p) \<and>
     no_escape (in_ExitSignal p)"

lemma row_plain: "plain_process p \<Longrightarrow> no_escape (in_Name p) \<and> no_escape (in_State p) \<and> no_escape (pid_cell p) \<and>
   no_escape (uptime_cell p) \<and> no_escape (desc_cell p)"
  by (simp add: plain_process_def pid_cell_def uptime_cell_def desc_cell_def formatDuration_def Let_def no_escape_text)
    (simp add: ESC_def)

lemma strip_line:
  assumes "no_escape n" and "no_escape s" and "no_escape a" and "no_escape b" and "no_escape d"
  shows "StripANSI (tab_line (status_rows True ps) [n, colorState s, a, b, d] @ t) =
     tab_line (status_rows False ps) [n, s, a, b, d] @ StripANSI t"
proof -
  have "StripANSI (d @ [LF] @ t) = d @ [LF] @ StripANSI t"
    using StripANSI_plain [of "d @ [LF]" t] assms(5) by (simp add: no_escape_def) (simp add: ESC_def LF_def)
  then show ?thesis using assms by (simp add: tab_line_cells column_widths_color pad_plain pad_state)
qed

lemma formatStatusTable_lines:
  "formatStatusTable color ps = tab_line (status_rows color ps) (header_cells color) @
     concat (map (\<lambda>p. tab_line (status_rows color ps) (row_cells color p)) (by_process_name ps))"
proof -
  have "map f (status_rows color ps) = f (header_cells color) # map (\<lambda>p. f (row_cells color p)) (by_process_name ps)"
    for f :: "string list \<Rightarrow> string" by (simp add: status_rows_def)
  then show ?thesis by (simp add: formatStatusTable_def tab_text_def)
qed

lemma strip_rows:
  assumes "\<forall>p\<in>set qs. plain_process p"
  shows "StripANSI (concat (map (\<lambda>p. tab_line (status_rows True ps) (row_cells True p)) qs)) =
     concat (map (\<lambda>p. tab_line (status_rows False ps) (row_cells False p)) qs)"
  using assms
proof (induction qs)
  case (Cons p qs)
  then show ?case using row_plain [of p] by (simp add: row_cells_def state_cell_def strip_line)
qed simp

text \<open>
  Colour only adds escape sequences: with them stripped, the coloured status table is the plain
  one, so its columns are aligned the same way, for every set of processes whose texts contain no escape.
\<close>

theorem colour_keeps_the_table:
  assumes "\<forall>p\<in>set ps. plain_process p"
  shows "StripANSI (formatStatusTable True ps) = formatStatusTable False ps"
proof -
  have "\<forall>p\<in>set (by_process_name ps). plain_process p" using assms by (simp add: by_process_name_def)
  moreover have "no_escape ''NAME''" "no_escape ''STATE''" "no_escape ''PID''" "no_escape ''UPTIME''" "no_escape ''DESCRIPTION''"
    by (simp_all add: no_escape_def ESC_def)
  ultimately show ?thesis
    unfolding formatStatusTable_lines by (simp add: header_cells_def state_cell_def strip_line strip_rows)
qed

section \<open>Witnesses\<close>

definition sample_info :: ProcessInfo where
  "sample_info = \<lparr>in_Name = ''web'', in_Group = ''web'', in_State = ''RUNNING'', in_StateCode = 20, in_PID = 4711,
     in_Uptime = 90061, in_Description = [], in_ExitStatus = 0, in_ExitSignal = []\<rparr>"

theorem uptime_is_rounded_down_witness:
  "\<exists>d h m. h < 24 \<and> m < 60 \<and> 60 * (m + 60 * (h + 24 * d)) \<le> 90061 \<and> 90061 < 60 * (m + 1 + 60 * (h + 24 * d)) \<and>
     uptime_cell sample_info = (if d > 0 then itoa d @ ''d '' @ itoa h @ ''h '' @ itoa m @ ''m''
       else if h > 0 then itoa h @ ''h '' @ itoa m @ ''m'' else itoa m @ ''m'')"
proof -
  have u: "in_Uptime sample_info = 90061" by (simp add: sample_info_def)
  have "0 < in_Uptime sample_info" "in_Uptime sample_info < 2 ^ 63 div 1000000000" by (simp_all add: u)
  from uptime_is_rounded_down [OF this] show ?thesis unfolding u by blast
qed

theorem colour_keeps_the_table_witness:
  "StripANSI (formatStatusTable True [sample_info]) = formatStatusTable False [sample_info]"
  by (rule colour_keeps_the_table) (simp add: plain_process_def no_escape_def sample_info_def ESC_def)

end
