(* ===== verification/Ctl_Commands.thy ===== *)
theory Ctl_Commands
  imports Ctl_Status
begin

text \<open>
  The commands of \<open>cmd/kahi/ctl.go\<close> after the parsing of their flags.  A command gives the new state of the
  other side, the lines it prints, and the error that makes it exit with status 1; an error without a
  text was printed before.  A timeout is not written out in the error of \<open>shutdown\<close>.  Which arguments a command accepts is checked by the flag library.
\<close>

datatype printed = Stdout string | Stderr string

type_synonym 'w outcome = "'w \<times> printed list \<times> string option"

section \<open>Which daemon\<close>

record ctl_flags =
  cf_socket :: string
  cf_config :: string
  cf_addr :: string
  cf_user :: string
  cf_pass :: string

text \<open>\<open>exists\<close> is a successful \<open>os.Stat\<close>; \<open>sock_env\<close> and \<open>config_env\<close> are \<open>KAHI_SOCKET\<close> and \<open>KAHI_CONFIG\<close>.\<close>

definition resolveSocketFromConfig ::
  "cfg_env \<Rightarrow> (string \<Rightarrow> bool) \<Rightarrow> string \<Rightarrow> string \<Rightarrow> ctl_flags \<Rightarrow> string" where
  "resolveSocketFromConfig e exists sock_env config_env fl =
     (if sock_env \<noteq> [] then sock_env
      else case Resolve exists config_env (cf_config fl) of
        Inl _ \<Rightarrow> ce_socket e
      | Inr path \<Rightarrow>
          (case snd (Load e path) of
             Inl _ \<Rightarrow> ce_socket e
           | Inr cfg \<Rightarrow>
               if ux_File (sc_Unix (cf_Server cfg)) \<noteq> [] then ux_File (sc_Unix (cf_Server cfg)) else ce_socket e))"

definition newCtlClient :: "cfg_env \<Rightarrow> (string \<Rightarrow> bool) \<Rightarrow> string \<Rightarrow> string \<Rightarrow> ctl_flags \<Rightarrow> Client" where
  "newCtlClient e exists sock_env config_env fl =
     (if cf_addr fl \<noteq> [] then NewTCPClient (cf_addr fl) (cf_user fl) (cf_pass fl)
      else NewUnixClient (if cf_socket fl = [] then resolveSocketFromConfig e exists sock_env config_env fl
                          else cf_socket fl))"

section \<open>Targets\<close>

text \<open>A target is a process, or a group with \<open>:*\<close> after its name.\<close>

definition on_target ::
  "(string \<Rightarrow> 'w \<Rightarrow> 'w \<times> ctl_error option) \<Rightarrow> (string \<Rightarrow> 'w \<Rightarrow> 'w \<times> ctl_error option) \<Rightarrow> string \<Rightarrow>
   'w \<Rightarrow> 'w \<times> ctl_error option" where
  "on_target single grp name w =
     (if has_suffix name '':*'' then grp (trim_suffix name '':*'') w else single name w)"

definition report :: "string \<Rightarrow> string \<Rightarrow> ctl_error option \<Rightarrow> printed" where
  "report verb name r =
     (case r of Some e \<Rightarrow> Stderr (name @ '': '' @ error_text e) | None \<Rightarrow> Stdout (name @ '': '' @ verb))"

fun on_targets ::
  "string \<Rightarrow> (string \<Rightarrow> 'w \<Rightarrow> 'w \<times> ctl_error option) \<Rightarrow> string list \<Rightarrow> 'w \<Rightarrow> 'w outcome" where
  "on_targets verb f [] w = (w, [], None)"
| "on_targets verb f (name # names) w =
     (let (w1, r) = f name w; (w2, out, err) = on_targets verb f names w1 in (w2, report verb name r # out, err))"

definition ctlStart :: "'w net \<Rightarrow> Client \<Rightarrow> string list \<Rightarrow> 'w \<Rightarrow> 'w outcome" where
  "ctlStart net c = on_targets ''started'' (on_target (client_Start net c) (client_StartGroup net c))"

definition ctlStop :: "'w net \<Rightarrow> Client \<Rightarrow> string list \<Rightarrow> 'w \<Rightarrow> 'w outcome" where
  "ctlStop net c = on_targets ''stopped'' (on_target (client_Stop net c) (client_StopGroup net c))"

text \<open>\<open>all\<close> lists the processes first, and an error of that ends the command.\<close>

fun ctlRestart :: "'w net \<Rightarrow> Client \<Rightarrow> string list \<Rightarrow> 'w \<Rightarrow> 'w outcome" where
  "ctlRestart net c [] w = (w, [], None)"
| "ctlRestart net c (name # names) w =
     (case (if name = ''all'' then (case fetch_processes net c w of (w', Inl e) \<Rightarrow> (w', Some e) | (w', Inr _) \<Rightarrow> (w', None))
            else (w, None)) of
        (w1, Some e) \<Rightarrow> (w1, [], Some (error_text e))
      | (w1, None) \<Rightarrow>
          (let (w2, r) = (if name = ''all'' then client_Restart net c name w1
                          else on_target (client_Restart net c) (client_RestartGroup net c) name w1);
               (w3, out, err) = ctlRestart net c names w2
           in (w3, report ''restarted'' name r # out, err)))"

section \<open>The other commands\<close>

text \<open>An operation, then one line, or its error.\<close>

definition then_print :: "'w \<times> ctl_error option \<Rightarrow> string \<Rightarrow> 'w outcome" where
  "then_print wr line =
     (case wr of (w, Some e) \<Rightarrow> (w, [], Some (error_text e)) | (w, None) \<Rightarrow> (w, [Stdout line], None))"

definition ctlSignal :: "'w net \<Rightarrow> Client \<Rightarrow> string \<Rightarrow> string \<Rightarrow> 'w \<Rightarrow> 'w outcome" where
  "ctlSignal net c sg name w = then_print (client_Signal net c name sg w) (name @ '': signaled '' @ sg)"

definition ctlSend :: "'w net \<Rightarrow> Client \<Rightarrow> string \<Rightarrow> string \<Rightarrow> 'w \<Rightarrow> 'w outcome" where
  "ctlSend net c name d w =
     (case client_WriteStdin net c name d w of (w', r) \<Rightarrow> (w', [], map_option error_text r))"

definition ctlTail :: "'w net \<Rightarrow> Client \<Rightarrow> string list \<Rightarrow> int \<Rightarrow> 'w \<Rightarrow> 'w outcome" where
  "ctlTail net c args n w =
     (case Tail net c (hd args) (if length args > 1 then args ! 1 else ''stdout'') n w of
        (w', Inl e) \<Rightarrow> (w', [], Some (error_text e))
      | (w', Inr t) \<Rightarrow> (w', [Stdout t], None))"

definition ctlShutdown :: "'w net \<Rightarrow> Client \<Rightarrow> int \<Rightarrow> (bool \<times> bool) list \<Rightarrow> 'w \<Rightarrow> 'w outcome option" where
  "ctlShutdown net c timeout polls w =
     (case client_Shutdown net c w of
        (w', Some e) \<Rightarrow> Some (w', [], Some (error_text e))
      | (w', None) \<Rightarrow>
          if timeout \<le> 0 then Some (w', [Stdout ''shutdown initiated''], None)
          else (case WaitGone polls of
                  None \<Rightarrow> None
                | Some True \<Rightarrow> Some (w', [Stdout ''shutdown initiated'', Stdout ''shut down''], None)
                | Some False \<Rightarrow> Some (w', [Stdout ''shutdown initiated''], Some ''daemon still running'')))"

definition printConfigWarnings :: "body \<Rightarrow> printed list" where
  "printConfigWarnings r = (case r of JReload _ res \<Rightarrow> map (\<lambda>x. Stderr (''warning: '' @ x)) (rr_Warnings res) | _ \<Rightarrow> [])"

definition nameList :: "string list \<Rightarrow> string" where
  "nameList names = ''['' @ join '' '' names @ '']''"

definition change_line :: "string \<Rightarrow> body \<Rightarrow> string" where
  "change_line what r =
     (let (a, ch, rm) = (case r of JReload _ res \<Rightarrow> (rr_Added res, rr_Changed res, rr_Removed res) | _ \<Rightarrow> ([], [], [])) in
      what @ '': added='' @ nameList a @ '' changed='' @ nameList ch @ '' removed='' @ nameList rm)"

definition print_changes :: "string \<Rightarrow> 'w \<times> (ctl_error + body) \<Rightarrow> 'w outcome" where
  "print_changes what wr =
     (case wr of
        (w, Inl e) \<Rightarrow> (w, [], Some (error_text e))
      | (w, Inr r) \<Rightarrow> (w, Stdout (change_line what r) # printConfigWarnings r, None))"

definition ctlReload :: "'w net \<Rightarrow> Client \<Rightarrow> 'w \<Rightarrow> 'w outcome" where
  "ctlReload net c w = print_changes ''config reloaded'' (client_Reload net c w)"

definition ctlReread :: "'w net \<Rightarrow> Client \<Rightarrow> 'w \<Rightarrow> 'w outcome" where
  "ctlReread net c w = print_changes ''would apply'' (client_Reread net c w)"

definition ctlUpdate :: "'w net \<Rightarrow> Client \<Rightarrow> 'w \<Rightarrow> 'w outcome" where
  "ctlUpdate net c w = print_changes ''updated'' (client_Reload net c w)"

definition ctlAdd :: "'w net \<Rightarrow> Client \<Rightarrow> string \<Rightarrow> 'w \<Rightarrow> 'w outcome" where
  "ctlAdd net c g w =
     (case client_Reload net c w of
        (w1, Inl e) \<Rightarrow> (w1, [], Some (error_text e))
      | (w1, Inr r) \<Rightarrow>
          (case then_print (client_StartGroup net c g w1) (g @ '': added and started'') of
             (w2, out, err) \<Rightarrow> (w2, printConfigWarnings r @ out, err)))"

definition ctlRemove :: "'w net \<Rightarrow> Client \<Rightarrow> string \<Rightarrow> 'w \<Rightarrow> 'w outcome" where
  "ctlRemove net c g w =
     (case client_StopGroup net c g w of
        (w', Some e) \<Rightarrow> (w', [], Some (''stop '' @ g @ '': '' @ error_text e))
      | (w', None) \<Rightarrow> (w', [Stdout (g @ '': stopped and removed'')], None))"

text \<open>The order in which the pairs of the version are printed is that of a map.\<close>

definition ctlVersion :: "'w net \<Rightarrow> Client \<Rightarrow> 'w \<Rightarrow> 'w outcome" where
  "ctlVersion net c w =
     (case client_Version net c w of
        (w', Inl e) \<Rightarrow> (w', [], Some (error_text e))
      | (w', Inr r) \<Rightarrow>
          (w', map (\<lambda>(k, v). Stdout (k @ '': '' @ v)) (case string_map r of None \<Rightarrow> [] | Some kvs \<Rightarrow> kvs), None))"

definition ctlPID :: "'w net \<Rightarrow> Client \<Rightarrow> string list \<Rightarrow> 'w \<Rightarrow> 'w outcome" where
  "ctlPID net c args w =
     (let name = (case args of [] \<Rightarrow> [] | a # _ \<Rightarrow> a) in
      if name = ''all'' then
        (case ProcessPIDs net c w of
           (w', Inl e) \<Rightarrow> (w', [], Some (error_text e))
         | (w', Inr ps) \<Rightarrow> (w', map (\<lambda>p. Stdout (in_Name p @ '' '' @ itoa (int (in_PID p)))) ps, None))
      else
        (case client_PID net c name w of
           (w', Inl e) \<Rightarrow> (w', [], Some (error_text e))
         | (w', Inr pid) \<Rightarrow> (w', [Stdout pid], None)))"

definition print_status :: "string \<Rightarrow> 'w \<times> (ctl_error + string) \<Rightarrow> 'w outcome" where
  "print_status good wr =
     (case wr of
        (w, Inl e) \<Rightarrow> (w, [Stderr (error_text e)], Some [])
      | (w, Inr s) \<Rightarrow> (w, [Stdout (ToUpper (replace_all ''_'' '' '' s))], if s \<noteq> good then Some [] else None))"

definition ctlHealth :: "'w net \<Rightarrow> Client \<Rightarrow> 'w \<Rightarrow> 'w outcome" where
  "ctlHealth net c w = print_status ''ok'' (Health net c w)"

definition ctlReady :: "'w net \<Rightarrow> Client \<Rightarrow> string list \<Rightarrow> 'w \<Rightarrow> 'w outcome" where
  "ctlReady net c names w = print_status ''ready'' (client_Ready net c names w)"

section \<open>Status and attach\<close>

text \<open>What \<open>status\<close> shows before it is printed, and its error.\<close>

definition ctlStatus ::
  "'w net \<Rightarrow> Client \<Rightarrow> string list \<Rightarrow> bool \<Rightarrow> bool \<Rightarrow> bool \<Rightarrow> 'w \<Rightarrow> 'w \<times> (ctl_error + status_output)" where
  "ctlStatus net c names json noColor tty w =
     StatusWithOptions net c names \<lparr>so_JSON = json, so_NoColor = noColor\<rparr> tty w"

text \<open>An interrupt is the \<open>Detach\<close> of the loop.  \<open>None\<close> means that the command is still attached.\<close>

definition ctlAttach :: "'w net \<Rightarrow> Client \<Rightarrow> string \<Rightarrow> attach_event list \<Rightarrow> 'w \<Rightarrow> 'w \<times> string option option" where
  "ctlAttach net c name evs w =
     (case Attach net c name evs w of (w', r) \<Rightarrow> (w', map_option (map_option error_text) r))"

end
