(* ===== verification/Daemon_Start.thy ===== *)
theory Daemon_Start
  imports Api_Server
begin

text \<open>
  How the daemon starts: \<open>daemonRun\<close> of \<open>cmd/kahi/daemon.go\<close> with the checks and the privilege drop of
  \<open>internal/supervisor/daemon.go\<close>, the listeners of \<open>internal/api/api.go\<close> and the bind under a tightened
  umask of \<open>internal/sockutil\<close>.  What the start does to the system is a list of effects; what the system
  answers is the environment.
\<close>

section \<open>The system\<close>

unbundle bit_operations_syntax

type_synonym mode = "32 word"

text \<open>The octal literals of the code.\<close>

definition o700 :: mode where "o700 = 448"
definition o077 :: mode where "o077 = 63"
definition o777 :: mode where "o777 = 511"

record file_info =
  fi_dir :: bool
  fi_socket :: bool
  fi_uid :: int
  fi_perm :: mode

datatype 'a stat_result = Missing | StatFails | Found_it 'a
datatype mkdir_result = MkdirOk | MkdirExists | MkdirFails
datatype kill_result = KillOk | KillEPERM | KillOther

datatype start_effect =
    Warning string
  | MakeDir string mode
  | TempFile string
  | SetUmask mode
  | BindUnix string mode
  | ChmodUnix string mode
  | CloseUnix string
  | RemoveSocket string
  | ServeUnix string
  | BindTCP string
  | SetGroups "int list"
  | SetGid int
  | SetUid int

datatype start_error =
    NoConfig resolve_error
  | BadConfig load_error
  | BadLog
  | BadSocketDir string
  | PidFileUnreadable string
  | AnotherInstance int string
  | NoSocket string
  | NoCredentials string
  | CannotBind string
  | CannotResolveUser string
  | DropFailed string

record start_env =
  se_cfg :: cfg_env
  se_fuel :: nat
  se_exists :: "string \<Rightarrow> bool"
  se_kahi_config :: string
  se_log_ok :: "Config \<Rightarrow> bool"
  se_log_level :: "Config \<Rightarrow> string option"
  se_uid :: int
  se_euid :: int
  se_pid :: int
  se_tmp :: string
  se_mkdir :: "string \<Rightarrow> mkdir_result"
  se_lstat :: "string \<Rightarrow> file_info option"
  se_stat :: "string \<Rightarrow> file_info stat_result"
  se_temp_ok :: "string \<Rightarrow> bool"
  se_read_pid :: "string \<Rightarrow> string stat_result"
  se_kill :: "int \<Rightarrow> kill_result"
  se_umask :: mode
  se_dial :: "string \<Rightarrow> bool"
  se_remove :: "string \<Rightarrow> bool"
  se_bind :: "string \<Rightarrow> bool"
  se_chmod :: "string \<Rightarrow> bool"
  se_listen :: "string \<Rightarrow> bool"
  se_setgroups :: bool
  se_setgid :: bool
  se_setuid :: bool
  se_fs :: FS

text \<open>A step of the start: its effects, then its error or its result.\<close>

type_synonym 'a start = "start_effect list \<times> (start_error + 'a)"

definition then_do :: "'a start \<Rightarrow> ('a \<Rightarrow> 'b start) \<Rightarrow> 'b start" where
  "then_do m f =
     (case m of
        (t, Inl err) \<Rightarrow> (t, Inl err)
      | (t, Inr x) \<Rightarrow> (case f x of (t', r) \<Rightarrow> (t @ t', r)))"

definition effect :: "start_effect \<Rightarrow> bool \<Rightarrow> start_error \<Rightarrow> unit start" where
  "effect eff ok err = (if ok then ([eff], Inr ()) else ([], Inl err))"

definition skip :: "unit start" where "skip = ([], Inr ())"
definition fail :: "start_error \<Rightarrow> 'a start" where "fail err = ([], Inl err)"

section \<open>Checks before the socket\<close>

definition ensurePrivateDir :: "start_env \<Rightarrow> string \<Rightarrow> unit start" where
  "ensurePrivateDir e dir =
     (if se_mkdir e dir = MkdirFails then fail (BadSocketDir dir)
      else let made = (if se_mkdir e dir = MkdirOk then [MakeDir dir o700] else []) in
      case se_lstat e dir of
        None \<Rightarrow> (made, Inl (BadSocketDir dir))
      | Some info \<Rightarrow>
          if \<not> fi_dir info \<or> fi_uid info \<noteq> se_euid e \<or> fi_perm info AND o077 \<noteq> 0
          then (made, Inl (BadSocketDir dir))
          else (made, Inr ()))"

text \<open>\<open>PrivateSocketDir\<close> and \<open>filepath.Dir\<close>; a permission check is a temporary file.\<close>

definition PrivateSocketDir :: "start_env \<Rightarrow> string" where
  "PrivateSocketDir e = privateSocketDir (ce_clean (se_cfg e)) (se_euid e) (se_tmp e)"

definition ValidateSocketPermissions :: "start_env \<Rightarrow> string \<Rightarrow> unit start" where
  "ValidateSocketPermissions e path =
     (let dir = ce_dir (se_cfg e) path in
      then_do (if dir = PrivateSocketDir e then ensurePrivateDir e dir else skip) (\<lambda>_.
      case se_stat e dir of
        Found_it info \<Rightarrow>
          if \<not> fi_dir info then fail (BadSocketDir dir)
          else effect (TempFile dir) (se_temp_ok e dir) (BadSocketDir dir)
      | _ \<Rightarrow> fail (BadSocketDir dir)))"

definition RootWarning :: "start_env \<Rightarrow> bool \<Rightarrow> unit start" where
  "RootWarning e userConfigured =
     (if se_uid e \<noteq> 0 \<or> userConfigured then skip
      else ([Warning ''running as root without user config; consider setting [supervisor] user for privilege dropping''],
            Inr ()))"

text \<open>Nothing calls it.\<close>

definition ValidateUnprivileged :: "start_env \<Rightarrow> unit start" where
  "ValidateUnprivileged e =
     (if se_uid e = 0 then ([Warning ''running as root; consider using a non-root user''], Inr ()) else skip)"

text \<open>The errors its comment promises never come.\<close>

lemma ValidateUnprivileged_accepts: "snd (ValidateUnprivileged e) = Inr ()"
  by (simp add: ValidateUnprivileged_def skip_def)

definition CheckPIDFile :: "start_env \<Rightarrow> string \<Rightarrow> unit start" where
  "CheckPIDFile e path =
     (if path = [] then skip
      else case se_read_pid e path of
        Missing \<Rightarrow> skip
      | StatFails \<Rightarrow> fail (PidFileUnreadable path)
      | Found_it b \<Rightarrow>
          (case atoi (TrimSpace b) of
             Some pid \<Rightarrow>
               if pid > 0 \<and> pid \<noteq> se_pid e \<and> (se_kill e pid = KillOk \<or> se_kill e pid = KillEPERM)
               then fail (AnotherInstance pid path)
               else ([Warning ''replacing stale PID file''], Inr ())
           | None \<Rightarrow> ([Warning ''replacing stale PID file''], Inr ())))"

section \<open>Listeners\<close>

text \<open>Returns 0700 for an empty or invalid mode.\<close>

definition parseSocketMode :: "string \<Rightarrow> mode" where
  "parseSocketMode s =
     (if s = [] then o700
      else case parse_uint 8 32 s of None \<Rightarrow> o700 | Some v \<Rightarrow> word_of_nat v)"

definition removeStaleSocket :: "start_env \<Rightarrow> string \<Rightarrow> unit start" where
  "removeStaleSocket e path =
     (case se_stat e path of
        Missing \<Rightarrow> skip
      | StatFails \<Rightarrow> fail (NoSocket path)
      | Found_it info \<Rightarrow>
          if \<not> fi_socket info then fail (NoSocket path)
          else if se_dial e path then fail (NoSocket path)
          else effect (RemoveSocket path) (se_remove e path) (NoSocket path))"

text \<open>A bind creates the socket with every permission the umask in effect leaves.\<close>

definition ListenUnix :: "start_env \<Rightarrow> string \<Rightarrow> unit start" where
  "ListenUnix e path =
     (let old = se_umask e; tight = old OR o077 in
      if se_bind e path
      then ([SetUmask o777, SetUmask tight, BindUnix path (o777 AND NOT tight), SetUmask old], Inr ())
      else ([SetUmask o777, SetUmask tight, SetUmask old], Inl (NoSocket path)))"

definition StartUnix :: "start_env \<Rightarrow> string \<Rightarrow> mode \<Rightarrow> unit start" where
  "StartUnix e path m =
     then_do (removeStaleSocket e path) (\<lambda>_.
     then_do (ListenUnix e path) (\<lambda>_.
     if se_chmod e path then ([ChmodUnix path m, ServeUnix path], Inr ())
     else ([CloseUnix path], Inl (NoSocket path))))"

definition StartTCP :: "start_env \<Rightarrow> Server \<Rightarrow> string \<Rightarrow> unit start" where
  "StartTCP e s addr =
     (if as_user s = [] \<or> as_pass s = [] then fail (NoCredentials addr)
      else effect (BindTCP addr) (se_listen e addr) (CannotBind addr))"

section \<open>The privilege drop\<close>

definition splitUserGroup :: "string \<Rightarrow> string list" where
  "splitUserGroup s = (case cut (CHR '':'') s of (u, None) \<Rightarrow> [u] | (u, Some g) \<Rightarrow> [u, g])"

definition resolveUser :: "string \<Rightarrow> (int \<times> int) option" where
  "resolveUser user =
     (let parts = splitUserGroup user in
      case atoi (hd parts) of
        None \<Rightarrow> None
      | Some uid \<Rightarrow>
          if length parts > 1
          then (case atoi (parts ! 1) of None \<Rightarrow> None | Some gid \<Rightarrow> Some (uid, gid))
          else Some (uid, uid))"

definition DropPrivileges :: "start_env \<Rightarrow> string \<Rightarrow> unit start" where
  "DropPrivileges e user =
     (if user = [] then skip
      else case resolveUser user of
        None \<Rightarrow> fail (CannotResolveUser user)
      | Some (uid, gid) \<Rightarrow>
          then_do (effect (SetGroups [gid]) (se_setgroups e) (DropFailed ''setgroups'')) (\<lambda>_.
          then_do (effect (SetGid gid) (se_setgid e) (DropFailed ''setgid'')) (\<lambda>_.
          effect (SetUid uid) (se_setuid e) (DropFailed ''setuid''))))"

section \<open>The daemon command\<close>

record flags =
  fl_config :: string
  fl_pidfile :: string
  fl_daemonize :: bool
  fl_user :: string
  fl_report :: bool

datatype started = Daemonized | Ready Server

text \<open>\<open>NewServer\<close> with the configuration's credentials; the UI handler exists when the UI is enabled.\<close>

definition NewServer :: "Config \<Rightarrow> Supervisor \<Rightarrow> Server" where
  "NewServer cfg sv =
     \<lparr>as_sup = sv, as_bulk = False, as_user = ht_Username (sc_HTTP (cf_Server cfg)),
      as_pass = ht_Password (sc_HTTP (cf_Server cfg)), as_ui = wb_Enabled (sc_Web (cf_Server cfg))\<rparr>"

text \<open>Everything after the configuration is loaded, up to \<open>sup.Run()\<close>.\<close>

definition start_configured :: "start_env \<Rightarrow> flags \<Rightarrow> Config \<Rightarrow> started start" where
  "start_configured e fl cfg =
     (let path = ux_File (sc_Unix (cf_Server cfg)); http = sc_HTTP (cf_Server cfg);
          server = NewServer cfg (New cfg (fl_pidfile fl) (se_log_level e cfg) (se_fs e)) in
      if \<not> se_log_ok e cfg then fail BadLog
      else then_do (if path = [] then skip else ValidateSocketPermissions e path) (\<lambda>_.
           then_do (RootWarning e (fl_user fl \<noteq> [])) (\<lambda>_.
           then_do (CheckPIDFile e (fl_pidfile fl)) (\<lambda>_.
           if fl_daemonize fl \<and> \<not> fl_report fl then ([], Inr Daemonized)
           else
             then_do (if path = [] then skip
                      else StartUnix e path (parseSocketMode (ux_Chmod (sc_Unix (cf_Server cfg))))) (\<lambda>_.
             then_do (if ht_Enabled http then StartTCP e server (ht_Listen http) else skip) (\<lambda>_.
             then_do (DropPrivileges e (fl_user fl)) (\<lambda>_.
             ([], Inr (Ready server)))))))))"

text \<open>\<open>None\<close> only when the fuel for includes runs out.\<close>

definition daemonRun :: "start_env \<Rightarrow> flags \<Rightarrow> started start option" where
  "daemonRun e fl =
     (case ResolveDaemon (se_exists e) (se_kahi_config e) (fl_config fl) of
        Inl err \<Rightarrow> Some (fail (NoConfig err))
      | Inr path \<Rightarrow>
          (case LoadWithIncludes (se_cfg e) (se_fuel e) path of
             None \<Rightarrow> None
           | Some (ws, Inl err) \<Rightarrow> Some (map Warning ws, Inl (BadConfig err))
           | Some (ws, Inr cfg) \<Rightarrow>
               Some (then_do (map Warning ws, Inr ()) (\<lambda>_. start_configured e fl cfg))))"

end
