(* ===== verification/Daemon_Safety.thy ===== *)
theory Daemon_Safety
  imports Daemon_Start
begin

text \<open>
  What the start of the daemon guarantees: its control socket is never open to others, its privileges
  are dropped completely and only after the listeners are bound, and it leaves a running daemon alone.
\<close>

section \<open>What a step does\<close>

lemma then_do_simps [simp]:
  "then_do (t, Inl err) f = (t, Inl err)" "then_do (t, Inr x) f = (t @ fst (f x), snd (f x))"
  by (simp_all add: then_do_def split: prod.split)

text \<open>Every effect of a step satisfies \<open>P\<close>.\<close>

definition all_eff :: "(start_effect \<Rightarrow> bool) \<Rightarrow> 'a start \<Rightarrow> bool" where
  "all_eff P m \<longleftrightarrow> (\<forall>x\<in>set (fst m). P x)"

lemma all_eff_then: "all_eff P m \<Longrightarrow> (\<And>x. snd m = Inr x \<Longrightarrow> all_eff P (f x)) \<Longrightarrow> all_eff P (then_do m f)"
  by (auto simp: all_eff_def then_do_def split: prod.splits sum.splits)

lemma all_eff_if: "(b \<Longrightarrow> all_eff P m) \<Longrightarrow> (\<not> b \<Longrightarrow> all_eff P n) \<Longrightarrow> all_eff P (if b then m else n)"
  by simp

lemma all_eff_step [simp]:
  "all_eff P skip" "all_eff P (fail err)" "all_eff P (effect eff ok err) \<longleftrightarrow> (ok \<longrightarrow> P eff)"
  "all_eff P (t, r) \<longleftrightarrow> (\<forall>x\<in>set t. P x)"
  by (simp_all add: all_eff_def skip_def fail_def effect_def)

section \<open>The socket's mode\<close>

fun socket_mode :: "start_effect \<Rightarrow> mode list" where
  "socket_mode (BindUnix _ m) = [m]"
| "socket_mode (ChmodUnix _ m) = [m]"
| "socket_mode _ = []"

definition owner_only :: "start_effect \<Rightarrow> bool" where
  "owner_only x \<longleftrightarrow> (\<forall>m\<in>set (socket_mode x). m AND o077 = 0)"

lemma owner_only_simps [simp]:
  "owner_only (BindUnix p m) \<longleftrightarrow> m AND o077 = 0" "owner_only (ChmodUnix p m) \<longleftrightarrow> m AND o077 = 0"
  "owner_only (Warning w)" "owner_only (MakeDir d m)" "owner_only (TempFile d)" "owner_only (SetUmask m)" "owner_only (CloseUnix p)"
  "owner_only (RemoveSocket p)" "owner_only (ServeUnix p)" "owner_only (BindTCP a)" "owner_only (SetGroups gs)"
  "owner_only (SetGid g)" "owner_only (SetUid u)"
  by (simp_all add: owner_only_def)

lemma ListenUnix_owner_only: "all_eff owner_only (ListenUnix e path)"
proof -
  have "(o777 AND NOT (se_umask e OR o077)) AND o077 = 0"
    by (rule bit_eqI) (auto simp: bit_simps)
  then show ?thesis by (simp add: ListenUnix_def Let_def)
qed

lemma digits_val_visible: "digits_val b acc s = Some v \<Longrightarrow> c \<in> set s \<Longrightarrow> visible c"
  by (induction b acc s rule: digits_val.induct)
    (auto simp: visible_def digit_val_def Let_def split: option.splits if_splits)

lemma parse_uint_trim:
  assumes "parse_uint 8 32 s = Some v" shows "TrimSpace s = s"
proof -
  have "digits_val 8 0 s = Some v" using assms by (auto simp: parse_uint_def split: if_splits option.splits)
  then have "\<forall>c\<in>set s. visible c" using digits_val_visible by blast
  then show ?thesis by (intro TrimSpace_id) (cases "s = []"; simp)
qed

lemma parseSocketMode_owner_only:
  assumes "validateUnixServer goos u = []"
  shows "parseSocketMode (ux_Chmod u) AND o077 = 0"
proof (cases "parse_uint 8 32 (ux_Chmod u)")
  case (Some v)
  then have n: "ux_Chmod u \<noteq> []" and t: "TrimSpace (ux_Chmod u) = ux_Chmod u"
    using parse_uint_trim by (auto simp: parse_uint_def)
  have "and v 63 = 0" using assms Some n t by (auto simp: validateUnixServer_def Let_def split: if_splits)
  then have "(word_of_nat (and v 63) :: mode) = 0" by simp
  then have "word_of_nat v AND o077 = 0" by (simp add: o077_def of_nat_and_eq)
  then show ?thesis using Some n by (simp add: parseSocketMode_def)
qed (simp add: parseSocketMode_def o700_def o077_def)

section \<open>The configuration the daemon starts with\<close>

lemma include_keeps_server:
  "include_patterns e n d ps w seen cfg = IncOk w' seen' cfg' \<Longrightarrow> cf_Server cfg' = cf_Server cfg"
  "include_files e n fs w seen cfg = IncOk w' seen' cfg' \<Longrightarrow> cf_Server cfg' = cf_Server cfg"
proof (induction e n d ps w seen cfg and e n fs w seen cfg arbitrary: w' seen' cfg' and w' seen' cfg'
    rule: include_patterns_include_files.induct)
  case (2 e n d p ps w seen cfg)
  let ?pat = "include_pattern e d p"
  obtain ms where ms: "ce_glob e ?pat = Some ms"
    using "2.prems" by (cases "ce_glob e ?pat") (auto simp: Let_def)
  show ?case
  proof (cases "ms = []")
    case True
    then show ?thesis using "2.IH"(1) [OF refl ms] "2.prems" ms by (simp add: Let_def)
  next
    case False
    then obtain w1 s1 c1 where f: "include_files e n (sort_strings ms) w seen cfg = IncOk w1 s1 c1"
      using "2.prems" ms by (cases "include_files e n (sort_strings ms) w seen cfg") (auto simp: Let_def)
    then have "include_patterns e n d ps w1 s1 c1 = IncOk w' seen' cfg'"
      using "2.prems" ms False by (simp add: Let_def)
    then show ?thesis using "2.IH"(2) [OF refl ms False f] "2.IH"(3) [OF refl ms False f] by simp
  qed
next
  case (4 e p ps w seen cfg)
  then show ?case by (auto simp: open_include_def split: sum.splits option.splits if_splits prod.splits)
next
  case (5 e n p ps w seen cfg)
  show ?case
  proof (cases "open_include e p w seen")
    case (Inl r)
    then show ?thesis
      using "5.prems" by (auto simp: open_include_def split: sum.splits option.splits if_splits prod.splits)
  next
    case (Inr x)
    obtain a w1 inc where x: "x = (a, w1, inc)" by (metis prod_cases3)
    let ?r = "include_patterns e n (ce_dir e a) (cf_Include inc) [] (a # seen) inc"
    obtain nw s1 c1 where r: "?r = IncOk nw s1 c1"
      using "5.prems" Inr x by (cases ?r) auto
    obtain cfg1 where m: "merge_include a cfg c1 = Inr cfg1"
      using "5.prems" Inr x r by (cases "merge_include a cfg c1") auto
    have "include_files e (Suc n) ps (w1 @ nw) s1 cfg1 = IncOk w' seen' cfg'"
      using "5.prems" Inr x r m by simp
    then have "cf_Server cfg' = cf_Server cfg1" using "5.IH"(2) [OF Inr [unfolded x] refl refl r m] by blast
    moreover have "cf_Server cfg1 = cf_Server cfg"
      using m by (auto simp: merge_include_def mergePrograms_def mergeGroups_def mergeWebhooks_def and_then_def
          split: sum.splits)
    ultimately show ?thesis by simp
  qed
qed auto

text \<open>A loaded configuration's server settings are those of its own file, validated, but for the expansion of the socket path.\<close>

lemma loaded_server:
  assumes "LoadWithIncludes e fuel path = Some (w, Inr cfg)"
  obtains w0 cfg0 cfg1 where "Load e path = (w0, Inr cfg0)"
    and "ExpandVariables (ce_dir e) (ce_lookup_env e) path cfg0 = Inr cfg1" and "cf_Server cfg = cf_Server cfg1"
proof -
  obtain w0 cfg0 cfg1 where l: "Load e path = (w0, Inr cfg0)"
    and x: "ExpandVariables (ce_dir e) (ce_lookup_env e) path cfg0 = Inr cfg1"
    using assms by (auto simp: LoadWithIncludes_def Let_def split: sum.splits prod.splits)
  have "cf_Server cfg = cf_Server cfg1"
    using assms l x include_keeps_server(1)
    by (auto simp: LoadWithIncludes_def resolveIncludes_def Let_def split: include_result.splits if_splits)
  then show ?thesis using that l x by blast
qed

lemma loaded_server_valid:
  assumes "LoadWithIncludes e fuel path = Some (w, Inr cfg)"
  obtains cfg0 fn where "Validate (ce_split_host e) (ce_lookup_port e) (ce_goos e) cfg0 = []"
    and "cf_Server cfg = (cf_Server cfg0)\<lparr>sc_Unix := (sc_Unix (cf_Server cfg0))\<lparr>ux_File := fn\<rparr>\<rparr>"
proof -
  obtain w0 cfg0 cfg1 where l: "Load e path = (w0, Inr cfg0)"
    and x: "ExpandVariables (ce_dir e) (ce_lookup_env e) path cfg0 = Inr cfg1" and c: "cf_Server cfg = cf_Server cfg1"
    using loaded_server [OF assms] by blast
  have v: "Validate (ce_split_host e) (ce_lookup_port e) (ce_goos e) cfg0 = []"
    using l by (auto simp: Load_def LoadBytes_def Let_def split: option.splits if_splits prod.splits)
  obtain fn where "cf_Server cfg1 = (cf_Server cfg0)\<lparr>sc_Unix := (sc_Unix (cf_Server cfg0))\<lparr>ux_File := fn\<rparr>\<rparr>"
    using x by (auto simp: ExpandVariables_def Let_def and_then_def split: sum.splits)
  then show ?thesis using v c that by simp
qed

text \<open>Every way the daemon can start.\<close>

lemma daemonRun_cases:
  assumes "daemonRun e fl = Some (t, r)"
  obtains (early) ws err where "t = map Warning ws" "r = Inl err"
  | (configured) path ws cfg where "LoadWithIncludes (se_cfg e) (se_fuel e) path = Some (ws, Inr cfg)"
      "t = map Warning ws @ fst (start_configured e fl cfg)" "r = snd (start_configured e fl cfg)"
proof -
  consider (resolve) err where "ResolveDaemon (se_exists e) (se_kahi_config e) (fl_config fl) = Inl err"
    | (load) path ws err where "ResolveDaemon (se_exists e) (se_kahi_config e) (fl_config fl) = Inr path"
      "LoadWithIncludes (se_cfg e) (se_fuel e) path = Some (ws, Inl err)"
    | (ok) path ws cfg where "ResolveDaemon (se_exists e) (se_kahi_config e) (fl_config fl) = Inr path"
      "LoadWithIncludes (se_cfg e) (se_fuel e) path = Some (ws, Inr cfg)"
    using assms by (auto simp: daemonRun_def split: sum.splits option.splits prod.splits)
  then show ?thesis
  proof cases
    case resolve
    then show ?thesis using assms early [of "[]"] by (auto simp: daemonRun_def fail_def)
  next
    case load
    then show ?thesis using assms early by (auto simp: daemonRun_def)
  next
    case ok
    then show ?thesis
      using assms configured [OF ok(2)] by (auto simp: daemonRun_def then_do_def split: prod.splits)
  qed
qed

text \<open>The effects each step can have.\<close>

lemma step_effects:
  "(\<And>d m. P (MakeDir d m)) \<Longrightarrow> (\<And>d. P (TempFile d)) \<Longrightarrow> all_eff P (ValidateSocketPermissions e p)"
  "(\<And>w. P (Warning w)) \<Longrightarrow> all_eff P (RootWarning e b)"
  "(\<And>w. P (Warning w)) \<Longrightarrow> all_eff P (CheckPIDFile e pf)"
  "P (RemoveSocket p) \<Longrightarrow> all_eff P (removeStaleSocket e p)"
  "(\<And>a. P (BindTCP a)) \<Longrightarrow> all_eff P (StartTCP e s a)"
  "(\<And>gs. P (SetGroups gs)) \<Longrightarrow> (\<And>g. P (SetGid g)) \<Longrightarrow> (\<And>u. P (SetUid u)) \<Longrightarrow> all_eff P (DropPrivileges e u)"
  by (auto simp: ValidateSocketPermissions_def ensurePrivateDir_def RootWarning_def CheckPIDFile_def
      removeStaleSocket_def StartTCP_def DropPrivileges_def Let_def fail_def effect_def intro!: all_eff_then
      split: stat_result.split option.split)

lemma StartUnix_effects:
  assumes "\<And>e. all_eff P (ListenUnix e p)" and "P (RemoveSocket p)" "P (ChmodUnix p m)" "P (ServeUnix p)" "P (CloseUnix p)"
  shows "all_eff P (StartUnix e p m)"
  unfolding StartUnix_def by (intro all_eff_then step_effects(4)) (use assms in simp_all)

lemma start_configured_owner_only:
  assumes "validateUnixServer goos (sc_Unix (cf_Server cfg)\<lparr>ux_File := f\<rparr>) = []"
  shows "all_eff owner_only (start_configured e fl cfg)"
proof -
  have "parseSocketMode (ux_Chmod (sc_Unix (cf_Server cfg))) AND o077 = 0"
    using parseSocketMode_owner_only [OF assms] by simp
  then show ?thesis
    unfolding start_configured_def Let_def
    by (intro all_eff_if all_eff_then step_effects StartUnix_effects ListenUnix_owner_only) simp_all
qed

text \<open>The umask after some effects.\<close>

fun umask_after :: "start_effect list \<Rightarrow> mode \<Rightarrow> mode" where
  "umask_after [] u = u"
| "umask_after (SetUmask m # t) u = umask_after t m"
| "umask_after (_ # t) u = umask_after t u"

lemma umask_after_append [simp]: "umask_after (t1 @ t2) u = umask_after t2 (umask_after t1 u)"
  by (induction t1 u rule: umask_after.induct) simp_all

lemma umask_after_none: "(\<And>x m. x \<in> set t \<Longrightarrow> x \<noteq> SetUmask m) \<Longrightarrow> umask_after t u = u"
  by (induction t u rule: umask_after.induct) auto

definition keeps_umask :: "start_env \<Rightarrow> 'a start \<Rightarrow> bool" where
  "keeps_umask e m \<longleftrightarrow> umask_after (fst m) (se_umask e) = se_umask e"

lemma keeps_umask_then: "keeps_umask e m \<Longrightarrow> (\<And>x. keeps_umask e (f x)) \<Longrightarrow> keeps_umask e (then_do m f)"
proof -
  assume m: "keeps_umask e m" and f: "\<And>x. keeps_umask e (f x)"
  obtain t r where mr: "m = (t, r)" by fastforce
  show "keeps_umask e (then_do m f)"
    by (cases r) (use m mr f in \<open>simp_all add: keeps_umask_def\<close>)
qed

lemma keeps_umask_if: "keeps_umask e m \<Longrightarrow> keeps_umask e n \<Longrightarrow> keeps_umask e (if b then m else n)"
  by simp

definition is_umask :: "start_effect \<Rightarrow> bool" where
  "is_umask x \<longleftrightarrow> (\<exists>m. x = SetUmask m)"

lemma keeps_umask_eff: "all_eff (\<lambda>x. \<not> is_umask x) m \<Longrightarrow> keeps_umask e m"
  unfolding keeps_umask_def all_eff_def is_umask_def by (intro umask_after_none) blast

lemma keeps_umask_step [simp]:
  "keeps_umask e skip" "keeps_umask e (fail err)" "keeps_umask e (ListenUnix e p)" "keeps_umask e ([], r)"
  by (auto simp: keeps_umask_def skip_def fail_def ListenUnix_def Let_def)

lemma start_steps_umask:
  "keeps_umask e (ValidateSocketPermissions e p)" "keeps_umask e (RootWarning e b)" "keeps_umask e (CheckPIDFile e pf)"
  "keeps_umask e (removeStaleSocket e p)" "keeps_umask e (StartTCP e s a)" "keeps_umask e (DropPrivileges e u)"
  by (rule keeps_umask_eff, rule step_effects; simp add: is_umask_def)+

lemma StartUnix_umask: "keeps_umask e (StartUnix e p m)"
  unfolding StartUnix_def
  by (intro keeps_umask_then keeps_umask_if start_steps_umask keeps_umask_step(3)) (simp_all add: keeps_umask_def)

lemma start_configured_umask: "keeps_umask e (start_configured e fl cfg)"
  unfolding start_configured_def Let_def
  by (intro keeps_umask_then keeps_umask_if start_steps_umask StartUnix_umask keeps_umask_step)

text \<open>
  C16 (bounds).  The control socket is never open to group or others, not even between its creation and
  the change of its mode: whatever the umask the daemon inherited and whatever mode the configuration
  asks for, every mode the socket is given while the daemon starts has no bit for them, and the umask
  is the inherited one again afterwards.
\<close>

theorem control_socket_is_private:
  assumes "daemonRun e fl = Some (t, r)"
  shows "(\<forall>x\<in>set t. \<forall>m\<in>set (socket_mode x). m AND o077 = 0) \<and> umask_after t (se_umask e) = se_umask e"
  using assms
proof (cases rule: daemonRun_cases)
  case (early ws err)
  then show ?thesis using umask_after_none [of "map Warning ws"] by auto
next
  case (configured path ws cfg)
  obtain cfg0 fn where v: "Validate (ce_split_host (se_cfg e)) (ce_lookup_port (se_cfg e)) (ce_goos (se_cfg e)) cfg0 = []"
    and c: "cf_Server cfg = (cf_Server cfg0)\<lparr>sc_Unix := (sc_Unix (cf_Server cfg0))\<lparr>ux_File := fn\<rparr>\<rparr>"
    using loaded_server_valid [OF configured(1)] .
  have "validateUnixServer (ce_goos (se_cfg e)) (sc_Unix (cf_Server cfg0)) = []"
    using v by (simp add: Validate_def Let_def)
  then have "validateUnixServer (ce_goos (se_cfg e)) (sc_Unix (cf_Server cfg)\<lparr>ux_File := ux_File (sc_Unix (cf_Server cfg0))\<rparr>) = []"
    using c by simp
  then have "all_eff owner_only (start_configured e fl cfg)" by (rule start_configured_owner_only)
  moreover have "umask_after (map Warning ws) u = u" for u by (rule umask_after_none) auto
  ultimately show ?thesis
    using start_configured_umask [of e fl cfg] configured
    by (auto simp: all_eff_def owner_only_def keeps_umask_def)
qed

section \<open>The privilege drop\<close>

definition is_drop :: "start_effect \<Rightarrow> bool" where
  "is_drop x \<longleftrightarrow> (\<exists>gs. x = SetGroups gs) \<or> (\<exists>g. x = SetGid g) \<or> (\<exists>u. x = SetUid u)"

text \<open>
  Nothing is dropped at first, then a prefix of the three calls is made, and all of them when the daemon
  is ready.
\<close>

definition drops_in_order :: "string \<Rightarrow> started start \<Rightarrow> bool" where
  "drops_in_order user m \<longleftrightarrow>
     (\<exists>pre ds. fst m = pre @ ds \<and> (\<forall>x\<in>set pre. \<not> is_drop x) \<and>
        (ds = [] \<or> (\<exists>uid gid. resolveUser user = Some (uid, gid) \<and>
           prefix ds [SetGroups [gid], SetGid gid, SetUid uid])) \<and>
        (\<forall>s. snd m = Inr (Ready s) \<longrightarrow> length ds = (if user = [] then 0 else 3)))"

lemma drops_then:
  assumes "all_eff (\<lambda>x. \<not> is_drop x) m" and "\<And>x. drops_in_order user (f x)"
  shows "drops_in_order user (then_do m f)"
proof -
  obtain t r where m: "m = (t, r)" by fastforce
  show ?thesis
  proof (cases r)
    case (Inl err)
    then show ?thesis using assms(1) m by (auto simp: drops_in_order_def then_do_def)
  next
    case (Inr x)
    obtain pre ds where f: "fst (f x) = pre @ ds" "\<forall>x\<in>set pre. \<not> is_drop x"
      "ds = [] \<or> (\<exists>uid gid. resolveUser user = Some (uid, gid) \<and> prefix ds [SetGroups [gid], SetGid gid, SetUid uid])"
      "\<forall>s. snd (f x) = Inr (Ready s) \<longrightarrow> length ds = (if user = [] then 0 else 3)"
      using assms(2) [of x] by (auto simp: drops_in_order_def)
    have "fst (then_do m f) = (t @ pre) @ ds" "snd (then_do m f) = snd (f x)"
      using m Inr f(1) by simp_all
    moreover have "\<forall>x\<in>set (t @ pre). \<not> is_drop x" using assms(1) m f(2) by auto
    ultimately show ?thesis using f(3,4) unfolding drops_in_order_def by metis
  qed
qed

lemma drops_if: "drops_in_order u m \<Longrightarrow> drops_in_order u n \<Longrightarrow> drops_in_order u (if b then m else n)"
  by simp

lemma drops_steps: "drops_in_order u (fail err)" "drops_in_order u ([], Inr Daemonized)"
  by (auto simp: drops_in_order_def fail_def)

lemma drops_last: "drops_in_order user (then_do (DropPrivileges e user) (\<lambda>_. ([], Inr (Ready s))))"
proof (cases "user = []")
  case False
  show ?thesis
  proof (cases "resolveUser user")
    case (Some ug)
    obtain uid gid where u: "ug = (uid, gid)" by fastforce
    let ?m = "then_do (DropPrivileges e user) (\<lambda>_. ([], Inr (Ready s)))"
    have "prefix (fst ?m) [SetGroups [gid], SetGid gid, SetUid uid]"
      "\<forall>s. snd ?m = Inr (Ready s) \<longrightarrow> length (fst ?m) = 3"
      using False Some u by (simp_all add: DropPrivileges_def then_do_def effect_def)
    then show ?thesis
      using False Some u unfolding drops_in_order_def by (intro exI [of _ "[]"] exI [of _ "fst ?m"]) simp
  qed (use False in \<open>auto simp: drops_in_order_def DropPrivileges_def then_do_def fail_def\<close>)
qed (auto simp: drops_in_order_def DropPrivileges_def then_do_def skip_def)

lemma start_configured_drops: "drops_in_order (fl_user fl) (start_configured e fl cfg)"
  unfolding start_configured_def Let_def
  by (intro drops_then drops_if drops_steps drops_last all_eff_if step_effects StartUnix_effects)
    (simp_all add: is_drop_def ListenUnix_def Let_def)

text \<open>
  C15 (safety).  The privileges are dropped completely or the daemon does not run: with a user given, a
  daemon that gets ready has reset its groups, then its group, then its user, each to what the user
  names; all its listeners are bound before; and a failure leaves only a prefix of the three calls, so
  the user is never changed while the old groups are kept.
\<close>

theorem privileges_dropped_in_order:
  assumes "daemonRun e fl = Some (t, r)"
  shows "\<exists>pre ds. t = pre @ ds \<and> (\<forall>x\<in>set pre. \<not> is_drop x) \<and>
     (ds = [] \<or> (\<exists>uid gid. resolveUser (fl_user fl) = Some (uid, gid) \<and>
        prefix ds [SetGroups [gid], SetGid gid, SetUid uid])) \<and>
     (\<forall>s. r = Inr (Ready s) \<longrightarrow> length ds = (if fl_user fl = [] then 0 else 3))"
  using assms
proof (cases rule: daemonRun_cases)
  case (early ws err)
  then show ?thesis by (intro exI [of _ t] exI [of _ "[]"]) (auto simp: is_drop_def)
next
  case (configured path ws cfg)
  have "drops_in_order (fl_user fl) (then_do (map Warning ws, Inr ()) (\<lambda>_. start_configured e fl cfg))"
    by (intro drops_then start_configured_drops) (auto simp: is_drop_def)
  moreover have "then_do (map Warning ws, Inr ()) (\<lambda>_. start_configured e fl cfg) = (t, r)"
    using configured by simp
  ultimately show ?thesis unfolding drops_in_order_def by simp
qed

section \<open>A daemon that runs already\<close>

text \<open>What a start does to sockets.\<close>

definition on_socket :: "start_effect \<Rightarrow> bool" where
  "on_socket x \<longleftrightarrow> (\<exists>p. x = RemoveSocket p \<or> x = ServeUnix p \<or> x = CloseUnix p \<or> x = BindTCP p) \<or>
     (\<exists>p m. x = BindUnix p m \<or> x = ChmodUnix p m)"

definition refused :: "'a start \<Rightarrow> bool" where
  "refused m \<longleftrightarrow> (\<exists>err. snd m = Inl err) \<and> all_eff (\<lambda>x. \<not> on_socket x) m"

lemma refused_then:
  "all_eff (\<lambda>x. \<not> on_socket x) m \<Longrightarrow> (\<And>x. refused (f x)) \<Longrightarrow> refused (then_do m f)"
  by (cases m; cases "snd m") (auto simp: refused_def all_eff_def)

lemma refused_first: "refused m \<Longrightarrow> refused (then_do m f)"
  by (cases m) (auto simp: refused_def)

lemma refused_if: "refused m \<Longrightarrow> refused n \<Longrightarrow> refused (if b then m else n)"
  by simp

lemma refused_fail: "refused (fail err)"
  by (simp add: refused_def) (simp add: fail_def)

text \<open>The PID file names a process that is alive and not this one.\<close>

definition other_instance :: "start_env \<Rightarrow> string \<Rightarrow> bool" where
  "other_instance e path \<longleftrightarrow> path \<noteq> [] \<and>
     (\<exists>b pid. se_read_pid e path = Found_it b \<and> atoi (TrimSpace b) = Some pid \<and> 0 < pid \<and> pid \<noteq> se_pid e \<and>
        (se_kill e pid = KillOk \<or> se_kill e pid = KillEPERM))"

lemma other_instance_refused: "other_instance e path \<Longrightarrow> refused (CheckPIDFile e path)"
  by (auto simp: other_instance_def CheckPIDFile_def refused_fail)

lemma removes_only_dead:
  "all_eff (\<lambda>x. \<forall>p. x = RemoveSocket p \<longrightarrow> \<not> se_dial e p) (start_configured e fl cfg)"
proof -
  have "all_eff (\<lambda>x. \<forall>p. x = RemoveSocket p \<longrightarrow> \<not> se_dial e p) (removeStaleSocket e q)" for q
    by (auto simp: removeStaleSocket_def split: stat_result.split)
  then have "all_eff (\<lambda>x. \<forall>p. x = RemoveSocket p \<longrightarrow> \<not> se_dial e p) (StartUnix e q m)" for q m
    unfolding StartUnix_def by (intro all_eff_then) (auto simp: ListenUnix_def Let_def)
  then show ?thesis
    unfolding start_configured_def Let_def by (intro all_eff_if all_eff_then step_effects) simp_all
qed

text \<open>
  C18 (safety).  A second daemon leaves the first alone: when the PID file names a process that is alive,
  the start ends with an error before it touches any socket, and no start ever removes a socket that
  still accepts a connection.
\<close>

theorem second_daemon_leaves_the_first_alone:
  assumes "daemonRun e fl = Some (t, r)"
  shows "(other_instance e (fl_pidfile fl) \<longrightarrow> (\<exists>err. r = Inl err) \<and> (\<forall>x\<in>set t. \<not> on_socket x)) \<and>
     (\<forall>p. RemoveSocket p \<in> set t \<longrightarrow> \<not> se_dial e p)"
  using assms
proof (cases rule: daemonRun_cases)
  case (early ws err)
  then show ?thesis by (auto simp: on_socket_def)
next
  case (configured path ws cfg)
  have "refused (start_configured e fl cfg)" if "other_instance e (fl_pidfile fl)"
    unfolding start_configured_def Let_def
    by (intro refused_if refused_fail refused_then [of "if _ then _ else _"] refused_then [of "RootWarning _ _"]
        refused_first [of "CheckPIDFile _ _"] other_instance_refused [OF that] all_eff_if step_effects)
      (simp_all add: on_socket_def)
  then show ?thesis
    using removes_only_dead [of e fl cfg] configured by (auto simp: refused_def all_eff_def on_socket_def)
qed

section \<open>The TCP listener\<close>

lemma ready_server: "snd (start_configured e fl cfg) = Inr (Ready s) \<Longrightarrow>
   as_user s = ht_Username (sc_HTTP (cf_Server cfg)) \<and> as_pass s = ht_Password (sc_HTTP (cf_Server cfg))"
proof -
  have r: "snd (then_do m f) = Inr y \<Longrightarrow> \<exists>x. snd (f x) = Inr y" for m :: "'a start" and f :: "'a \<Rightarrow> started start" and y
    by (cases m; cases "snd m") auto
  assume "snd (start_configured e fl cfg) = Inr (Ready s)"
  then show ?thesis
    unfolding start_configured_def Let_def by (auto simp: NewServer_def fail_def split: if_splits dest!: r)
qed

lemma bound_needs_credentials:
  "all_eff (\<lambda>x. \<forall>a. x = BindTCP a \<longrightarrow> ht_Enabled (sc_HTTP (cf_Server cfg)) \<and> ht_Password (sc_HTTP (cf_Server cfg)) \<noteq> [])
     (start_configured e fl cfg)"
proof -
  let ?P = "\<lambda>x. \<forall>a. x = BindTCP a \<longrightarrow> ht_Enabled (sc_HTTP (cf_Server cfg)) \<and> ht_Password (sc_HTTP (cf_Server cfg)) \<noteq> []"
  have "all_eff ?P (StartTCP e (NewServer cfg sv) a)" if "ht_Enabled (sc_HTTP (cf_Server cfg))" for sv a
    using that by (simp add: StartTCP_def NewServer_def)
  then show ?thesis
    unfolding start_configured_def Let_def
    by (intro all_eff_if all_eff_then step_effects(1-4,6) StartUnix_effects) (simp_all add: ListenUnix_def Let_def)
qed

text \<open>A daemon that listens on TCP has a user name and a bcrypt password.\<close>

lemma tcp_has_credentials:
  assumes "daemonRun e fl = Some (t, Inr (Ready s))" and "BindTCP a \<in> set t"
  shows "as_user s \<noteq> []" and "has_prefix (as_pass s) ''$2''"
proof -
  from assms(1) obtain path ws cfg where c: "LoadWithIncludes (se_cfg e) (se_fuel e) path = Some (ws, Inr cfg)"
    "t = map Warning ws @ fst (start_configured e fl cfg)" "snd (start_configured e fl cfg) = Inr (Ready s)"
    by (cases rule: daemonRun_cases) auto
  obtain cfg0 fn where v: "Validate (ce_split_host (se_cfg e)) (ce_lookup_port (se_cfg e)) (ce_goos (se_cfg e)) cfg0 = []"
    and sc: "cf_Server cfg = (cf_Server cfg0)\<lparr>sc_Unix := (sc_Unix (cf_Server cfg0))\<lparr>ux_File := fn\<rparr>\<rparr>"
    using loaded_server_valid [OF c(1)] .
  have "ht_Enabled (sc_HTTP (cf_Server cfg0))"
    using bound_needs_credentials [of cfg e fl] assms(2) c(2) sc by (auto simp: all_eff_def)
  then have "TrimSpace (ht_Username (sc_HTTP (cf_Server cfg0))) \<noteq> []" "has_prefix (ht_Password (sc_HTTP (cf_Server cfg0))) ''$2''"
    using v by (auto simp: Validate_def Let_def)
  moreover have "TrimSpace [] = []" by code_simp
  ultimately show "as_user s \<noteq> []" "has_prefix (as_pass s) ''$2''" using ready_server [OF c(3)] sc by auto
qed

section \<open>Examples\<close>

text \<open>A system on which everything succeeds, under a permissive umask.\<close>

definition calm_system :: start_env where
  "calm_system = \<lparr>se_cfg = one_file, se_fuel = 0, se_exists = (\<lambda>_. True), se_kahi_config = [], se_log_ok = (\<lambda>_. True),
     se_log_level = (\<lambda>_. None), se_uid = 0, se_euid = 0, se_pid = 42, se_tmp = ''/tmp'', se_mkdir = (\<lambda>_. MkdirOk),
     se_lstat = (\<lambda>_. None),
     se_stat = (\<lambda>p. if p = ''/'' then Found_it \<lparr>fi_dir = True, fi_socket = False, fi_uid = 0, fi_perm = o700\<rparr> else Missing),
     se_temp_ok = (\<lambda>_. True), se_read_pid = (\<lambda>_. Missing), se_kill = (\<lambda>_. KillOther), se_umask = 0,
     se_dial = (\<lambda>_. False), se_remove = (\<lambda>_. True), se_bind = (\<lambda>_. True), se_chmod = (\<lambda>_. True),
     se_listen = (\<lambda>_. True), se_setgroups = True, se_setgid = True, se_setuid = True, se_fs = sample_fs\<rparr>"

definition run_flags :: flags where
  "run_flags = \<lparr>fl_config = ''a'', fl_pidfile = ''/run/kahi.pid'', fl_daemonize = False, fl_user = ''1000:50'', fl_report = False\<rparr>"

lemma calm_run: "\<exists>t s. daemonRun calm_system run_flags = Some (t, Inr (Ready s))"
proof -
  obtain w where l: "LoadWithIncludes one_file 0 ''a'' = Some (w, Inr bare_config)"
    using bare_config_loads by blast
  have d: "ResolveDaemon (\<lambda>_. True) [] ''a'' = Inr ''a''" by (simp add: ResolveDaemon_def resolve_def)
  have h: "\<not> ht_Enabled (sc_HTTP (cf_Server bare_config))" by (simp add: bare_config_def ApplyDefaults_def sample_config_def)
  have u: "resolveUser ''1000:50'' = Some (1000, 50)" by code_simp
  have f: "ux_File (sc_Unix (cf_Server bare_config)) = RootSocketPath"
    by (simp add: bare_config_def ApplyDefaults_def sample_config_def default_unix_def or_default_def)
  have "PrivateSocketDir calm_system \<noteq> ''/''"
    by (simp add: PrivateSocketDir_def calm_system_def privateSocketDir_def one_file_def no_files_def path_join_def)
  then have "\<exists>s. snd (start_configured calm_system run_flags bare_config) = Inr (Ready s)"
    using u by (simp add: start_configured_def Let_def calm_system_def run_flags_def f RootSocketPath_def
        ValidateSocketPermissions_def one_file_def no_files_def effect_def skip_def RootWarning_def CheckPIDFile_def
        StartUnix_def removeStaleSocket_def ListenUnix_def h DropPrivileges_def)
  then show ?thesis
    using l d by (auto simp: daemonRun_def calm_system_def run_flags_def)
qed

theorem control_socket_is_private_witness:
  "\<exists>t s. daemonRun calm_system run_flags = Some (t, Inr (Ready s)) \<and>
     (\<forall>x\<in>set t. \<forall>m\<in>set (socket_mode x). m AND o077 = 0) \<and> umask_after t 0 = 0"
proof -
  obtain t s where r: "daemonRun calm_system run_flags = Some (t, Inr (Ready s))" using calm_run by blast
  have "se_umask calm_system = 0" by (simp add: calm_system_def)
  then show ?thesis using control_socket_is_private [OF r] r by auto
qed

theorem privileges_dropped_in_order_witness:
  "\<exists>t s pre ds. daemonRun calm_system run_flags = Some (t, Inr (Ready s)) \<and> t = pre @ ds \<and> length ds = 3"
proof -
  obtain t s where r: "daemonRun calm_system run_flags = Some (t, Inr (Ready s))" using calm_run by blast
  have "fl_user run_flags \<noteq> []" by (simp add: run_flags_def)
  then show ?thesis using privileges_dropped_in_order [OF r] r by auto
qed

theorem second_daemon_leaves_the_first_alone_witness:
  "let e = calm_system\<lparr>se_read_pid := (\<lambda>_. Found_it ''7''), se_kill := (\<lambda>_. KillEPERM)\<rparr> in
   \<exists>t err. daemonRun e run_flags = Some (t, Inl err) \<and> (\<forall>x\<in>set t. \<not> on_socket x)"
proof -
  let ?e = "calm_system\<lparr>se_read_pid := (\<lambda>_. Found_it ''7''), se_kill := (\<lambda>_. KillEPERM)\<rparr>"
  obtain w where l: "LoadWithIncludes one_file 0 ''a'' = Some (w, Inr bare_config)"
    using bare_config_loads by blast
  then obtain t r where r: "daemonRun ?e run_flags = Some (t, r)"
    by (cases "daemonRun ?e run_flags")
      (auto simp: daemonRun_def calm_system_def run_flags_def ResolveDaemon_def resolve_def)
  have "atoi (TrimSpace ''7'') = Some 7" by code_simp
  then have "other_instance ?e (fl_pidfile run_flags)"
    by (auto simp: other_instance_def run_flags_def calm_system_def)
  then show ?thesis using second_daemon_leaves_the_first_alone [OF r] r by auto
qed

end
