(* ===== verification/Api_Safety.thy ===== *)
theory Api_Safety
  imports Api_Server
begin

text \<open>
  What the API guarantees: who can change anything, what unknown names get, when the daemon is ready;
  and what it accepts while the daemon shuts down.
\<close>

section \<open>Who can change anything\<close>

lemma run_op_same: "f (as_manager s) = (as_manager s, err) \<Longrightarrow> run_op f ok s = (s, Some (respond err ok))"
  by (simp add: run_op_def set_manager_def as_manager_def)

lemma route_methods:
  "buildMux ui p = Some (m, r) \<Longrightarrow> m = GET \<or> m = POST"
  "buildMux ui p = Some (GET, r) \<Longrightarrow> fst (handle e rq r s) = s"
  "buildMux ui p = Some (m, r) \<Longrightarrow> is_open r \<Longrightarrow> fst (handle e rq r s) = s"
  by (auto simp: buildMux_def v1_route_def process_route_def group_route_def all_route_def is_open_def
      split: if_splits list.splits)

text \<open>The credentials a request over TCP must carry.\<close>

definition authorized :: "api_env \<Rightarrow> request \<Rightarrow> Server \<Rightarrow> bool" where
  "authorized e rq s \<longleftrightarrow> isUnixConn rq \<or> as_user s = [] \<or>
     (\<exists>pass. rq_auth rq = Some (as_user s, pass) \<and> checkPassword e pass (as_pass s))"

lemma requireAuth_cases:
  "requireAuth e rq h s = (if authorized e rq s then h s
     else (s, Some (unauthorized (if rq_auth rq = None then ''authentication required'' else ''invalid credentials''))))"
  by (auto simp: requireAuth_def authorized_def Let_def split: option.split)

text \<open>
  A request that changes any state of the daemon is a POST, was not sent across origins by a browser,
  and came over the Unix socket or with the configured user name and password, unless no user is
  configured.
\<close>

lemma changes_need_authorization:
  assumes "serve e rq s = (s', r)" and "s' \<noteq> s"
  shows "rq_method rq = POST \<and> \<not> cross_origin e rq \<and> authorized e rq s"
proof -
  have c: "\<not> cross_origin e rq" using assms by (auto simp: serve_def)
  obtain rt where f: "mux_find (as_ui s) rq = Found rt" and
    h: "(s', r) = (if is_open rt then handle e rq rt s else requireAuth e rq (handle e rq rt) s)"
    using assms c by (auto simp: serve_def split: mux_result.splits)
  obtain m where m: "buildMux (as_ui s) (rq_path rq) = Some (m, rt)" "rq_method rq = m \<or> (m = GET \<and> rq_method rq = HEAD)"
    using f by (auto simp: mux_find_def split: option.splits if_splits)
  have np: "\<not> is_open rt"
  proof
    assume "is_open rt"
    then have "s' = s" using route_methods(3) [OF m(1)] h by (metis fst_conv)
    then show False using assms(2) by simp
  qed
  then have h': "(s', r) = requireAuth e rq (handle e rq rt) s" using h by simp
  then have a: "authorized e rq s" using assms(2) by (auto simp: requireAuth_cases split: if_splits)
  then have "(s', r) = handle e rq rt s" using h' by (simp add: requireAuth_cases)
  then have "m \<noteq> GET" using route_methods(2) m(1) assms(2) by (metis fst_conv)
  then have "rq_method rq = POST" using m(2) route_methods(1) [OF m(1)] by auto
  then show ?thesis using c a by simp
qed

text \<open>Nothing the API or the rest of the daemon does changes the credentials.\<close>

lemma run_op_credentials: "run_op f ok s = (s', r) \<Longrightarrow> as_user s' = as_user s \<and> as_pass s' = as_pass s"
  by (auto simp: run_op_def set_manager_def split: prod.splits)

lemma handle_credentials: "handle e rq r s = (s', x) \<Longrightarrow> as_user s' = as_user s \<and> as_pass s' = as_pass s"
  by (cases r) (auto simp: handleStartProcess_def handleStopProcess_def handleRestartProcess_def handleSignalProcess_def
      handleWriteStdin_def handleGroup_def handleReloadConfig_def handleShutdown_def handleBulk_def set_manager_def
      split: if_splits option.splits prod.splits dest: run_op_credentials)

inductive serves :: "Server \<Rightarrow> Server \<Rightarrow> bool" where
  serves_refl: "serves s s"
| serves_request: "serves s0 s \<Longrightarrow> serve e rq s = (s', r) \<Longrightarrow> serves s0 s'"
| serves_daemon: "serves s0 s \<Longrightarrow> serves s0 (s\<lparr>as_sup := sv, as_bulk := b\<rparr>)"

lemma serve_credentials: "serve e rq s = (s', r) \<Longrightarrow> as_user s' = as_user s \<and> as_pass s' = as_pass s"
  using handle_credentials
  by (auto simp: serve_def requireAuth_cases split: if_splits mux_result.splits)

lemma serves_credentials: "serves s0 s \<Longrightarrow> as_user s = as_user s0 \<and> as_pass s = as_pass s0"
  by (induction rule: serves.induct) (auto dest: serve_credentials)

section \<open>Unknown names\<close>

lemma index_of_prefix: "has_prefix s sub \<Longrightarrow> index_of sub s = Some 0"
  by (cases s) (auto simp: has_prefix_def)

lemma unknown_status: "classifyError (no_such_process n) = 404" "classifyError (''no such group: '' @ n) = 404"
  by (simp_all add: classifyError_def contains_def no_such_process_def index_of_prefix has_prefix_def)

lemma manager_ops_unknown:
  assumes "GetProcess m n = None"
  shows "manager_Start envs n m = (m, Some (no_such_process n))"
    and "manager_Stop envs n m = (m, Some (no_such_process n))"
    and "manager_Signal envs n sg m = (m, Some (no_such_process n))"
    and "manager_WriteStdin envs n d m = (m, Some (no_such_process n))"
    and "Restart envs w n m = (m, Some (no_such_process n))"
  using assms by (simp_all add: manager_Start_def manager_Stop_def manager_Signal_def manager_WriteStdin_def
      Restart_def act_on_def)

text \<open>The routes of a process that act on it, of a request with a body they accept.\<close>

definition process_acts :: "request \<Rightarrow> string \<Rightarrow> route set" where
  "process_acts rq n = {RGetProcess n, RStart n, RStop n, RRestart n} \<union>
     (if rq_signal rq \<noteq> None \<and> rq_signal rq \<noteq> Some [] then {RSignal n} else {}) \<union>
     (if rq_data rq \<noteq> None then {RStdin n} else {})"

text \<open>
  A name the daemon does not know is answered with 404 and changes nothing, by every route
  of a process and every route of a group, unless the daemon refuses starts because it shuts down.
\<close>

theorem unknown_names_are_not_found:
  assumes "su_shutting (as_sup s) \<Longrightarrow> r \<noteq> RStart n"
    and "GetProcess (as_manager s) n = None \<and> r \<in> process_acts rq n \<or>
      map_of (mg_groups (as_manager s)) n = None \<and> r \<in> {RStartGroup n, RStopGroup n, RRestartGroup n}"
  shows "\<exists>msg. handle e rq r s = (s, Some (writeError 404 msg ''NOT_FOUND''))"
  using assms(2)
proof
  assume a: "GetProcess (as_manager s) n = None \<and> r \<in> process_acts rq n"
  have ops:
    "run_op (manager_Start (ae_envs e) n) ok s = (s, Some (respond (Some (no_such_process n)) ok))"
    "run_op (manager_Stop (ae_envs e) n) ok s = (s, Some (respond (Some (no_such_process n)) ok))"
    "run_op (manager_Signal (ae_envs e) n sg) ok s = (s, Some (respond (Some (no_such_process n)) ok))"
    "run_op (manager_WriteStdin (ae_envs e) n d) ok s = (s, Some (respond (Some (no_such_process n)) ok))"
    "run_op (Restart (ae_envs e) (ae_world e) n) ok s = (s, Some (respond (Some (no_such_process n)) ok))"
    for ok sg d
    using a by (simp_all add: run_op_same manager_ops_unknown)
  have r: "r \<in> process_acts rq n" using a by simp
  have g: "manager_Get (ae_now e) n (as_manager s) = Inl (no_such_process n)"
    using a by (simp add: manager_Get_def)
  show ?thesis
    using r assms(1)
    by (auto simp: process_acts_def handleGetProcess_def handleStartProcess_def handleStopProcess_def ops g
        handleRestartProcess_def handleSignalProcess_def handleWriteStdin_def
        respond_def unknown_status errorCode_def split: if_splits)
next
  assume a: "map_of (mg_groups (as_manager s)) n = None \<and> r \<in> {RStartGroup n, RStopGroup n, RRestartGroup n}"
  then have "StartGroup (ae_envs e) n (as_manager s) = (as_manager s, Some (''no such group: '' @ n))"
    "StopGroup (ae_envs e) n (as_manager s) = (as_manager s, Some (''no such group: '' @ n))"
    "RestartGroup (ae_envs e) (ae_world e) n (as_manager s) = (as_manager s, Some (''no such group: '' @ n))"
    by (simp_all add: StartGroup_def StopGroup_def RestartGroup_def)
  then show ?thesis
    using a unknown_status(2) [of n]
    by (auto simp: handleGroup_def run_op_same respond_def errorCode_def)
qed

section \<open>Readiness\<close>

lemma readiness_names:
  "readiness_of ps = (pending, failing) \<Longrightarrow>
     set pending \<union> set failing = pr_name ` {p \<in> set ps. pr_state p \<noteq> Running}"
  by (force simp: readiness_of_def)

text \<open>
  The readiness probe without a filter is 200 exactly when every process with
  \<open>autostart = true\<close> is RUNNING, and otherwise 503 with the names that are not, those that may still
  come up apart from those that failed.
\<close>

theorem ready_iff_autostart_processes_run:
  assumes "query rq ''process'' = []"
  shows "(rs_status (handleReadyz rq s) = 200 \<longleftrightarrow>
       (\<forall>(n, p)\<in>set (mg_processes (as_manager s)). pc_Autostart (pr_config p) = Some True \<longrightarrow> pr_state p = Running)) \<and>
     (rs_status (handleReadyz rq s) \<noteq> 200 \<longrightarrow> (\<exists>pending failing.
        handleReadyz rq s = writeJSON 503 (JNotReady pending failing) \<and>
        set pending \<union> set failing = pr_name ` {p \<in> snd ` set (mg_processes (as_manager s)).
          pc_Autostart (pr_config p) = Some True \<and> pr_state p \<noteq> Running}))"
proof -
  let ?ps = "sort_slice (\<lambda>a b. pr_name a < pr_name b)
      (filter (\<lambda>p. pc_Autostart (pr_config p) = Some True) (map snd (mg_processes (as_manager s))))"
  let ?late = "{p \<in> snd ` set (mg_processes (as_manager s)).
      pc_Autostart (pr_config p) = Some True \<and> pr_state p \<noteq> Running}"
  obtain pending failing where pf: "readiness_of ?ps = (pending, failing)" by fastforce
  have un: "set pending \<union> set failing = pr_name ` {p \<in> set ?ps. pr_state p \<noteq> Running}"
    by (rule readiness_names [OF pf])
  also have set_ps: "{p \<in> set ?ps. pr_state p \<noteq> Running} = ?late"
    by (auto simp: image_iff)
  finally have un: "set pending \<union> set failing = pr_name ` ?late" .
  have r: "Readiness [] (as_sup s) = Inr (pending, failing)"
    using pf by (simp add: Readiness_def as_manager_def Let_def)
  have h: "handleReadyz rq s = (if pending \<noteq> [] \<or> failing \<noteq> [] then writeJSON 503 (JNotReady pending failing)
      else writeJSON 200 (JObj [(''status'', ''ready'')]))"
    by (simp add: handleReadyz_def assms r)
  have "pending = [] \<and> failing = [] \<longleftrightarrow> set pending \<union> set failing = {}" by auto
  also have "\<dots> \<longleftrightarrow> ?late = {}" unfolding un by simp
  also have "\<dots> \<longleftrightarrow> (\<forall>(n, p)\<in>set (mg_processes (as_manager s)).
      pc_Autostart (pr_config p) = Some True \<longrightarrow> pr_state p = Running)"
    by fastforce
  finally have all: "pending = [] \<and> failing = [] \<longleftrightarrow> (\<forall>(n, p)\<in>set (mg_processes (as_manager s)).
      pc_Autostart (pr_config p) = Some True \<longrightarrow> pr_state p = Running)" .
  show ?thesis
  proof
    show "rs_status (handleReadyz rq s) = 200 \<longleftrightarrow> (\<forall>(n, p)\<in>set (mg_processes (as_manager s)).
        pc_Autostart (pr_config p) = Some True \<longrightarrow> pr_state p = Running)"
      unfolding all [symmetric] h by (auto simp: writeJSON_def)
    show "rs_status (handleReadyz rq s) \<noteq> 200 \<longrightarrow> (\<exists>pending failing.
        handleReadyz rq s = writeJSON 503 (JNotReady pending failing) \<and> set pending \<union> set failing = pr_name ` ?late)"
      using un h by (auto simp: writeJSON_def)
  qed
qed

section \<open>Requests during shutdown\<close>

text \<open>
  A start is refused while the daemon shuts down, but a restart is not: a stopped process
  is spawned by it, after the shutdown has stopped it.
\<close>

theorem restart_accepted_during_shutdown:
  assumes "su_shutting (as_sup s)" and "GetProcess (as_manager s) n = Some p" and "pr_state p = Stopped"
    and "\<not> pr_retired p" and "plain (pr_config p)" and "pc_Startsecs (pr_config p) \<noteq> 0"
    and "ae_envs e n = up_env now pid"
  shows "handle e rq (RStart n) s = (s, Some shutting_down) \<and>
    (\<exists>s'. handle e rq (RRestart n) s =
        (s', Some (writeJSON 200 (JObj [(''status'', ''restarted''), (''name'', n)]))) \<and>
      su_shutting (as_sup s') \<and>
      (\<exists>q. GetProcess (as_manager s') n = Some q \<and> pr_state q = Starting \<and> pr_spawned q = Some pid))"
proof -
  let ?m = "on_process n (\<lambda>q. fst (Start (up_env now pid) q)) (as_manager s)"
  have r: "Restart (ae_envs e) (ae_world e) n (as_manager s) = (?m, None)"
    using assms(2,3,7) Start_up_ok [OF assms(3-5)] by (simp add: Restart_def act_on_def)
  have g: "GetProcess ?m n = Some (fst (Start (up_env now pid) p))" using assms(2) by (simp add: tbl.get_upd)
  have "pr_state (fst (Start (up_env now pid) p)) = Starting" "pr_spawned (fst (Start (up_env now pid) p)) = Some pid"
    using Start_up [OF assms(3-6), of now pid] by (auto simp: fresh_start_def)
  then show ?thesis
    using r g assms(1)
    by (simp add: handleStartProcess_def handleRestartProcess_def run_op_def set_manager_def as_manager_def respond_def)
qed

section \<open>Examples\<close>

text \<open>A server with one user, and requests to it over TCP.\<close>

definition sample_server :: "Supervisor \<Rightarrow> Server" where
  "sample_server sv = \<lparr>as_sup = sv, as_bulk = False, as_user = ''admin'', as_pass = ''hash'', as_ui = True\<rparr>"

definition sample_env :: api_env where
  "sample_env = \<lparr>ae_os = open_os, ae_envs = (\<lambda>_. up_env 0 7), ae_world = (\<lambda>_ _. []), ae_late = (\<lambda>_. False),
     ae_level_ok = (\<lambda>_. True), ae_loaded = ([], Inr web_config), ae_reload_text = (\<lambda>_. []), ae_now = 0,
     ae_bcrypt = (\<lambda>h p. h = ''hash'' \<and> p = ''secret''), ae_origin_host = (\<lambda>_. None), ae_version = [], ae_strip = (\<lambda>_. None)\<rparr>"

definition tcp_request :: "http_method \<Rightarrow> string list \<Rightarrow> (string \<times> string) option \<Rightarrow> request" where
  "tcp_request m p a = \<lparr>rq_method = m, rq_path = p, rq_remote = ''10.0.0.9:4711'', rq_auth = a, rq_query = [],
     rq_fetch_site = [], rq_origin = [], rq_host = ''kahi'', rq_signal = None, rq_data = None\<rparr>"

theorem unknown_names_are_not_found_witness:
  "\<exists>msg. handle sample_env (tcp_request POST [] None) (RStop ''db'') (sample_server (daemon web0)) =
     (sample_server (daemon web0), Some (writeError 404 msg ''NOT_FOUND''))"
  by (rule unknown_names_are_not_found [of _ _ "''db''"])
    (simp_all add: sample_server_def daemon_def as_manager_def process_acts_def)

theorem ready_iff_autostart_processes_run_witness:
  "rs_status (handleReadyz (tcp_request GET [] None) (sample_server (daemon web1))) \<noteq> 200"
proof -
  have "pc_Autostart valid_config = Some True"
    by (simp add: valid_config_def default_program_def sample_program_def zero_program_def unset_def or_default_def Let_def)
  then show ?thesis
    using ready_iff_autostart_processes_run [of "tcp_request GET [] None" "sample_server (daemon web1)"] web1_fields
    by (simp add: query_def tcp_request_def sample_server_def daemon_def as_manager_def mgr_def)
qed

theorem restart_accepted_during_shutdown_witness:
  "\<exists>s'. handle sample_env (tcp_request POST [] None) (RRestart ''web'') (sample_server (Shutdown (daemon web0))) =
        (s', Some (writeJSON 200 (JObj [(''status'', ''restarted''), (''name'', ''web'')]))) \<and>
      su_shutting (as_sup s')"
  using restart_accepted_during_shutdown [of "sample_server (Shutdown (daemon web0))" "''web''" web0 sample_env 0 7]
  by (auto simp: sample_server_def as_manager_def Shutdown_def daemon_def sample_env_def web0_fields
      valid_config_fields New_def)

end
