(* ===== verification/Ctl_Safety.thy ===== *)
theory Ctl_Safety
  imports Ctl_Commands Daemon_Safety Api_Safety
begin

text \<open>
  The client and the daemon together: the calls of \<open>Ctl_Client\<close> answered by the server of \<open>Api_Server\<close>.  An
  operation at the command line is the operation of the manager, its error the manager's, the socket
  the daemon's, and a followed log the one that was written, for as long as the client reads it.
\<close>

section \<open>The wire\<close>

text \<open>
  What the standard library hands the server for a target without escapes and without \<open>.\<close> and \<open>..\<close>: the
  segments of its path and the pairs of its query.
\<close>

definition target_path :: "string \<Rightarrow> string list" where
  "target_path t = split_on (CHR ''/'') (tl (fst (cut (CHR ''?'') t)))"

definition target_query :: "string \<Rightarrow> (string \<times> string) list" where
  "target_query t =
     (case snd (cut (CHR ''?'') t) of
        None \<Rightarrow> []
      | Some q \<Rightarrow> map (\<lambda>kv. case cut (CHR ''='') kv of (k, None) \<Rightarrow> (k, []) | (k, Some v) \<Rightarrow> (k, v)) (split_on (CHR ''&'') q))"

text \<open>\<open>json_signal\<close> is the JSON decoder for the field of a signal body.\<close>

definition request_of :: "(string \<Rightarrow> string option) \<Rightarrow> string \<Rightarrow> call \<Rightarrow> request" where
  "request_of json_signal remote ca =
     \<lparr>rq_method = ca_method ca, rq_path = target_path (ca_target ca), rq_remote = remote, rq_auth = ca_auth ca,
      rq_query = target_query (ca_target ca), rq_fetch_site = [], rq_origin = [], rq_host = [],
      rq_signal = (case ca_body ca of RawBody b \<Rightarrow> json_signal b | _ \<Rightarrow> None),
      rq_data = (case ca_body ca of DataBody d \<Rightarrow> Some d | _ \<Rightarrow> None)\<rparr>"

text \<open>A handler that still waits when the client's timeout ends the call leaves no answer.\<close>

definition server_net :: "api_env \<Rightarrow> (string \<Rightarrow> string option) \<Rightarrow> string \<Rightarrow> Server net" where
  "server_net e json_signal remote ca s =
     (case serve e (request_of json_signal remote ca) s of
        (s', None) \<Rightarrow> (s', NoReply ''Client.Timeout exceeded while awaiting headers'')
      | (s', Some rs) \<Rightarrow> (s', Reply (rs_status rs) (rs_body rs)))"

section \<open>Answers\<close>

definition is_error :: "response \<Rightarrow> bool" where
  "is_error rs \<longleftrightarrow> (\<exists>msg code. rs_body rs = JObj [(''error'', msg), (''code'', code)]) \<and> rs_status rs \<ge> 400"

definition answer_ok :: "Server \<times> response option \<Rightarrow> bool" where
  "answer_ok r \<longleftrightarrow> (case snd r of None \<Rightarrow> True | Some rs \<Rightarrow> rs_status rs = 200 \<or> is_error rs)"

lemma writeError_ok: "400 \<le> status \<Longrightarrow> answer_ok (s, Some (writeError status msg code))"
  by (simp add: answer_ok_def is_error_def writeError_def writeJSON_def)

lemma writeJSON_ok: "answer_ok (s, Some (writeJSON 200 b))"
  by (simp add: answer_ok_def writeJSON_def)

lemma no_answer_ok: "answer_ok (s, None)"
  by (simp add: answer_ok_def)

lemma classifyError_status: "400 \<le> classifyError msg"
  by (simp add: classifyError_def)

lemma run_op_ok: "answer_ok (run_op f ps s)"
  by (simp add: run_op_def respond_def writeError_ok writeJSON_ok classifyError_status split: prod.split option.split)

lemmas answers = writeError_ok writeJSON_ok no_answer_ok run_op_ok classifyError_status

lemma handle_answers: "\<not> is_open r \<Longrightarrow> r \<noteq> RRoot \<Longrightarrow> answer_ok (handle e rq r s)"
  by (cases r) (auto simp: is_open_def handleStartProcess_def handleStopProcess_def handleRestartProcess_def
      handleSignalProcess_def handleWriteStdin_def handleReadLog_def handleStreamLog_def handleGroup_def
      handleReloadConfig_def reload_response_def handleShutdown_def handleBulk_def handleGetProcess_def
      shutting_down_def bad_body_def bad_stream_def answers Let_def
      split: option.splits sum.splits prod.splits if_splits)

lemma unauthorized_ok: "answer_ok (s, Some (unauthorized msg))"
  by (simp add: unauthorized_def answer_ok_def is_error_def writeError_def writeJSON_def)

lemma v1_closed: "buildMux ui (''api'' # ''v1'' # p) = Some (m, r) \<Longrightarrow> \<not> is_open r \<and> r \<noteq> RRoot"
  by (auto simp: buildMux_def v1_route_def process_route_def group_route_def all_route_def is_open_def
      split: list.splits if_splits)


section \<open>Operations\<close>

datatype ctl_op =
    OpStart string | OpStop string | OpRestart string | OpSignal string string | OpStdin string string
  | OpStartGroup string | OpStopGroup string | OpRestartGroup string

fun op_name :: "ctl_op \<Rightarrow> string" where
  "op_name (OpStart n) = n"
| "op_name (OpStop n) = n"
| "op_name (OpRestart n) = n"
| "op_name (OpSignal n _) = n"
| "op_name (OpStdin n _) = n"
| "op_name (OpStartGroup n) = n"
| "op_name (OpStopGroup n) = n"
| "op_name (OpRestartGroup n) = n"

fun client_op :: "'w net \<Rightarrow> Client \<Rightarrow> ctl_op \<Rightarrow> 'w \<Rightarrow> 'w \<times> ctl_error option" where
  "client_op net c (OpStart n) = client_Start net c n"
| "client_op net c (OpStop n) = client_Stop net c n"
| "client_op net c (OpRestart n) = client_Restart net c n"
| "client_op net c (OpSignal n sg) = client_Signal net c n sg"
| "client_op net c (OpStdin n d) = client_WriteStdin net c n d"
| "client_op net c (OpStartGroup n) = client_StartGroup net c n"
| "client_op net c (OpStopGroup n) = client_StopGroup net c n"
| "client_op net c (OpRestartGroup n) = client_RestartGroup net c n"

fun manager_op :: "api_env \<Rightarrow> ctl_op \<Rightarrow> Manager \<Rightarrow> Manager \<times> string option" where
  "manager_op e (OpStart n) = manager_Start (ae_envs e) n"
| "manager_op e (OpStop n) = manager_Stop (ae_envs e) n"
| "manager_op e (OpRestart n) = Restart (ae_envs e) (ae_world e) n"
| "manager_op e (OpSignal n sg) = manager_Signal (ae_envs e) n sg"
| "manager_op e (OpStdin n d) = manager_WriteStdin (ae_envs e) n (d @ [LF])"
| "manager_op e (OpStartGroup n) = StartGroup (ae_envs e) n"
| "manager_op e (OpStopGroup n) = StopGroup (ae_envs e) n"
| "manager_op e (OpRestartGroup n) = RestartGroup (ae_envs e) (ae_world e) n"

text \<open>A name that is one segment of a path: the client does not escape it.\<close>

definition plain_name :: "string \<Rightarrow> bool" where
  "plain_name n \<longleftrightarrow> n \<noteq> [] \<and> n \<noteq> ''.'' \<and> n \<noteq> ''..'' \<and>
     (\<forall>c\<in>set n. is_letter c \<or> is_digit c \<or> c \<in> {CHR ''-'', CHR ''_'', CHR ''.'', CHR '':'', CHR ''~''})"

definition has_access :: "api_env \<Rightarrow> string \<Rightarrow> Client \<Rightarrow> Server \<Rightarrow> bool" where
  "has_access e remote c s \<longleftrightarrow> remote = [] \<or> remote = ''@'' \<or> as_user s = [] \<or>
     cl_username c = as_user s \<and> checkPassword e (cl_password c) (as_pass s)"

lemma plain_name_free: "plain_name n \<Longrightarrow> CHR ''/'' \<notin> set n \<and> CHR ''?'' \<notin> set n"
  by (auto simp: plain_name_def is_letter_def is_lower_def is_upper_def is_digit_def in_range_def)

lemma requireAuth_access:
  "has_access e remote c s \<Longrightarrow> rq_remote rq = remote \<Longrightarrow> rq_auth rq = ca_auth (do_call c m t b) \<Longrightarrow>
   requireAuth e rq h s = h s"
  by (auto simp: has_access_def requireAuth_def isUnixConn_def do_call_def)

lemma target_no_query: "CHR ''?'' \<notin> set t \<Longrightarrow> target_path t = split_on (CHR ''/'') (tl t)"
  by (simp add: target_path_def cut_free)

lemma op_paths:
  assumes "plain_name n" and "CHR ''/'' \<notin> set act" and "CHR ''?'' \<notin> set act"
  shows "target_path (process_target n (CHR ''/'' # act)) = [''api'', ''v1'', ''processes'', n, act]"
    and "target_path (group_target n (CHR ''/'' # act)) = [''api'', ''v1'', ''groups'', n, act]"
proof -
  have "split_on (CHR ''/'') (n @ CHR ''/'' # act) = [n, act]"
    using assms plain_name_free by (simp add: split_on_append)
  then show "target_path (process_target n (CHR ''/'' # act)) = [''api'', ''v1'', ''processes'', n, act]"
      "target_path (group_target n (CHR ''/'' # act)) = [''api'', ''v1'', ''groups'', n, act]"
    using assms plain_name_free by (simp_all add: target_no_query process_target_def group_target_def)
qed

text \<open>The target, the body and the route of an operation.\<close>

fun op_target :: "ctl_op \<Rightarrow> string" where
  "op_target (OpStart n) = process_target n ''/start''"
| "op_target (OpStop n) = process_target n ''/stop''"
| "op_target (OpRestart n) = process_target n ''/restart''"
| "op_target (OpSignal n sg) = process_target n ''/signal''"
| "op_target (OpStdin n d) = process_target n ''/stdin''"
| "op_target (OpStartGroup n) = group_target n ''/start''"
| "op_target (OpStopGroup n) = group_target n ''/stop''"
| "op_target (OpRestartGroup n) = group_target n ''/restart''"

fun op_body :: "ctl_op \<Rightarrow> call_body" where
  "op_body (OpSignal n sg) = RawBody (signal_body sg)"
| "op_body (OpStdin n d) = DataBody (d @ [LF])"
| "op_body _ = NoBody"

fun op_route :: "ctl_op \<Rightarrow> route" where
  "op_route (OpStart n) = RStart n"
| "op_route (OpStop n) = RStop n"
| "op_route (OpRestart n) = RRestart n"
| "op_route (OpSignal n sg) = RSignal n"
| "op_route (OpStdin n d) = RStdin n"
| "op_route (OpStartGroup n) = RStartGroup n"
| "op_route (OpStopGroup n) = RStopGroup n"
| "op_route (OpRestartGroup n) = RRestartGroup n"

lemma client_op_post: "client_op net c op = post net c (op_target op) (op_body op)"
  by (cases op) (simp_all add: client_Start_def client_Stop_def client_Restart_def client_Signal_def
      client_WriteStdin_def client_StartGroup_def client_StopGroup_def client_RestartGroup_def)

lemma op_routed:
  assumes "plain_name (op_name op)"
  shows "\<exists>p. target_path (op_target op) = ''api'' # ''v1'' # p \<and> v1_route p = Some (POST, op_route op)"
  using assms op_paths [OF assms]
  by (cases op) (auto simp: v1_route_def process_route_def group_route_def plain_name_def)

lemma op_handled:
  assumes "\<And>n. op = OpStart n \<Longrightarrow> \<not> su_shutting (as_sup s)"
    and "\<And>n sg. op = OpSignal n sg \<Longrightarrow> sg \<noteq> [] \<and> js (signal_body sg) = Some sg"
  shows "\<exists>ok. handle e (request_of js remote (do_call c POST t (op_body op))) (op_route op) s = run_op (manager_op e op) ok s"
  using assms
  by (cases op) (auto simp: request_of_def do_call_def handleStartProcess_def handleStopProcess_def handleRestartProcess_def
      handleSignalProcess_def handleWriteStdin_def handleGroup_def)

lemma post_op:
  assumes "target_path t = ''api'' # ''v1'' # p" and "v1_route p = Some (POST, r)" and "has_access e remote c s"
    and "handle e (request_of js remote (do_call c POST t b)) r s = run_op f ok s"
  shows "post (server_net e js remote) c t b s = (set_manager (fst (f (as_manager s))) s, map_option Answered (snd (f (as_manager s))))"
proof -
  let ?rq = "request_of js remote (do_call c POST t b)"
  have rq: "rq_path ?rq = ''api'' # ''v1'' # p" "rq_method ?rq = POST" "rq_origin ?rq = []" "rq_fetch_site ?rq = []"
    "rq_remote ?rq = remote" "rq_auth ?rq = ca_auth (do_call c POST t b)"
    using assms(1) by (simp_all add: request_of_def do_call_def)
  have m: "buildMux (as_ui s) (rq_path ?rq) = Some (POST, r)"
    using rq assms(2) by (simp add: buildMux_def)
  then have "\<not> is_open r" using v1_closed [of "as_ui s" p] rq(1) by simp
  then have sv: "serve e ?rq s = run_op f ok s"
    using rq m requireAuth_access [OF assms(3) rq(5,6)] assms(4)
    by (simp add: serve_def cross_origin_def mux_find_def)
  show ?thesis
    by (cases "snd (f (as_manager s))")
      (simp_all add: post_def doJSON_def server_net_def sv run_op_def respond_def writeError_def writeJSON_def
        case_prod_beta error_field_def not_less classifyError_status linorder_not_le [symmetric])
qed


section \<open>Following a log\<close>

text \<open>The events of a stream that arrive before the client's timeout.\<close>

definition in_time :: "(int \<times> 'a) list \<Rightarrow> (int \<times> 'a) list" where
  "in_time = takeWhile (\<lambda>(at, _). at < clientTimeout)"

lemma in_time_simps:
  "in_time [] = []" "in_time ((at, x) # evs) = (if at < clientTimeout then (at, x) # in_time evs else [])"
  by (simp_all add: in_time_def)

definition frames :: "(int \<times> string) list \<Rightarrow> (int \<times> stream_event) list" where
  "frames outs = map (\<lambda>(at, d). (at, Chunk (writeSSEData d))) outs"

lemma read_stream_frames:
  "read_stream (frames outs @ rest) =
     (if in_time outs = outs then (let (t, r) = read_stream rest in (concat (map (writeSSEData \<circ> snd) outs) @ t, r))
      else (concat (map (writeSSEData \<circ> snd) (in_time outs)), Some StreamTimedOut))"
proof (induction outs)
  case Nil
  show ?case by (simp add: frames_def in_time_simps case_prod_beta)
next
  case (Cons x outs)
  obtain at d where x: "x = (at, d)" by (cases x)
  then show ?case using Cons.IH
    by (cases "at < clientTimeout") (simp_all add: frames_def in_time_simps case_prod_beta Let_def comp_def)
qed

lemma copy_frames: "copySSEData (concat (map (writeSSEData \<circ> snd) outs)) = concat (map (sseLineEnds \<circ> snd) outs)"
  by (induction outs) (simp_all add: copySSEData_frame copySSEData_Nil)

text \<open>
  C36 (error).  Following a log ends after 30 seconds: \<open>tail -f\<close> prints exactly the output that arrives before the
  client's request timeout, line ends normalised, and then fails with a timeout error although the process
  still runs and writes: the timeout covers the reading of the stream.
\<close>

theorem follow_is_cut_off:
  assumes "net (do_call c GET (process_target name (''/log/'' @ default_stream stream @ ''/stream'')) NoBody) w = (w', Reply 200 b)"
  shows "TailFollow net c name stream (frames outs) w =
     (w', concat (map (sseLineEnds \<circ> snd) (in_time outs)), Some StreamTimedOut)"
proof -
  have "read_stream (frames outs) = (concat (map (writeSSEData \<circ> snd) (in_time outs)), Some StreamTimedOut)"
    using read_stream_frames [of outs "[]"] by (auto split: if_splits)
  then show ?thesis using assms by (simp add: TailFollow_def copy_frames)
qed

section \<open>The daemon's socket\<close>

lemma expand_plain_string:
  assumes "CHR ''%'' \<notin> set s" and "CHR ''$'' \<notin> set s" shows "expandString env ctx s = Inr s"
proof -
  have "escape s = s" using assms by (induction s) auto
  moreover have "replace_all ''%%'' ''%'' s = s" "replace_all ''$$'' ''$'' s = s"
    using assms by (induction s) (auto simp: has_prefix_def)
  ultimately show ?thesis
    using expandTemplateVars_escape [of ctx s] expandEnvVars_escape [of env s] by (simp add: expandString_def and_then_def)
qed

lemma loaded_socket:
  assumes "LoadWithIncludes e fuel path = Some (w, Inr cfg)"
  obtains cfg0 ctx where "snd (Load e path) = Inr cfg0"
    "expandString (ce_lookup_env e) ctx (ux_File (sc_Unix (cf_Server cfg0))) = Inr (ux_File (sc_Unix (cf_Server cfg)))"
proof -
  obtain w0 cfg0 cfg1 where l: "Load e path = (w0, Inr cfg0)"
      and x: "ExpandVariables (ce_dir e) (ce_lookup_env e) path cfg0 = Inr cfg1" and c: "cf_Server cfg = cf_Server cfg1"
    using loaded_server [OF assms] by blast
  obtain ctx where "expandString (ce_lookup_env e) ctx (ux_File (sc_Unix (cf_Server cfg0))) =
      Inr (ux_File (sc_Unix (cf_Server cfg1)))"
    using x by (auto simp: ExpandVariables_def Let_def and_then_Inr)
  then show ?thesis using that l c by simp
qed

text \<open>
  Without flags and \<open>KAHI_SOCKET\<close>, the client that reads the daemon's configuration file dials
  the path as it is written there, of which the daemon's socket is the expansion: they are the same
  socket for every path without a variable.
\<close>

theorem client_dials_the_configured_socket:
  assumes "LoadWithIncludes e fuel path = Some (w, Inr cfg)" and "ux_File (sc_Unix (cf_Server cfg)) \<noteq> []"
    and "Resolve exists config_env (cf_config fl) = Inr path" and "cf_addr fl = []" and "cf_socket fl = []"
  shows "\<exists>p ctx. newCtlClient e exists [] config_env fl = NewUnixClient p \<and>
     expandString (ce_lookup_env e) ctx p = Inr (ux_File (sc_Unix (cf_Server cfg))) \<and>
     (CHR ''%'' \<notin> set p \<and> CHR ''$'' \<notin> set p \<longrightarrow> p = ux_File (sc_Unix (cf_Server cfg)))"
proof -
  obtain cfg0 ctx where l: "snd (Load e path) = Inr cfg0"
      and x: "expandString (ce_lookup_env e) ctx (ux_File (sc_Unix (cf_Server cfg0))) = Inr (ux_File (sc_Unix (cf_Server cfg)))"
    using loaded_socket [OF assms(1)] by blast
  let ?p = "ux_File (sc_Unix (cf_Server cfg0))"
  have "?p \<noteq> []" using x assms(2) by (auto simp: expandString_def)
  then have "newCtlClient e exists [] config_env fl = NewUnixClient ?p"
    using assms(3,4,5) l by (simp add: newCtlClient_def resolveSocketFromConfig_def)
  moreover have "CHR ''%'' \<notin> set ?p \<Longrightarrow> CHR ''$'' \<notin> set ?p \<Longrightarrow> ?p = ux_File (sc_Unix (cf_Server cfg))"
    using x expand_plain_string [of ?p] by simp
  ultimately show ?thesis using x by blast
qed

section \<open>Witnesses\<close>



theorem follow_is_cut_off_witness:
  "snd (snd (TailFollow (\<lambda>_ w. (w, Reply 200 (LogStream ''web'' ProcessLogStdout))) (NewUnixClient ''/run/kahi.sock'') ''web'' []
     (frames [(1000000000, ''up''), (31000000000, ''still up'')]) ())) = Some StreamTimedOut"
  by (subst follow_is_cut_off) simp_all

theorem client_dials_the_configured_socket_witness:
  "\<exists>p ctx. newCtlClient one_file (\<lambda>_. True) [] [] \<lparr>cf_socket = [], cf_config = ''a'', cf_addr = [], cf_user = [], cf_pass = []\<rparr> =
       NewUnixClient p \<and> expandString (ce_lookup_env one_file) ctx p = Inr RootSocketPath"
proof -
  obtain w where l: "LoadWithIncludes one_file 0 ''a'' = Some (w, Inr bare_config)" using bare_config_loads by blast
  have f: "ux_File (sc_Unix (cf_Server bare_config)) = RootSocketPath"
    by (simp add: bare_config_def ApplyDefaults_def sample_config_def default_unix_def or_default_def)
  show ?thesis
    using client_dials_the_configured_socket [OF l, of "\<lambda>_. True" "[]"
        "\<lparr>cf_socket = [], cf_config = ''a'', cf_addr = [], cf_user = [], cf_pass = []\<rparr>"]
    by (simp add: f Resolve_def resolve_def RootSocketPath_def) blast
qed

end
