(* ===== verification/Api_Listener.thy ===== *)
theory Api_Listener
  imports Daemon_Safety
begin

text \<open>
  The two HTTP servers of \<open>internal/api/api.go\<close> while they serve and when they stop, and the deferred stop at the end
  of \<open>daemonRun\<close>.  Of \<open>net/http\<close> the model has what its documentation says of \<open>Serve\<close>, \<open>Shutdown\<close> and \<open>Close\<close>.
  A client is the time it connects, the time its request header is complete and the time its request is answered; a
  stream is never answered.  Times are nanoseconds.
\<close>

section \<open>Servers\<close>

record client =
  cl_start :: int
  cl_header :: "int option"
  cl_end :: "int option"

text \<open>\<open>hs_clients\<close> is everyone who ever connects, the error fields what closing answers.\<close>

record http_server =
  hs_header_timeout :: int
  hs_listening :: bool
  hs_clients :: "client list"
  hs_open :: "client list"
  hs_listener_error :: "string option"
  hs_close_error :: "string option"

definition second :: int where "second = 10 ^ 9"
definition readHeaderTimeout :: int where "readHeaderTimeout = 10 * second"
definition apiStopTimeout :: int where "apiStopTimeout = 5 * second"

text \<open>Only the header read is bounded; \<open>world\<close> is who will connect and what closing answers.\<close>

record listener_world =
  lw_clients :: "client list"
  lw_listener_error :: "string option"
  lw_close_error :: "string option"

definition newHTTPServer :: "listener_world \<Rightarrow> http_server" where
  "newHTTPServer w =
     \<lparr>hs_header_timeout = readHeaderTimeout, hs_listening = True, hs_clients = lw_clients w, hs_open = [],
      hs_listener_error = lw_listener_error w, hs_close_error = lw_close_error w\<rparr>"

record listeners =
  unixLn :: "string option"
  tcpLn :: "string option"
  unixServer :: "http_server option"
  tcpServer :: "http_server option"

definition no_listeners :: listeners where
  "no_listeners = \<lparr>unixLn = None, tcpLn = None, unixServer = None, tcpServer = None\<rparr>"

text \<open>What the effects of a start leave: a server per socket that is served.\<close>

fun serve_effect :: "listener_world \<Rightarrow> listener_world \<Rightarrow> start_effect \<Rightarrow> listeners \<Rightarrow> listeners" where
  "serve_effect wu wt (ServeUnix p) l = l\<lparr>unixLn := Some p, unixServer := Some (newHTTPServer wu)\<rparr>"
| "serve_effect wu wt (BindTCP a) l = l\<lparr>tcpLn := Some a, tcpServer := Some (newHTTPServer wt)\<rparr>"
| "serve_effect wu wt eff l = l"

definition listeners_after :: "listener_world \<Rightarrow> listener_world \<Rightarrow> start_effect list \<Rightarrow> listeners" where
  "listeners_after wu wt effs = fold (serve_effect wu wt) effs no_listeners"

definition UnixAddr :: "listeners \<Rightarrow> string" where
  "UnixAddr l = (case unixLn l of Some a \<Rightarrow> a | None \<Rightarrow> [])"

definition TCPAddr :: "listeners \<Rightarrow> string" where
  "TCPAddr l = (case tcpLn l of Some a \<Rightarrow> a | None \<Rightarrow> [])"

section \<open>Connections\<close>

text \<open>A connection whose header is late is closed; any other lasts until its request is answered.\<close>

definition conn_end :: "http_server \<Rightarrow> client \<Rightarrow> int option" where
  "conn_end srv c =
     (let limit = cl_start c + hs_header_timeout srv in
      case cl_header c of
        None \<Rightarrow> Some limit
      | Some t \<Rightarrow> if t \<le> limit then cl_end c else Some limit)"

definition ended :: "http_server \<Rightarrow> int \<Rightarrow> client \<Rightarrow> bool" where
  "ended srv now c = (case conn_end srv c of None \<Rightarrow> False | Some t \<Rightarrow> t \<le> now)"

text \<open>The connections at a time, while the server listens and after it stopped listening.\<close>

definition connections :: "int \<Rightarrow> http_server \<Rightarrow> client list" where
  "connections now srv =
     (if hs_listening srv then filter (\<lambda>c. cl_start c \<le> now \<and> \<not> ended srv now c) (hs_clients srv)
      else filter (\<lambda>c. \<not> ended srv now c) (hs_open srv))"

text \<open>
  \<open>Server.Shutdown\<close>: it closes the listener, then looks for open connections and, while there are any, again after
  the intervals of a timer until the context expires.  \<open>polls\<close> are those intervals.
\<close>

fun await_idle :: "int \<Rightarrow> http_server \<Rightarrow> nat list \<Rightarrow> int \<Rightarrow> int \<times> bool" where
  "await_idle deadline srv [] now =
     (if list_all (ended srv now) (hs_open srv) then (now, True) else (max now deadline, False))"
| "await_idle deadline srv (d # ds) now =
     (if list_all (ended srv now) (hs_open srv) then (now, True)
      else if deadline < now + int d then (max now deadline, False)
      else await_idle deadline srv ds (now + int d))"

definition srv_Shutdown :: "nat list \<Rightarrow> int \<Rightarrow> int \<Rightarrow> http_server \<Rightarrow> http_server \<times> int \<times> string option" where
  "srv_Shutdown polls deadline now srv =
     (let srv = srv\<lparr>hs_listening := False, hs_open := connections now srv\<rparr>;
          (t, idle) = await_idle deadline srv polls now;
          srv = srv\<lparr>hs_open := connections t srv\<rparr> in
      (srv, t, if idle then hs_listener_error srv else Some ''context deadline exceeded''))"

definition srv_Close :: "http_server \<Rightarrow> http_server \<times> string option" where
  "srv_Close srv = (srv\<lparr>hs_listening := False, hs_open := []\<rparr>, hs_close_error srv)"

section \<open>Stop\<close>

text \<open>One turn of the loop: the server, the time, the errors, and the connections that are cut.\<close>

definition stop_server :: "nat list \<Rightarrow> int \<Rightarrow> int \<Rightarrow> http_server \<Rightarrow> http_server \<times> int \<times> string list \<times> client list" where
  "stop_server polls deadline now srv =
     (case srv_Shutdown polls deadline now srv of
        (srv1, t, None) \<Rightarrow> (srv1, t, [], [])
      | (srv1, t, Some err) \<Rightarrow>
          if deadline \<le> t then
            (case srv_Close srv1 of
               (srv2, None) \<Rightarrow> (srv2, t, [err], hs_open srv1)
             | (srv2, Some cerr) \<Rightarrow> (srv2, t, [err, cerr], hs_open srv1))
          else (srv1, t, [err], []))"

definition stop_one ::
  "nat list \<Rightarrow> int \<Rightarrow> int \<Rightarrow> http_server option \<Rightarrow> http_server option \<times> int \<times> string list \<times> client list" where
  "stop_one polls deadline now srv =
     (case srv of
        None \<Rightarrow> (None, now, [], [])
      | Some s \<Rightarrow> (case stop_server polls deadline now s of (s', t, errs, gone) \<Rightarrow> (Some s', t, errs, gone)))"

record stopped =
  sd_listeners :: listeners
  sd_time :: int
  sd_error :: "string option"
  sd_cut :: "client list"

definition Stop_api :: "nat list \<Rightarrow> nat list \<Rightarrow> int \<Rightarrow> int \<Rightarrow> listeners \<Rightarrow> stopped" where
  "Stop_api polls1 polls2 deadline now l =
     (let (u, t1, errs1, cut1) = stop_one polls1 deadline now (unixServer l);
          (c, t2, errs2, cut2) = stop_one polls2 deadline t1 (tcpServer l);
          errs = errs1 @ errs2 in
      \<lparr>sd_listeners = l\<lparr>unixServer := u, tcpServer := c\<rparr>, sd_time = t2,
       sd_error = (if errs \<noteq> [] then Some (''server shutdown errors: ['' @ join '' '' errs @ '']'') else None),
       sd_cut = cut1 @ cut2\<rparr>)"

text \<open>The deferred stop of \<open>daemonRun\<close>, after \<open>sup.Run\<close> returned.\<close>

definition deferred_stop :: "nat list \<Rightarrow> nat list \<Rightarrow> int \<Rightarrow> listeners \<Rightarrow> stopped" where
  "deferred_stop polls1 polls2 now l = Stop_api polls1 polls2 (now + apiStopTimeout) now l"

section \<open>Stopping ends in time\<close>

definition quiet :: "http_server option \<Rightarrow> bool" where
  "quiet srv = (case srv of None \<Rightarrow> True | Some s \<Rightarrow> \<not> hs_listening s \<and> hs_open s = [])"

lemma await_idle_time:
  "now \<le> deadline \<Longrightarrow> await_idle deadline srv polls now = (t, idle) \<Longrightarrow> now \<le> t \<and> t \<le> deadline"
proof (induction polls arbitrary: now)
  case (Cons d ds)
  show ?case using Cons.IH [of "now + int d"] Cons.prems by (auto split: if_splits)
qed (auto split: if_splits)

lemma await_idle_done:
  "await_idle deadline srv polls now = (t, True) \<Longrightarrow> list_all (ended srv t) (hs_open srv)"
  by (induction polls arbitrary: now) (auto split: if_splits)

lemma await_idle_expired:
  "await_idle deadline srv polls now = (t, False) \<Longrightarrow> now \<le> deadline \<Longrightarrow> t = deadline"
  by (induction polls arbitrary: now) (auto split: if_splits)

lemma ended_update [simp]: "ended (srv\<lparr>hs_listening := b\<rparr>) = ended srv" "ended (srv\<lparr>hs_open := cs\<rparr>) = ended srv"
  by (simp_all add: ended_def conn_end_def fun_eq_iff)

lemma srv_Shutdown_ends:
  assumes "now \<le> deadline" and "srv_Shutdown polls deadline now srv = (srv1, t, err)"
  shows "now \<le> t \<and> t \<le> deadline \<and> \<not> hs_listening srv1 \<and> list_all (\<lambda>c. \<not> ended srv t c) (hs_open srv1) \<and>
    (hs_open srv1 \<noteq> [] \<longrightarrow> t = deadline \<and> err \<noteq> None)"
proof -
  define s where "s = srv\<lparr>hs_listening := False, hs_open := connections now srv\<rparr>"
  have s: "ended s = ended srv" "\<not> hs_listening s" by (simp_all add: s_def)
  obtain idle where w: "await_idle deadline s polls now = (t, idle)" "srv1 = s\<lparr>hs_open := connections t s\<rparr>"
    "err = (if idle then hs_listener_error s else Some ''context deadline exceeded'')"
    using assms(2) unfolding srv_Shutdown_def s_def Let_def by (auto split: prod.splits)
  have "hs_open srv1 = []" if idle
    using await_idle_done [of deadline s polls now t] w s that
    by (auto simp: connections_def list_all_iff filter_empty_conv)
  moreover have "t = deadline" if "\<not> idle"
    using await_idle_expired [of deadline s polls now t] w that assms(1) by simp
  ultimately show ?thesis
    using await_idle_time [OF assms(1) w(1)] w s by (auto simp: connections_def list_all_iff)
qed

text \<open>What one turn of the loop gives: its time, a quiet server, and who is cut.\<close>

lemma stop_server_ends:
  assumes "now \<le> deadline" and "stop_server polls deadline now srv = (srv', t, errs, gone)"
  shows "now \<le> t \<and> t \<le> deadline \<and> \<not> hs_listening srv' \<and> hs_open srv' = [] \<and>
    (\<forall>c\<in>set gone. \<not> ended srv deadline c)"
proof -
  obtain srv1 err where s: "srv_Shutdown polls deadline now srv = (srv1, t, err)"
    using assms(2) by (cases "srv_Shutdown polls deadline now srv")
      (auto simp: stop_server_def srv_Close_def split: option.splits if_splits)
  show ?thesis
    using srv_Shutdown_ends [OF assms(1) s] assms(2) s
    by (auto simp: stop_server_def srv_Close_def list_all_iff split: option.splits if_splits)
qed

lemma stop_one_ends:
  assumes "now \<le> deadline" and "stop_one polls deadline now srv = (srv', t, errs, gone)"
  shows "now \<le> t \<and> t \<le> deadline \<and> quiet srv' \<and> (\<forall>c\<in>set gone. \<exists>s. srv = Some s \<and> \<not> ended s deadline c)"
proof (cases srv)
  case None
  then show ?thesis using assms by (simp add: stop_one_def quiet_def)
next
  case (Some s)
  then obtain s' where "stop_server polls deadline now s = (s', t, errs, gone)" "srv' = Some s'"
    using assms(2) by (auto simp: stop_one_def split: prod.splits)
  then show ?thesis using stop_server_ends [OF assms(1)] Some by (fastforce simp: quiet_def)
qed

lemma listeners_after_servers:
  "unixServer (listeners_after wu wt effs) \<in> {None, Some (newHTTPServer wu)} \<and>
   tcpServer (listeners_after wu wt effs) \<in> {None, Some (newHTTPServer wt)}"
  unfolding listeners_after_def
proof (rule fold_invariant [where Q = "\<lambda>_. True"])
  fix eff and l :: listeners
  assume "unixServer l \<in> {None, Some (newHTTPServer wu)} \<and> tcpServer l \<in> {None, Some (newHTTPServer wt)}"
  then show "unixServer (serve_effect wu wt eff l) \<in> {None, Some (newHTTPServer wu)} \<and>
      tcpServer (serve_effect wu wt eff l) \<in> {None, Some (newHTTPServer wt)}"
    by (cases eff) auto
qed (simp_all add: no_listeners_def)

lemma ended_newHTTPServer: "ended (newHTTPServer w) = ended (newHTTPServer w')"
  by (simp add: newHTTPServer_def ended_def conn_end_def fun_eq_iff)

text \<open>
  C19 (liveness).  Once the run loop has returned, the daemon command returns within five seconds, whatever its clients
  do: its servers no longer listen, no connection is left, and a connection was cut only when its request was
  still not answered at the end of the five seconds.
\<close>

theorem exit_waits_at_most_five_seconds:
  "let l = listeners_after wu wt effs; r = deferred_stop polls1 polls2 now l in
     now \<le> sd_time r \<and> sd_time r \<le> now + 5 * second \<and>
     quiet (unixServer (sd_listeners r)) \<and> quiet (tcpServer (sd_listeners r)) \<and>
     list_all (\<lambda>c. \<not> ended (newHTTPServer wu) (now + 5 * second) c) (sd_cut r)"
proof -
  define l d where "l = listeners_after wu wt effs" and "d = now + apiStopTimeout"
  have d: "now \<le> d" "d = now + 5 * second" by (simp_all add: d_def apiStopTimeout_def second_def)
  obtain u t1 e1 c1 where u: "stop_one polls1 d now (unixServer l) = (u, t1, e1, c1)" by (metis prod_cases4)
  note U = stop_one_ends [OF d(1) u]
  then have t1: "t1 \<le> d" by simp
  obtain t t2 e2 c2 where t: "stop_one polls2 d t1 (tcpServer l) = (t, t2, e2, c2)" by (metis prod_cases4)
  note T = stop_one_ends [OF t1 t]
  have r: "deferred_stop polls1 polls2 now l =
      \<lparr>sd_listeners = l\<lparr>unixServer := u, tcpServer := t\<rparr>, sd_time = t2,
       sd_error = (if e1 @ e2 \<noteq> [] then Some (''server shutdown errors: ['' @ join '' '' (e1 @ e2) @ '']'') else None),
       sd_cut = c1 @ c2\<rparr>"
    unfolding deferred_stop_def d_def [symmetric] Stop_api_def u t Let_def prod.case ..
  have "\<not> ended (newHTTPServer wu) d c" if "c \<in> set (c1 @ c2)" for c
    using that U T listeners_after_servers [of wu wt effs, folded l_def] ended_newHTTPServer [of wu wt] by auto
  then show ?thesis
    unfolding Let_def l_def [symmetric] r using U T d by (auto simp: list_all_iff)
qed

text \<open>
  The two servers stop one after the other: while a stream holds the first, the second still accepts.  A client that
  connects to the TCP address two seconds after the stop began is served.
\<close>

definition stream_client :: client where
  "stream_client = \<lparr>cl_start = 0, cl_header = Some 0, cl_end = None\<rparr>"

definition late_client :: client where
  "late_client = \<lparr>cl_start = 2 * second, cl_header = Some (2 * second), cl_end = None\<rparr>"

lemma tcp_accepts_while_unix_stops:
  "sd_cut (deferred_stop [] [] 0 (listeners_after
      \<lparr>lw_clients = [stream_client], lw_listener_error = None, lw_close_error = None\<rparr>
      \<lparr>lw_clients = [late_client], lw_listener_error = None, lw_close_error = None\<rparr> [ServeUnix ''k'', BindTCP ''a'']))
   = [stream_client, late_client]"
  by (simp add: deferred_stop_def Stop_api_def stop_one_def stop_server_def srv_Shutdown_def srv_Close_def
      listeners_after_def newHTTPServer_def no_listeners_def connections_def ended_def conn_end_def stream_client_def
      late_client_def apiStopTimeout_def readHeaderTimeout_def second_def Let_def)

section \<open>Slow clients\<close>

text \<open>A client that does not complete its header is gone ten seconds after it connected, credentials or not.\<close>

lemma slow_header_is_closed:
  assumes "\<And>t. cl_header c = Some t \<Longrightarrow> cl_start c + readHeaderTimeout < t"
  shows "c \<notin> set (connections now (newHTTPServer w)) \<or> now < cl_start c + 10 * second"
  using assms
  by (cases "cl_header c") (auto simp: connections_def newHTTPServer_def ended_def conn_end_def readHeaderTimeout_def)

text \<open>A stream is never closed by a timeout of the server.\<close>

lemma streams_are_kept:
  assumes "c \<in> set (lw_clients w)" and "cl_start c \<le> now" and "cl_end c = None"
    and "cl_header c = Some t" and "t \<le> cl_start c + readHeaderTimeout"
  shows "c \<in> set (connections now (newHTTPServer w))"
  using assms by (simp add: connections_def newHTTPServer_def ended_def conn_end_def)

end
