(* ===== verification/Umask_Section.thy ===== *)
theory Umask_Section
  imports Daemon_Safety
begin

text \<open>
  \<open>ListenUnix\<close> of \<open>internal/sockutil/listen_unix.go\<close> under concurrency.  The umask belongs to the whole process, so the
  calls of several goroutines share it; a mutex keeps them apart.  Each call is the sequence of its system calls,
  and the calls interleave in any order.  With \<open>locked\<close> false the mutex is left out.
\<close>

unbundle bit_operations_syntax

section \<open>The critical section\<close>

text \<open>Where a call is; what it read as the umask of before goes with it.\<close>

datatype call = Waiting | Entered | Strict mode | Tight mode | Bound mode | Restored | Done

record sockets =
  sk_umask :: mode
  sk_owner :: "nat option"
  sk_calls :: "call list"
  sk_modes :: "mode list"

definition set_call :: "nat \<Rightarrow> call \<Rightarrow> sockets \<Rightarrow> sockets" where
  "set_call i c s = s\<lparr>sk_calls := (sk_calls s)[i := c]\<rparr>"

definition call_at :: "sockets \<Rightarrow> nat \<Rightarrow> call option" where
  "call_at s i = (if i < length (sk_calls s) then Some (sk_calls s ! i) else None)"

text \<open>The next system call of a call; the deferred calls restore the umask and then release the mutex.\<close>

inductive umask_step :: "bool \<Rightarrow> sockets \<Rightarrow> sockets \<Rightarrow> bool" for locked where
  lock: "call_at s i = Some Waiting \<Longrightarrow> (locked \<longrightarrow> sk_owner s = None) \<Longrightarrow>
     umask_step locked s (set_call i Entered (s\<lparr>sk_owner := Some i\<rparr>))"
| read_mask: "call_at s i = Some Entered \<Longrightarrow>
     umask_step locked s (set_call i (Strict (sk_umask s)) (s\<lparr>sk_umask := o777\<rparr>))"
| tighten: "call_at s i = Some (Strict old) \<Longrightarrow>
     umask_step locked s (set_call i (Tight old) (s\<lparr>sk_umask := old OR o077\<rparr>))"
| bind: "call_at s i = Some (Tight old) \<Longrightarrow>
     umask_step locked s (set_call i (Bound old) (s\<lparr>sk_modes := sk_modes s @ [o777 AND NOT (sk_umask s)]\<rparr>))"
| bind_fails: "call_at s i = Some (Tight old) \<Longrightarrow> umask_step locked s (set_call i (Bound old) s)"
| restore: "call_at s i = Some (Bound old) \<Longrightarrow>
     umask_step locked s (set_call i Restored (s\<lparr>sk_umask := old\<rparr>))"
| unlock: "call_at s i = Some Restored \<Longrightarrow>
     umask_step locked s (set_call i Done (s\<lparr>sk_owner := None\<rparr>))"

definition sockets0 :: "mode \<Rightarrow> nat \<Rightarrow> sockets" where
  "sockets0 inherited n = \<lparr>sk_umask = inherited, sk_owner = None, sk_calls = replicate n Waiting, sk_modes = []\<rparr>"

inductive umask_runs :: "bool \<Rightarrow> mode \<Rightarrow> nat \<Rightarrow> sockets \<Rightarrow> bool" for locked inherited n where
  runs_begin: "umask_runs locked inherited n (sockets0 inherited n)"
| runs_on: "umask_runs locked inherited n s \<Longrightarrow> umask_step locked s s' \<Longrightarrow> umask_runs locked inherited n s'"

section \<open>The mutex keeps the umask\<close>

definition inside :: "call \<Rightarrow> bool" where
  "inside c \<longleftrightarrow> c \<noteq> Waiting \<and> c \<noteq> Done"

text \<open>What the umask is while the owner is at a place, and what the owner remembers.\<close>

definition umask_at :: "mode \<Rightarrow> call \<Rightarrow> mode \<Rightarrow> bool" where
  "umask_at inherited c u \<longleftrightarrow>
     (case c of
        Strict old \<Rightarrow> old = inherited \<and> u = o777
      | Tight old \<Rightarrow> old = inherited \<and> u = inherited OR o077
      | Bound old \<Rightarrow> old = inherited \<and> u = inherited OR o077
      | _ \<Rightarrow> u = inherited)"

lemma umask_at_simps [simp]:
  "umask_at inherited Entered u \<longleftrightarrow> u = inherited" "umask_at inherited Restored u \<longleftrightarrow> u = inherited"
  "umask_at inherited (Strict old) u \<longleftrightarrow> old = inherited \<and> u = o777"
  "umask_at inherited (Tight old) u \<longleftrightarrow> old = inherited \<and> u = inherited OR o077"
  "umask_at inherited (Bound old) u \<longleftrightarrow> old = inherited \<and> u = inherited OR o077"
  by (simp_all add: umask_at_def)

definition section_ok :: "mode \<Rightarrow> sockets \<Rightarrow> bool" where
  "section_ok inherited s \<longleftrightarrow>
     (\<forall>i<length (sk_calls s). inside (sk_calls s ! i) \<longleftrightarrow> sk_owner s = Some i) \<and>
     (case sk_owner s of
        None \<Rightarrow> sk_umask s = inherited
      | Some i \<Rightarrow> i < length (sk_calls s) \<and> umask_at inherited (sk_calls s ! i) (sk_umask s)) \<and>
     list_all ((=) (o777 AND NOT (inherited OR o077))) (sk_modes s)"

lemma call_at_Some: "call_at s i = Some c \<longleftrightarrow> i < length (sk_calls s) \<and> sk_calls s ! i = c"
  by (auto simp: call_at_def)

lemma set_call_fields [simp]:
  "sk_umask (set_call i c s) = sk_umask s" "sk_owner (set_call i c s) = sk_owner s"
  "sk_modes (set_call i c s) = sk_modes s" "sk_calls (set_call i c s) = (sk_calls s)[i := c]"
  by (simp_all add: set_call_def)

text \<open>A call that is inside is the owner, so the section tells what it may find.\<close>

lemma owner_inside:
  "section_ok inherited s \<Longrightarrow> call_at s i = Some c \<Longrightarrow> inside c \<Longrightarrow>
     sk_owner s = Some i \<and> i < length (sk_calls s) \<and> umask_at inherited c (sk_umask s)"
  by (auto simp: section_ok_def call_at_Some split: option.splits)

lemma section_ok_modes: "section_ok inherited s \<Longrightarrow> list_all ((=) (o777 AND NOT (inherited OR o077))) (sk_modes s)"
  by (simp add: section_ok_def)

lemma section_moves:
  assumes ok: "section_ok inherited s" and c: "call_at s i = Some c" "inside c" "inside c'"
    and s': "sk_owner s' = sk_owner s" "sk_calls s' = (sk_calls s)[i := c']" "umask_at inherited c' (sk_umask s')"
      "list_all ((=) (o777 AND NOT (inherited OR o077))) (sk_modes s')"
  shows "section_ok inherited s'"
proof -
  have o: "sk_owner s = Some i" "i < length (sk_calls s)" using owner_inside [OF ok c(1,2)] by simp_all
  have "inside (sk_calls s ! j) \<longleftrightarrow> i = j" if "j < length (sk_calls s)" for j
    using ok that o by (simp add: section_ok_def)
  then show ?thesis using o c(3) s' unfolding section_ok_def by (simp add: nth_list_update)
qed

lemma umask_step_ok:
  assumes "umask_step True s s'" and ok: "section_ok inherited s"
  shows "section_ok inherited s'"
  using assms(1)
proof cases
  case (lock i)
  have o: "sk_owner s = None" using lock(3) by simp
  then have i: "i < length (sk_calls s)" "sk_umask s = inherited" "list_all ((=) (o777 AND NOT (inherited OR o077))) (sk_modes s)"
    "\<And>j. j < length (sk_calls s) \<Longrightarrow> \<not> inside (sk_calls s ! j)"
    using lock(2) ok by (simp_all add: section_ok_def call_at_Some)
  have "inside Entered" by (simp add: inside_def)
  with i show ?thesis by (simp add: lock(1) section_ok_def nth_list_update)
next
  case (read_mask i)
  show ?thesis
    by (rule section_moves [OF ok read_mask(2), where c' = "Strict (sk_umask s)"])
      (use owner_inside [OF ok read_mask(2)] section_ok_modes [OF ok] in \<open>simp_all add: read_mask(1) inside_def\<close>)
next
  case (tighten i old)
  show ?thesis
    by (rule section_moves [OF ok tighten(2), where c' = "Tight old"])
      (use owner_inside [OF ok tighten(2)] section_ok_modes [OF ok] in \<open>simp_all add: tighten(1) inside_def\<close>)
next
  case (bind i old)
  show ?thesis
    by (rule section_moves [OF ok bind(2), where c' = "Bound old"])
      (use owner_inside [OF ok bind(2)] section_ok_modes [OF ok] in \<open>simp_all add: bind(1) inside_def\<close>)
next
  case (bind_fails i old)
  show ?thesis
    by (rule section_moves [OF ok bind_fails(2), where c' = "Bound old"])
      (use owner_inside [OF ok bind_fails(2)] section_ok_modes [OF ok] in \<open>simp_all add: bind_fails(1) inside_def\<close>)
next
  case (restore i old)
  show ?thesis
    by (rule section_moves [OF ok restore(2), where c' = "Restored"])
      (use owner_inside [OF ok restore(2)] section_ok_modes [OF ok] in \<open>simp_all add: restore(1) inside_def\<close>)
next
  case (unlock i)
  have o: "sk_owner s = Some i" "i < length (sk_calls s)" "sk_umask s = inherited"
    using owner_inside [OF ok unlock(2)] by (simp_all add: inside_def)
  then have "inside (sk_calls s ! j) \<longleftrightarrow> i = j" if "j < length (sk_calls s)" for j
    using ok that by (simp add: section_ok_def)
  moreover have "\<not> inside Done" by (simp add: inside_def)
  ultimately show ?thesis
    using o ok unfolding unlock(1) section_ok_def by (simp add: nth_list_update)
qed

lemma umask_runs_ok: "umask_runs True inherited n s \<Longrightarrow> section_ok inherited s"
proof (induction rule: umask_runs.induct)
  case runs_begin
  show ?case by (simp add: section_ok_def sockets0_def inside_def)
next
  case (runs_on s s')
  then show ?case using umask_step_ok by blast
qed

lemma or_covers: "a AND b = a \<Longrightarrow> b OR a = b" for a b :: mode
  by (rule bit_eqI) (metis bit_and_iff bit_or_iff)

lemma umask_at_covers:
  assumes "umask_at inherited c u" and "inherited AND o777 = inherited"
  shows "u OR inherited = u"
proof -
  have "o777 OR inherited = o777" by (rule or_covers [OF assms(2)])
  moreover have "(inherited OR o077) OR inherited = inherited OR o077" by (rule bit_eqI) (auto simp: bit_or_iff)
  ultimately show ?thesis using assms(1) by (cases c) (simp_all add: umask_at_def)
qed

text \<open>
  C17 (refinement).  Any number of concurrent calls of \<open>ListenUnix\<close>, in any interleaving, do what one call alone does.
  Every socket is created with the mode it has in the sequential run, the umask never has fewer bits than the
  daemon inherited, and whenever nobody holds the mutex it is the inherited one again.
\<close>

theorem concurrent_listens_are_sequential:
  assumes "umask_runs True (se_umask e) n s" and "se_bind e p"
  shows "list_all (\<lambda>m. BindUnix p m \<in> set (fst (ListenUnix e p))) (sk_modes s) \<and>
     (se_umask e AND o777 = se_umask e \<longrightarrow> sk_umask s OR se_umask e = sk_umask s) \<and>
     (sk_owner s = None \<longrightarrow> sk_umask s = se_umask e)"
proof -
  note ok = umask_runs_ok [OF assms(1)]
  have "list_all (\<lambda>m. BindUnix p m \<in> set (fst (ListenUnix e p))) (sk_modes s)"
    using section_ok_modes [OF ok] assms(2) by (auto simp: list_all_iff ListenUnix_def Let_def)
  moreover have "sk_umask s OR se_umask e = sk_umask s" if "se_umask e AND o777 = se_umask e"
    using ok umask_at_covers [OF _ that] by (auto simp: section_ok_def split: option.splits)
  moreover have "sk_umask s = se_umask e" if "sk_owner s = None"
    using ok that by (simp add: section_ok_def)
  ultimately show ?thesis by blast
qed

section \<open>Without the mutex\<close>

definition o022 :: mode where "o022 = 18"

text \<open>Two calls that overlap leave the daemon with the strictest umask for good.\<close>

lemma mutex_is_needed:
  "\<exists>s. umask_runs False o022 2 s \<and> sk_calls s = [Done, Done] \<and> sk_umask s = o777"
proof -
  let ?run = "umask_runs False o022 2"
  have 0: "?run \<lparr>sk_umask = o022, sk_owner = None, sk_calls = [Waiting, Waiting], sk_modes = []\<rparr>"
    using runs_begin [of False o022 2] by (simp add: sockets0_def numeral_2_eq_2)
  have 1: "?run \<lparr>sk_umask = o022, sk_owner = Some 0, sk_calls = [Entered, Waiting], sk_modes = []\<rparr>"
    using runs_on [OF 0 lock [of _ 0]] by (simp add: call_at_def set_call_def)
  have 2: "?run \<lparr>sk_umask = o777, sk_owner = Some 0, sk_calls = [Strict o022, Waiting], sk_modes = []\<rparr>"
    using runs_on [OF 1 read_mask [of _ 0]] by (simp add: call_at_def set_call_def)
  have 3: "?run \<lparr>sk_umask = o777, sk_owner = Some 1, sk_calls = [Strict o022, Entered], sk_modes = []\<rparr>"
    using runs_on [OF 2 lock [of _ 1]] by (simp add: call_at_def set_call_def)
  have 4: "?run \<lparr>sk_umask = o777, sk_owner = Some 1, sk_calls = [Strict o022, Strict o777], sk_modes = []\<rparr>"
    using runs_on [OF 3 read_mask [of _ 1]] by (simp add: call_at_def set_call_def)
  have 5: "?run \<lparr>sk_umask = o022 OR o077, sk_owner = Some 1, sk_calls = [Tight o022, Strict o777], sk_modes = []\<rparr>"
    using runs_on [OF 4 tighten [of _ 0]] by (simp add: call_at_def set_call_def)
  have 6: "?run \<lparr>sk_umask = o022 OR o077, sk_owner = Some 1, sk_calls = [Bound o022, Strict o777], sk_modes = []\<rparr>"
    using runs_on [OF 5 bind_fails [of _ 0]] by (simp add: call_at_def set_call_def)
  have 7: "?run \<lparr>sk_umask = o022, sk_owner = Some 1, sk_calls = [Restored, Strict o777], sk_modes = []\<rparr>"
    using runs_on [OF 6 restore [of _ 0]] by (simp add: call_at_def set_call_def)
  have 8: "?run \<lparr>sk_umask = o022, sk_owner = None, sk_calls = [Done, Strict o777], sk_modes = []\<rparr>"
    using runs_on [OF 7 unlock [of _ 0]] by (simp add: call_at_def set_call_def)
  have 9: "?run \<lparr>sk_umask = o777 OR o077, sk_owner = None, sk_calls = [Done, Tight o777], sk_modes = []\<rparr>"
    using runs_on [OF 8 tighten [of _ 1]] by (simp add: call_at_def set_call_def)
  have 10: "?run \<lparr>sk_umask = o777 OR o077, sk_owner = None, sk_calls = [Done, Bound o777], sk_modes = []\<rparr>"
    using runs_on [OF 9 bind_fails [of _ 1]] by (simp add: call_at_def set_call_def)
  have 11: "?run \<lparr>sk_umask = o777, sk_owner = None, sk_calls = [Done, Restored], sk_modes = []\<rparr>"
    using runs_on [OF 10 restore [of _ 1]] by (simp add: call_at_def set_call_def)
  have "?run \<lparr>sk_umask = o777, sk_owner = None, sk_calls = [Done, Done], sk_modes = []\<rparr>"
    using runs_on [OF 11 unlock [of _ 1]] by (simp add: call_at_def set_call_def)
  then show ?thesis by fastforce
qed

theorem concurrent_listens_are_sequential_witness:
  "list_all (\<lambda>m. BindUnix ''k'' m \<in> set (fst (ListenUnix calm_system ''k''))) [o700]"
proof -
  let ?e = calm_system
  let ?u = "se_umask ?e"
  let ?run = "umask_runs True ?u 1"
  have 0: "?run \<lparr>sk_umask = ?u, sk_owner = None, sk_calls = [Waiting], sk_modes = []\<rparr>"
    using runs_begin [of True ?u 1] by (simp add: sockets0_def)
  have 1: "?run \<lparr>sk_umask = ?u, sk_owner = Some 0, sk_calls = [Entered], sk_modes = []\<rparr>"
    using runs_on [OF 0 lock [of _ 0]] by (simp add: call_at_def set_call_def)
  have 2: "?run \<lparr>sk_umask = o777, sk_owner = Some 0, sk_calls = [Strict ?u], sk_modes = []\<rparr>"
    using runs_on [OF 1 read_mask [of _ 0]] by (simp add: call_at_def set_call_def)
  have 3: "?run \<lparr>sk_umask = ?u OR o077, sk_owner = Some 0, sk_calls = [Tight ?u], sk_modes = []\<rparr>"
    using runs_on [OF 2 tighten [of _ 0]] by (simp add: call_at_def set_call_def)
  have "?run \<lparr>sk_umask = ?u OR o077, sk_owner = Some 0, sk_calls = [Bound ?u], sk_modes = [o777 AND NOT (?u OR o077)]\<rparr>"
    using runs_on [OF 3 bind [of _ 0]] by (simp add: call_at_def set_call_def)
  from concurrent_listens_are_sequential [OF this, of "''k''"] show ?thesis
    by (simp add: calm_system_def o777_def o077_def o700_def)
qed

end
