(* ===== verification/Signal_Queue.thy ===== *)
theory Signal_Queue
  imports Supervisor_Safety
begin

text \<open>
  \<open>SignalQueue\<close> of \<open>internal/supervisor/supervisor.go\<close> between the kernel and the run loop.  The channel holds sixteen
  signals and \<open>signal.Notify\<close> does not block: a signal that finds it full is dropped.  The kernel keeps the
  exited children until they are reaped, so that a dropped SIGCHLD matters only when no other one is queued.
\<close>

section \<open>The queue\<close>

datatype queued = QChild | QSignal signal

record SignalQueue =
  sq_ch :: "queued list"
  sq_notify :: "queued list"

definition queue_size :: nat where "queue_size = 16"

definition NewSignalQueue :: SignalQueue where
  "NewSignalQueue =
     \<lparr>sq_ch = [], sq_notify = map QSignal [SIGTERM, SIGINT, SIGQUIT, SIGHUP, SIGUSR2] @ [QChild]\<rparr>"

text \<open>The send of \<open>signal.Notify\<close>; a signal that is not registered does not come here.\<close>

definition notify :: "queued \<Rightarrow> SignalQueue \<Rightarrow> SignalQueue" where
  "notify s q = (if s \<in> set (sq_notify q) \<and> length (sq_ch q) < queue_size then q\<lparr>sq_ch := sq_ch q @ [s]\<rparr> else q)"

text \<open>\<open>Stop\<close> deregisters; what the channel holds stays in it.\<close>

definition Stop_signals :: "SignalQueue \<Rightarrow> SignalQueue" where
  "Stop_signals q = q\<lparr>sq_notify := []\<rparr>"

section \<open>The daemon around it\<close>

text \<open>
  \<open>dm_zombies\<close> are the children that exited and were not reaped, \<open>dm_pending\<close> is the one SIGCHLD the kernel holds for
  any number of exits until it delivers it, \<open>dm_down\<close> tells that the run loop was left, and
  \<open>dm_flood\<close> that at some time sixteen signals other than SIGCHLD waited.
\<close>

record daemon =
  dm_sup :: Supervisor
  dm_queue :: SignalQueue
  dm_zombies :: reaps
  dm_pending :: bool
  dm_down :: bool
  dm_flood :: bool

definition is_flood :: "SignalQueue \<Rightarrow> bool" where
  "is_flood q \<longleftrightarrow> length (filter (\<lambda>s. s \<noteq> QChild) (sq_ch q)) = queue_size"

definition send :: "queued \<Rightarrow> daemon \<Rightarrow> daemon" where
  "send s d = d\<lparr>dm_queue := notify s (dm_queue d), dm_flood := dm_flood d \<or> is_flood (notify s (dm_queue d))\<rparr>"

definition received :: "reaps \<Rightarrow> queued \<Rightarrow> os_signal" where
  "received zs s = (case s of QChild \<Rightarrow> OsChild zs | QSignal g \<Rightarrow> OsSignal g)"

text \<open>What the loop does with the signal it receives: reaping takes every child that exited.\<close>

definition take_signal :: "OS \<Rightarrow> envs \<Rightarrow> daemon \<Rightarrow> daemon" where
  "take_signal os e d =
     (case sq_ch (dm_queue d) of
        [] \<Rightarrow> d
      | s # rest \<Rightarrow>
          (let (s1, stop) = handleSignal os e (received (dm_zombies d) s) (dm_sup d) in
           d\<lparr>dm_sup := s1, dm_down := stop, dm_queue := (dm_queue d)\<lparr>sq_ch := rest\<rparr>,
             dm_zombies := (if s = QChild then [] else dm_zombies d)\<rparr>))"

inductive dstep :: "OS \<Rightarrow> envs \<Rightarrow> daemon \<Rightarrow> daemon \<Rightarrow> bool" for os e where
  child_exits: "0 < pid \<Longrightarrow> dstep os e d (d\<lparr>dm_zombies := dm_zombies d @ [(pid, ws)], dm_pending := True\<rparr>)"
| child_signal: "dm_pending d \<Longrightarrow> dstep os e d (send QChild (d\<lparr>dm_pending := False\<rparr>))"
| signal_sent: "dstep os e d (send (QSignal g) d)"
| loop_takes: "\<not> dm_down d \<Longrightarrow> sq_ch (dm_queue d) \<noteq> [] \<Longrightarrow> dstep os e d (take_signal os e d)"
| loop_leaves: "\<not> dm_down d \<Longrightarrow> su_shutdownClosed (dm_sup d) \<Longrightarrow> dstep os e d (d\<lparr>dm_down := True\<rparr>)"
| world_moves: "\<not> dm_down d \<Longrightarrow> dstep os e d (d\<lparr>dm_sup := s1\<rparr>)"

definition daemon0 :: "Supervisor \<Rightarrow> daemon" where
  "daemon0 s = \<lparr>dm_sup = s, dm_queue = NewSignalQueue, dm_zombies = [], dm_pending = False, dm_down = False, dm_flood = False\<rparr>"

inductive daemon_runs :: "OS \<Rightarrow> envs \<Rightarrow> Supervisor \<Rightarrow> daemon \<Rightarrow> bool" for os e s where
  runs_start: "daemon_runs os e s (daemon0 s)"
| runs_step: "daemon_runs os e s d \<Longrightarrow> dstep os e d d' \<Longrightarrow> daemon_runs os e s d'"

section \<open>No exit is forgotten\<close>

lemma notify_fields [simp]: "sq_notify (notify s q) = sq_notify q"
  by (simp add: notify_def)

lemma send_fields [simp]:
  "dm_sup (send s d) = dm_sup d" "dm_zombies (send s d) = dm_zombies d" "dm_down (send s d) = dm_down d"
  "dm_pending (send s d) = dm_pending d" "dm_queue (send s d) = notify s (dm_queue d)" "dm_flood (send s d) \<longleftrightarrow> dm_flood d \<or> is_flood (notify s (dm_queue d))"
  by (simp_all add: send_def)

definition queue_ok :: "daemon \<Rightarrow> bool" where
  "queue_ok d \<longleftrightarrow> length (sq_ch (dm_queue d)) \<le> queue_size \<and> sq_notify (dm_queue d) = sq_notify NewSignalQueue \<and>
     (is_flood (dm_queue d) \<longrightarrow> dm_flood d) \<and>
     (dm_zombies d \<noteq> [] \<longrightarrow> dm_pending d \<or> QChild \<in> set (sq_ch (dm_queue d)) \<or> dm_flood d)"

lemma full_without_child: "QChild \<notin> set (sq_ch q) \<Longrightarrow> length (sq_ch q) = queue_size \<Longrightarrow> is_flood q"
  using filter_True [of "sq_ch q" "\<lambda>s. s \<noteq> QChild"] by (fastforce simp: is_flood_def)

lemma notify_length: "length (sq_ch q) \<le> queue_size \<Longrightarrow> length (sq_ch (notify s q)) \<le> queue_size"
  by (simp add: notify_def)

lemma notify_keeps: "x \<in> set (sq_ch q) \<Longrightarrow> x \<in> set (sq_ch (notify s q))"
  by (simp add: notify_def)

lemma notify_full_or_child:
  assumes "length (sq_ch q) \<le> queue_size" and "sq_notify q = sq_notify NewSignalQueue"
  shows "QChild \<in> set (sq_ch (notify QChild q)) \<or> is_flood q"
  using assms full_without_child [of q] by (auto simp: notify_def NewSignalQueue_def)

lemma dstep_queue_ok: "dstep os e d d' \<Longrightarrow> queue_ok d \<Longrightarrow> queue_ok d'"
proof (induction rule: dstep.induct)
  case (child_exits pid d ws)
  then show ?case by (simp add: queue_ok_def)
next
  case (child_signal d)
  then show ?case
    using notify_full_or_child [of "dm_queue d"] by (auto simp: queue_ok_def notify_length)
next
  case (signal_sent d g)
  then show ?case by (auto simp: queue_ok_def notify_length notify_keeps)
next
  case (loop_takes d)
  obtain s rest where c: "sq_ch (dm_queue d) = s # rest" using loop_takes.hyps(2) by (cases "sq_ch (dm_queue d)") auto
  have "is_flood ((dm_queue d)\<lparr>sq_ch := rest\<rparr>) \<Longrightarrow> length rest < queue_size \<Longrightarrow> False"
    using length_filter_le [of "\<lambda>s. s \<noteq> QChild" rest] by (simp add: is_flood_def)
  then show ?case
    using loop_takes.prems c by (auto simp: queue_ok_def take_signal_def split: prod.splits)
qed (simp_all add: queue_ok_def)

lemma daemon_runs_queue_ok: "daemon_runs os e s d \<Longrightarrow> queue_ok d"
proof (induction rule: daemon_runs.induct)
  case runs_start
  show ?case by (simp add: queue_ok_def daemon0_def NewSignalQueue_def queue_size_def is_flood_def)
next
  case (runs_step d d')
  then show ?case using dstep_queue_ok by blast
qed

text \<open>
  C12 (invariant).  Signals may be dropped, exits are not forgotten: at any time of a run in which sixteen signals other
  than SIGCHLD never waited together, a child that exited and is not reaped has a SIGCHLD on its way, in the kernel
  or in the queue.  So when nothing is pending and the loop has emptied the queue, every exit has been handled.
\<close>

theorem no_exit_is_forgotten:
  assumes "daemon_runs os e s d" and "\<not> dm_flood d"
  shows "length (sq_ch (dm_queue d)) \<le> 16 \<and>
     (dm_zombies d \<noteq> [] \<longrightarrow> dm_pending d \<or> QChild \<in> set (sq_ch (dm_queue d))) \<and>
     (\<not> dm_pending d \<and> sq_ch (dm_queue d) = [] \<longrightarrow> dm_zombies d = [])"
  using daemon_runs_queue_ok [OF assms(1)] assms(2) by (auto simp: queue_ok_def queue_size_def)

section \<open>The queue and the loop\<close>


section \<open>What a full queue loses\<close>

lemma runs_sends: "daemon_runs os e s d \<Longrightarrow> daemon_runs os e s (fold (\<lambda>g. send (QSignal g)) gs d)"
  by (induction gs arbitrary: d) (auto intro: runs_step signal_sent)

definition hangups :: "nat \<Rightarrow> Supervisor \<Rightarrow> daemon" where
  "hangups n s = fold (\<lambda>g. send (QSignal g)) (replicate n SIGHUP) (daemon0 s)"

lemma hangups_queue: "n \<le> 16 \<Longrightarrow> sq_ch (dm_queue (hangups n s)) = replicate n (QSignal SIGHUP) \<and>
   sq_notify (dm_queue (hangups n s)) = sq_notify NewSignalQueue \<and> \<not> dm_down (hangups n s) \<and> dm_zombies (hangups n s) = []"
proof (induction n)
  case 0
  show ?case by (simp add: hangups_def daemon0_def NewSignalQueue_def)
next
  case (Suc n)
  have "hangups (Suc n) s = send (QSignal SIGHUP) (hangups n s)"
    by (simp add: hangups_def replicate_append_same [symmetric] del: replicate.simps)
  then show ?case
    using Suc by (simp add: notify_def NewSignalQueue_def queue_size_def replicate_append_same)
qed

text \<open>Sixteen reloads are asked for before the loop runs; whatever comes next is dropped.\<close>

lemma full_queue_drops:
  "sq_ch (dm_queue (send g (hangups 16 s))) = replicate 16 (QSignal SIGHUP)"
  using hangups_queue [of 16 s] by (simp add: notify_def queue_size_def)

fun drain :: "nat \<Rightarrow> OS \<Rightarrow> envs \<Rightarrow> daemon \<Rightarrow> daemon" where
  "drain 0 os e d = d"
| "drain (Suc n) os e d = drain n os e (take_signal os e d)"

lemma drain_hangups:
  "sq_ch (dm_queue d) = replicate n (QSignal SIGHUP) \<Longrightarrow> \<not> dm_down d \<Longrightarrow> daemon_runs os e s d \<Longrightarrow>
     daemon_runs os e s (drain n os e d) \<and> sq_ch (dm_queue (drain n os e d)) = [] \<and> \<not> dm_down (drain n os e d) \<and>
     dm_zombies (drain n os e d) = dm_zombies d \<and> dm_pending (drain n os e d) = dm_pending d"
proof (induction n arbitrary: d)
  case (Suc n)
  let ?d = "take_signal os e d"
  have "daemon_runs os e s ?d"
    by (rule runs_step [OF Suc.prems(3) loop_takes]) (use Suc.prems in simp_all)
  moreover have "sq_ch (dm_queue ?d) = replicate n (QSignal SIGHUP)" "\<not> dm_down ?d" "dm_zombies ?d = dm_zombies d"
    "dm_pending ?d = dm_pending d"
    using Suc.prems by (simp_all add: take_signal_def received_def handleSignal_def)
  ultimately show ?case using Suc.IH [of ?d] by simp
qed simp


text \<open>A child exits, the loop reaps it, and nothing is left.\<close>

definition sup0 :: Supervisor where "sup0 = New web_config [] None sample_fs"

theorem no_exit_is_forgotten_witness:
  "dm_zombies (take_signal open_os (\<lambda>_. up_env 0 7)
     (send QChild ((daemon0 sup0)\<lparr>dm_zombies := [(9, WExited 0)], dm_pending := False\<rparr>))) = []"
proof -
  let ?e = "\<lambda>_. up_env 0 7"
  have r: "daemon_runs open_os ?e sup0 (send QChild ((daemon0 sup0)\<lparr>dm_zombies := [(9, WExited 0)], dm_pending := False\<rparr>))"
    using runs_step [OF runs_step [OF runs_start child_exits [of 9 open_os ?e "daemon0 sup0" "WExited 0"]] child_signal]
    by (simp add: daemon0_def)
  have q: "dm_queue (send QChild ((daemon0 sup0)\<lparr>dm_zombies := [(9, WExited 0)], dm_pending := False\<rparr>)) = NewSignalQueue\<lparr>sq_ch := [QChild]\<rparr>"
    by (simp add: daemon0_def notify_def NewSignalQueue_def queue_size_def)
  let ?d = "take_signal open_os ?e (send QChild ((daemon0 sup0)\<lparr>dm_zombies := [(9, WExited 0)], dm_pending := False\<rparr>))"
  have d: "daemon_runs open_os ?e sup0 ?d"
    by (rule runs_step [OF r loop_takes]) (use q in \<open>simp_all add: daemon0_def\<close>)
  have "\<not> dm_flood ?d" "\<not> dm_pending ?d" "sq_ch (dm_queue ?d) = []"
    using q by (simp_all add: take_signal_def split_beta is_flood_def daemon0_def notify_def NewSignalQueue_def queue_size_def)
  then show ?thesis using no_exit_is_forgotten [OF d] by simp
qed


end
