(* ===== verification/Event_Listener.thy ===== *)
theory Event_Listener
  imports Event_Bus
begin

text \<open>
  \<open>internal/events/listener.go\<close>: pools of listener processes that say READY on their output and are
  handed one event on their input.  A pool has a queue of 64 events, filled by the bus and emptied by
  the dispatch goroutine; what the goroutines do in which order is a list of steps.  The time stamp is
  formatted by the library: \<open>fmt_time\<close> is a parameter.
\<close>

section \<open>The wire format\<close>

definition formatEventBody :: "Event \<Rightarrow> string" where
  "formatEventBody e =
     (let keys = sort_strings (map fst (ev_data e)) in
      join '' '' (map (\<lambda>k. k @ '':'' @ (case map_of (ev_data e) k of None \<Rightarrow> [] | Some v \<Rightarrow> v)) keys))"

definition formatEventPayload :: "(int \<Rightarrow> string) \<Rightarrow> Event \<Rightarrow> string" where
  "formatEventPayload fmt_time e =
     (let body = formatEventBody e in
      ev_type e @ '' '' @ fmt_time (ev_time e) @ '' len:'' @ itoa (int (length body)) @ [CHR 0x0A] @ body)"

section \<open>Pools\<close>

datatype ListenerState = ListenerAcknowledged | ListenerReady | ListenerBusy

text \<open>\<open>li_stdin\<close> is what was written to the listener.\<close>

record Listener =
  li_name :: string
  li_state :: ListenerState
  li_stdin :: "string list"

record ListenerPool =
  lp_name :: string
  lp_subIDs :: "64 word list"
  lp_eventCh :: "Event list"
  lp_listeners :: "Listener list"
  lp_stopped :: bool

definition NewListenerPool ::
  "string \<Rightarrow> 'h \<Rightarrow> event_type list \<Rightarrow> 'h Bus \<Rightarrow> 'h Bus \<times> ListenerPool" where
  "NewListenerPool name handler types b =
     (let (b', ids) = subscribe_all Subscribe types handler b in
      (b', \<lparr>lp_name = name, lp_subIDs = ids, lp_eventCh = [], lp_listeners = [], lp_stopped = False\<rparr>))"

text \<open>The handler the pool subscribes; a full queue drops the event.\<close>

definition pool_handler :: "Event \<Rightarrow> ListenerPool \<Rightarrow> ListenerPool" where
  "pool_handler e lp = (if length (lp_eventCh lp) < 64 then lp\<lparr>lp_eventCh := lp_eventCh lp @ [e]\<rparr> else lp)"

definition AddListener :: "string \<Rightarrow> ListenerPool \<Rightarrow> ListenerPool" where
  "AddListener name lp =
     lp\<lparr>lp_listeners := lp_listeners lp @ [\<lparr>li_name = name, li_state = ListenerAcknowledged, li_stdin = []\<rparr>]\<rparr>"

text \<open>One line of a listener's output.\<close>

definition readReady :: "nat \<Rightarrow> string \<Rightarrow> ListenerPool \<Rightarrow> ListenerPool" where
  "readReady i line lp =
     (if TrimSpace line = ''READY'' \<and> i < length (lp_listeners lp)
      then lp\<lparr>lp_listeners := (lp_listeners lp)[i := (lp_listeners lp ! i)\<lparr>li_state := ListenerReady\<rparr>]\<rparr>
      else lp)"

text \<open>The first ready listener gets the payload; \<open>None\<close> when there is none.  A failed write is only logged.\<close>

fun send_first :: "string \<Rightarrow> Listener list \<Rightarrow> (nat \<times> Listener list) option" where
  "send_first payload [] = None"
| "send_first payload (l # ls) =
     (if li_state l = ListenerReady
      then Some (0, l\<lparr>li_state := ListenerBusy, li_stdin := li_stdin l @ [payload]\<rparr> # ls)
      else map_option (\<lambda>(i, ls'). (Suc i, l # ls')) (send_first payload ls))"

definition sendToReady :: "(int \<Rightarrow> string) \<Rightarrow> Event \<Rightarrow> ListenerPool \<Rightarrow> ListenerPool \<times> (nat \<times> Event) list" where
  "sendToReady fmt_time e lp =
     (case send_first (formatEventPayload fmt_time e) (lp_listeners lp) of
        None \<Rightarrow> (lp, [])
      | Some (i, ls) \<Rightarrow> (lp\<lparr>lp_listeners := ls\<rparr>, [(i, e)]))"

definition pool_stop :: "ListenerPool \<Rightarrow> 'h Bus \<Rightarrow> 'h Bus \<times> ListenerPool" where
  "pool_stop lp b = (unsubscribe_all Unsubscribe (lp_subIDs lp) b, lp\<lparr>lp_stopped := True\<rparr>)"

text \<open>A pool that is stopped leaves the bus with the handlers it found, whatever it did in between.\<close>

lemma stopped_pool_leaves_no_handler:
  assumes "bus_wf b" and "bus_room (length types) b" and "NewListenerPool name handler types b = (b', lp)"
    and "lp_subIDs lp' = lp_subIDs lp"
  shows "bus_handlers (fst (pool_stop lp' b')) t = bus_handlers b t"
  using assms(3,4) ev.teardown [OF assms(1,2)] by (auto simp: NewListenerPool_def pool_stop_def Let_def split: prod.splits)

text \<open>A step of the pool, with the deliveries it makes.\<close>

datatype pool_step = LEvent Event | LAdd string | LLine nat string | LDispatch | LStop

fun step_pool :: "(int \<Rightarrow> string) \<Rightarrow> pool_step \<Rightarrow> ListenerPool \<Rightarrow> ListenerPool \<times> (nat \<times> Event) list" where
  "step_pool fmt_time (LEvent e) lp = (pool_handler e lp, [])"
| "step_pool fmt_time (LAdd name) lp = (AddListener name lp, [])"
| "step_pool fmt_time (LLine i line) lp = (readReady i line lp, [])"
| "step_pool fmt_time LDispatch lp =
     (if lp_stopped lp then (lp, [])
      else case lp_eventCh lp of
        [] \<Rightarrow> (lp, [])
      | e # es \<Rightarrow> sendToReady fmt_time e (lp\<lparr>lp_eventCh := es\<rparr>))"
| "step_pool fmt_time LStop lp = (lp\<lparr>lp_stopped := True\<rparr>, [])"

fun pool_run :: "(int \<Rightarrow> string) \<Rightarrow> pool_step list \<Rightarrow> ListenerPool \<Rightarrow> ListenerPool \<times> (nat \<times> Event) list" where
  "pool_run fmt_time [] lp = (lp, [])"
| "pool_run fmt_time (st # sts) lp =
     (let (lp1, d1) = step_pool fmt_time st lp; (lp2, d2) = pool_run fmt_time sts lp1 in (lp2, d1 @ d2))"

section \<open>Framing\<close>

text \<open>
  A listener as the comment on \<open>formatEventPayload\<close> describes it: a header line of three fields, then as
  many bytes of body as it announces.
\<close>

function read_frames :: "string \<Rightarrow> (string \<times> string \<times> string) list option" where
  "read_frames s =
     (if s = [] then Some []
      else case cut (CHR 0x0A) s of
        (hdr, None) \<Rightarrow> None
      | (hdr, Some rest) \<Rightarrow>
          (case split_on (CHR '' '') hdr of
             [ty, ts, l] \<Rightarrow>
               (if has_prefix l ''len:'' then
                  (case atoi (drop 4 l) of
                     None \<Rightarrow> None
                   | Some n \<Rightarrow> map_option ((#) (ty, ts, take (nat n) rest)) (read_frames (drop (nat n) rest)))
                else None)
           | _ \<Rightarrow> None))"
  by pat_completeness auto
termination
  by (relation "measure length") (auto dest!: cut_shorter [OF sym])

declare read_frames.simps [simp del]

definition plain_word :: "string \<Rightarrow> bool" where
  "plain_word s \<longleftrightarrow> CHR '' '' \<notin> set s \<and> CHR 0x0A \<notin> set s"

lemma itoa_plain: "plain_word (itoa n)"
  using nat_digits_free [of "CHR '' ''"] nat_digits_free [of "CHR 0x0A"] by (simp add: plain_word_def itoa_def)

lemma read_frames_header:
  "cut (CHR 0x0A) s = (hdr, Some r) \<Longrightarrow> split_on (CHR '' '') hdr = [ty, ts, l] \<Longrightarrow> has_prefix l ''len:'' \<Longrightarrow>
   atoi (drop 4 l) = Some n \<Longrightarrow>
   read_frames s = map_option ((#) (ty, ts, take (nat n) r)) (read_frames (drop (nat n) r))"
  by (subst read_frames.simps) auto

lemma read_one_frame:
  assumes "plain_word ty" and "plain_word ts" and "length body < 2 ^ 63"
  shows "read_frames (ty @ '' '' @ ts @ '' len:'' @ itoa (int (length body)) @ [CHR 0x0A] @ body @ rest) =
     map_option ((#) (ty, ts, body)) (read_frames rest)"
proof -
  let ?l = "''len:'' @ itoa (int (length body))"
  let ?hdr = "ty @ '' '' @ ts @ '' '' @ ?l"
  have w: "plain_word ?l" using itoa_plain by (simp add: plain_word_def)
  have "CHR 0x0A \<notin> set ?hdr" using assms(1,2) w by (simp add: plain_word_def)
  then have c: "cut (CHR 0x0A) (?hdr @ [CHR 0x0A] @ body @ rest) = (?hdr, Some (body @ rest))"
    using cut_append [of _ ?hdr "body @ rest"] by simp
  have sp: "split_on (CHR '' '') ?hdr = [ty, ts, ?l]"
    using assms(1,2) w by (simp add: plain_word_def split_on_append)
  have l: "has_prefix ?l ''len:''" "atoi (drop 4 ?l) = Some (int (length body))"
    using assms(3) by (simp_all add: has_prefix_def atoi_itoa)
  have "read_frames (?hdr @ [CHR 0x0A] @ body @ rest) =
      map_option ((#) (ty, ts, take (nat (int (length body))) (body @ rest))) (read_frames (drop (nat (int (length body))) (body @ rest)))"
    by (rule read_frames_header [OF c sp l])
  then show ?thesis by simp
qed

text \<open>
  The stream of payloads a listener reads can be cut into exactly the events that were
  sent: whatever bytes an event's data contains, line breaks and forged headers included, every event
  is recovered with its type, its time stamp and its whole body.
\<close>

theorem listener_framing_roundtrip:
  assumes "\<And>e. e \<in> set es \<Longrightarrow> plain_word (ev_type e) \<and> plain_word (fmt_time (ev_time e)) \<and>
      length (formatEventBody e) < 2 ^ 63"
  shows "read_frames (concat (map (formatEventPayload fmt_time) es)) =
     Some (map (\<lambda>e. (ev_type e, fmt_time (ev_time e), formatEventBody e)) es)"
  using assms
proof (induction es)
  case Nil
  show ?case by (simp add: read_frames.simps)
next
  case (Cons e es)
  have p: "concat (map (formatEventPayload fmt_time) (e # es)) =
      ev_type e @ '' '' @ fmt_time (ev_time e) @ '' len:'' @ itoa (int (length (formatEventBody e))) @ [CHR 0x0A] @
      formatEventBody e @ concat (map (formatEventPayload fmt_time) es)"
    by (simp add: formatEventPayload_def Let_def)
  show ?case
    unfolding p using Cons.prems [of e] Cons.IH Cons.prems by (subst read_one_frame) simp_all
qed

definition forged_event :: Event where
  "forged_event = \<lparr>ev_type = ProcessLogStdout, ev_time = 0,
     ev_data = [(''name'', ''web''), (''data'', [CHR 0x0A] @ ''TICK_5 0 len:0'' @ [CHR 0x0A])]\<rparr>"

theorem listener_framing_roundtrip_witness:
  "read_frames (concat (map (formatEventPayload (\<lambda>_. ''now'')) [forged_event, forged_event])) =
     Some [(ProcessLogStdout, ''now'', formatEventBody forged_event), (ProcessLogStdout, ''now'', formatEventBody forged_event)]"
proof -
  have b: "length (formatEventBody forged_event) = 30" by code_simp
  show ?thesis
    using listener_framing_roundtrip [of "[forged_event, forged_event]" "\<lambda>_. ''now''"]
    by (simp add: b) (simp add: forged_event_def plain_word_def ProcessLogStdout_def)
qed

section \<open>Turns\<close>

lemma send_first_Some:
  "send_first payload ls = Some (i, ls') \<Longrightarrow> i < length ls \<and> li_state (ls ! i) = ListenerReady \<and>
     ls' = ls[i := (ls ! i)\<lparr>li_state := ListenerBusy, li_stdin := li_stdin (ls ! i) @ [payload]\<rparr>]"
  by (induction ls arbitrary: i ls') (auto split: if_splits)

lemma send_first_None: "\<forall>l\<in>set ls. li_state l \<noteq> ListenerReady \<Longrightarrow> send_first payload ls = None"
  by (induction ls) auto

fun published :: "pool_step list \<Rightarrow> Event list" where
  "published [] = []"
| "published (LEvent e # sts) = e # published sts"
| "published (_ # sts) = published sts"

fun readies :: "nat \<Rightarrow> pool_step list \<Rightarrow> nat" where
  "readies i [] = 0"
| "readies i (LLine j line # sts) = (if j = i \<and> TrimSpace line = ''READY'' then 1 else 0) + readies i sts"
| "readies i (_ # sts) = readies i sts"

definition ready :: "ListenerPool \<Rightarrow> nat \<Rightarrow> nat" where
  "ready lp i = (if i < length (lp_listeners lp) \<and> li_state (lp_listeners lp ! i) = ListenerReady then 1 else 0)"

definition stdin_of :: "ListenerPool \<Rightarrow> nat \<Rightarrow> string list" where
  "stdin_of lp i = (if i < length (lp_listeners lp) then li_stdin (lp_listeners lp ! i) else [])"

definition sent_to :: "nat \<Rightarrow> (nat \<times> Event) list \<Rightarrow> Event list" where
  "sent_to i ds = map snd (filter (\<lambda>d. fst d = i) ds)"

lemma step_pool_turns:
  assumes "step_pool fmt_time st lp = (lp', ds)"
  shows "subseq (map snd ds @ lp_eventCh lp') (lp_eventCh lp @ published [st])"
    and "length (sent_to i ds) + ready lp' i \<le> readies i [st] + ready lp i"
    and "stdin_of lp' i = stdin_of lp i @ map (formatEventPayload fmt_time) (sent_to i ds)"
proof -
  show "subseq (map snd ds @ lp_eventCh lp') (lp_eventCh lp @ published [st])"
    using assms
    by (cases st) (auto simp: pool_handler_def AddListener_def readReady_def sendToReady_def
        split: if_splits list.splits option.splits)
  show "length (sent_to i ds) + ready lp' i \<le> readies i [st] + ready lp i"
    using assms
    by (cases st) (auto simp: pool_handler_def AddListener_def readReady_def sendToReady_def sent_to_def ready_def
        nth_append nth_list_update split: if_splits list.splits option.splits dest!: send_first_Some)
  show "stdin_of lp' i = stdin_of lp i @ map (formatEventPayload fmt_time) (sent_to i ds)"
    using assms
    by (cases st) (auto simp: pool_handler_def AddListener_def readReady_def sendToReady_def sent_to_def stdin_of_def
        nth_append nth_list_update split: if_splits list.splits option.splits dest!: send_first_Some)
qed

lemma published_Cons: "published (st # sts) = published [st] @ published sts"
  by (cases st) simp_all

lemma readies_Cons: "readies i (st # sts) = readies i [st] + readies i sts"
  by (cases st) simp_all

lemma pool_run_turns:
  assumes "pool_run fmt_time sts lp = (lp', ds)"
  shows "subseq (map snd ds @ lp_eventCh lp') (lp_eventCh lp @ published sts) \<and>
     length (sent_to i ds) + ready lp' i \<le> readies i sts + ready lp i \<and>
     stdin_of lp' i = stdin_of lp i @ map (formatEventPayload fmt_time) (sent_to i ds)"
  using assms
proof (induction sts arbitrary: lp ds)
  case Nil
  then show ?case by (simp add: sent_to_def)
next
  case (Cons st sts)
  obtain lp1 d1 where st: "step_pool fmt_time st lp = (lp1, d1)" by fastforce
  obtain d2 where run: "pool_run fmt_time sts lp1 = (lp', d2)" and ds: "ds = d1 @ d2"
    using Cons.prems st by (auto simp: Let_def split: prod.splits)
  note s = step_pool_turns [OF st] and r = Cons.IH [OF run]
  have "subseq (map snd d1 @ map snd d2 @ lp_eventCh lp') (map snd d1 @ lp_eventCh lp1 @ published sts)"
    using r by (simp add: list_emb_append_mono)
  also have "subseq \<dots> ((lp_eventCh lp @ published [st]) @ published sts)"
    using s(1) by (simp only: append_assoc [symmetric]) (rule list_emb_append_mono; simp)
  finally have "subseq (map snd ds @ lp_eventCh lp') (lp_eventCh lp @ published (st # sts))"
    using published_Cons [of st sts] ds by simp
  moreover have "length (sent_to i ds) + ready lp' i \<le> readies i (st # sts) + ready lp i"
    using r s(2) [of i] readies_Cons [of i st sts] ds by (simp add: sent_to_def)
  moreover have "stdin_of lp' i = stdin_of lp i @ map (formatEventPayload fmt_time) (sent_to i ds)"
    using r s(3) [of i] ds by (simp add: sent_to_def)
  ultimately show ?case by blast
qed

text \<open>
  Events reach listeners in order and one per READY: whatever the pool's goroutines do in
  whatever order, the delivered and the queued events are a subsequence of the published ones, each
  event goes to at most one listener, a listener is never sent more events than it said READY, and it
  is sent exactly the payloads of its events.
\<close>

theorem listeners_take_turns:
  assumes "pool_run fmt_time sts (snd (NewListenerPool name handler types b)) = (lp, ds)"
  shows "subseq (map snd ds @ lp_eventCh lp) (published sts) \<and> length (sent_to i ds) \<le> readies i sts \<and>
     stdin_of lp i = map (formatEventPayload fmt_time) (sent_to i ds)"
proof -
  let ?lp = "snd (NewListenerPool name handler types b)"
  have "lp_eventCh ?lp = []" "lp_listeners ?lp = []"
    by (simp_all add: NewListenerPool_def Let_def split: prod.split)
  then show ?thesis
    using pool_run_turns [OF assms, of i] by (simp add: ready_def stdin_of_def)
qed

theorem listeners_take_turns_witness:
  "\<exists>lp ds. pool_run (\<lambda>_. ''now'') [LAdd ''a'', LLine 0 ''READY'', LEvent forged_event, LDispatch]
       (snd (NewListenerPool ''p'' () [ProcessLogStdout] NewBus)) = (lp, ds) \<and>
     stdin_of lp 0 = [formatEventPayload (\<lambda>_. ''now'') forged_event]"
proof -
  let ?sts = "[LAdd ''a'', LLine 0 ''READY'', LEvent forged_event, LDispatch]"
  let ?lp = "snd (NewListenerPool ''p'' () [ProcessLogStdout] NewBus)"
  obtain lp ds where r: "pool_run (\<lambda>_. ''now'') ?sts ?lp = (lp, ds)" by fastforce
  have t: "TrimSpace ''READY'' = ''READY''" by code_simp
  have "lp_eventCh ?lp = []" "lp_listeners ?lp = []" "lp_stopped ?lp = False"
    by (simp_all add: NewListenerPool_def Let_def split: prod.split)
  then have "ds = [(0, forged_event)]"
    using r t by (simp add: AddListener_def readReady_def pool_handler_def sendToReady_def)
  then show ?thesis using listeners_take_turns [OF r, of 0] r by (simp add: sent_to_def)
qed

text \<open>
  A queued event is lost when no listener is ready at the moment it is dispatched: it is taken
  from the queue, and a READY that comes afterwards does not bring it back.
\<close>

theorem event_without_ready_listener_is_lost:
  assumes "\<forall>l\<in>set (lp_listeners lp). li_state l \<noteq> ListenerReady" and "lp_eventCh lp = [e]" and "\<not> lp_stopped lp"
  shows "snd (pool_run fmt_time [LDispatch, LLine i ''READY'', LDispatch] lp) = []"
proof -
  have "send_first payload (lp_listeners lp) = None" for payload
    using send_first_None assms(1) .
  then show ?thesis
    using assms(2,3) by (simp add: sendToReady_def readReady_def)
qed

theorem event_without_ready_listener_is_lost_witness:
  "snd (pool_run (\<lambda>_. ''now'') [LDispatch, LLine 0 ''READY'', LDispatch]
     \<lparr>lp_name = ''p'', lp_subIDs = [], lp_eventCh = [forged_event],
      lp_listeners = [\<lparr>li_name = ''a'', li_state = ListenerBusy, li_stdin = []\<rparr>], lp_stopped = False\<rparr>) = []"
  by (rule event_without_ready_listener_is_lost) simp_all

end
