(* ===== verification/Webhook.thy ===== *)
theory Webhook
  imports Event_Bus
begin

text \<open>
  \<open>internal/events/webhook.go\<close>: the delivery of events to webhooks with retries and a circuit breaker, the
  requests, the payloads, and the checks of a webhook's address.  Deliveries run concurrently; each has two critical
  sections, the check of the breaker and the record of the outcome, so an interleaving is a list of
  those.  The HTTP client, URL parsing and JSON are outside.
\<close>

section \<open>Configuration\<close>

record WebhookConfig =
  wh_Name :: string
  wh_URL :: string
  wh_Events :: "event_type list"
  wh_Headers :: "(string \<times> string) list"
  wh_Timeout :: int
  wh_MaxRetries :: int
  wh_Template :: string
  wh_AllowInsecure :: bool

record webhookEntry =
  we_cfg :: WebhookConfig
  we_failures :: int
  we_tripped :: bool

record 'h WebhookManager =
  wm_hooks :: "webhookEntry list"
  wm_subIDs :: "64 word list"

definition default_webhook :: "WebhookConfig \<Rightarrow> WebhookConfig" where
  "default_webhook cfg =
     cfg\<lparr>wh_Timeout := (if wh_Timeout cfg = 0 then 5 * 1000000000 else wh_Timeout cfg),
         wh_MaxRetries := (if wh_MaxRetries cfg = 0 then 3 else wh_MaxRetries cfg),
         wh_Template := (if wh_Template cfg = [] then ''generic'' else wh_Template cfg)\<rparr>"

text \<open>
  The set of event types is a Go map, iterated in an order of its own: the order here is that of the
  first occurrences, and the statements do not depend on it.
\<close>

definition NewWebhookManager :: "'h \<Rightarrow> WebhookConfig list \<Rightarrow> 'h Bus \<Rightarrow> 'h Bus \<times> 'h WebhookManager" where
  "NewWebhookManager handler configs b =
     (let hooks = map (\<lambda>c. \<lparr>we_cfg = default_webhook c, we_failures = 0, we_tripped = False\<rparr>) configs;
          seen = remdups (concat (map (\<lambda>h. wh_Events (we_cfg h)) hooks));
          (b', ids) = subscribe_all Subscribe seen handler b in
      (b', \<lparr>wm_hooks = hooks, wm_subIDs = ids\<rparr>))"

definition wm_Stop :: "'h WebhookManager \<Rightarrow> 'h Bus \<Rightarrow> 'h Bus" where
  "wm_Stop wm b = unsubscribe_all Unsubscribe (wm_subIDs wm) b"

lemma default_webhook_Events [simp]: "wh_Events (default_webhook c) = wh_Events c"
  by (simp add: default_webhook_def)

lemma stopped_webhooks_leave_no_handler:
  assumes "bus_wf b" and "bus_room (length (remdups (concat (map wh_Events configs)))) b"
    and "NewWebhookManager handler configs b = (b', wm)"
  shows "bus_handlers (wm_Stop wm b') t = bus_handlers b t"
proof -
  obtain ids where "subscribe_all Subscribe (remdups (concat (map wh_Events configs))) handler b = (b', ids)" "wm_subIDs wm = ids"
    using assms(3) by (auto simp: NewWebhookManager_def Let_def comp_def split: prod.splits)
  then show ?thesis using ev.teardown [OF assms(1,2)] by (simp add: wm_Stop_def)
qed

definition matchesEvent :: "event_type \<Rightarrow> webhookEntry \<Rightarrow> bool" where
  "matchesEvent t h \<longleftrightarrow> t \<in> set (wh_Events (we_cfg h))"

text \<open>The hooks, by index, that a delivery is started for.\<close>

definition dispatch :: "Event \<Rightarrow> 'h WebhookManager \<Rightarrow> nat list" where
  "dispatch e wm = filter (\<lambda>i. matchesEvent (ev_type e) (wm_hooks wm ! i)) [0..<length (wm_hooks wm)]"

section \<open>Delivery\<close>

text \<open>
  A request as the HTTP client gets it; the headers are keyed by their canonical form \<open>canon\<close>, later ones
  replacing earlier ones.  \<open>new_request\<close> is the error of \<open>http.NewRequest\<close>, \<open>exchange\<close> the answer of the server, its
  status, or the client's error.
\<close>

record 'p hook_request =
  hr_Method :: string
  hr_URL :: string
  hr_Headers :: "(string \<times> string) list"
  hr_Timeout :: int
  hr_Body :: 'p

record 'p http_client =
  hc_canon :: "string \<Rightarrow> string"
  hc_new_request :: "string \<Rightarrow> string option"
  hc_exchange :: "'p hook_request \<Rightarrow> string + int"

definition hook_headers :: "(string \<Rightarrow> string) \<Rightarrow> (string \<times> string) list \<Rightarrow> (string \<times> string) list" where
  "hook_headers canon hs =
     fold (\<lambda>(k, v). AList.update (canon k) v)
       ([(''Content-Type'', ''application/json''), (''User-Agent'', ''kahi-webhook/1.0'')] @ hs) []"

definition sendHTTP :: "'p http_client \<Rightarrow> webhookEntry \<Rightarrow> 'p \<Rightarrow> string option" where
  "sendHTTP c h payload =
     (case hc_new_request c (wh_URL (we_cfg h)) of
        Some err \<Rightarrow> Some err
      | None \<Rightarrow>
          (case hc_exchange c \<lparr>hr_Method = ''POST'', hr_URL = wh_URL (we_cfg h),
                  hr_Headers = hook_headers (hc_canon c) (wh_Headers (we_cfg h)), hr_Timeout = wh_Timeout (we_cfg h),
                  hr_Body = payload\<rparr> of
             Inl err \<Rightarrow> Some err
           | Inr status \<Rightarrow> if status \<ge> 400 then Some (''webhook returned '' @ itoa status) else None))"

text \<open>
  The attempts of one delivery, \<open>ok k\<close> telling whether the \<open>k\<close>-th succeeds: what it does, and whether
  it got through.  The delay is a 64-bit duration.
\<close>

datatype delivery_effect = Sleep int | Send

fun attempts :: "nat \<Rightarrow> nat \<Rightarrow> (nat \<Rightarrow> bool) \<Rightarrow> delivery_effect list \<times> bool" where
  "attempts k 0 ok = ([], False)"
| "attempts k (Suc n) ok =
     (let wait = (if k > 0 then [Sleep (i64 (push_bit (k - 1) 1 * 1000000000))] else []) in
      if ok k then (wait @ [Send], True)
      else (let (t, r) = attempts (Suc k) n ok in (wait @ Send # t, r)))"

definition deliver_attempts :: "webhookEntry \<Rightarrow> (nat \<Rightarrow> bool) \<Rightarrow> delivery_effect list \<times> bool" where
  "deliver_attempts h ok = attempts 0 (nat (wh_MaxRetries (we_cfg h))) ok"

text \<open>A delivery whose \<open>k\<close>-th request meets the client \<open>c k\<close>.\<close>

definition deliver_over :: "(nat \<Rightarrow> 'p http_client) \<Rightarrow> webhookEntry \<Rightarrow> 'p \<Rightarrow> delivery_effect list \<times> bool" where
  "deliver_over c h payload = deliver_attempts h (\<lambda>k. sendHTTP (c k) h payload = None)"

text \<open>The two critical sections of \<open>deliver\<close>; a delivery refused by the breaker does nothing more.\<close>

definition deliver_begin :: "webhookEntry \<Rightarrow> bool" where
  "deliver_begin h \<longleftrightarrow> \<not> we_tripped h"

definition deliver_end :: "bool \<Rightarrow> webhookEntry \<Rightarrow> webhookEntry" where
  "deliver_end ok h =
     (if ok then h\<lparr>we_failures := 0\<rparr>
      else let h1 = h\<lparr>we_failures := we_failures h + 1\<rparr> in
           if we_failures h1 \<ge> 5 then h1\<lparr>we_tripped := True\<rparr> else h1)"

section \<open>Payloads\<close>

text \<open>The JSON object before its encoding; the order of the pairs in the text is that of the map.\<close>

datatype json = JStr string | JMap "(string \<times> json) list"

definition formatEventData :: "(string \<times> string) list \<Rightarrow> string" where
  "formatEventData data = join '' '' (map (\<lambda>(k, v). k @ ''='' @ v) data)"

definition pagerDutySeverity :: "event_type \<Rightarrow> string" where
  "pagerDutySeverity t =
     (if t = ProcessStateFatal then ''critical''
      else if t = ProcessStateExited then ''error''
      else if t = ProcessStateBackoff then ''warning''
      else ''info'')"

definition data_of :: "Event \<Rightarrow> string \<Rightarrow> string" where
  "data_of e k = (case map_of (ev_data e) k of None \<Rightarrow> [] | Some v \<Rightarrow> v)"

definition buildPayload :: "(int \<Rightarrow> string) \<Rightarrow> string \<Rightarrow> Event \<Rightarrow> json" where
  "buildPayload fmt_time tmpl e =
     (if tmpl = ''slack'' then JMap [(''text'', JStr (''['' @ ev_type e @ ''] '' @ formatEventData (ev_data e)))]
      else if tmpl = ''pagerduty'' then
        JMap [(''routing_key'', JStr []), (''event_action'', JStr ''trigger''),
          (''payload'', JMap [(''summary'', JStr (ev_type e @ '': '' @ formatEventData (ev_data e))),
             (''source'', JStr ''kahi''), (''severity'', JStr (pagerDutySeverity (ev_type e))),
             (''timestamp'', JStr (fmt_time (ev_time e)))])]
      else JMap [(''event'', JStr (ev_type e)), (''timestamp'', JStr (fmt_time (ev_time e))),
          (''process'', JStr (data_of e ''name'')), (''group'', JStr (data_of e ''group'')),
          (''details'', JMap (map (\<lambda>(k, v). (k, JStr v)) (ev_data e)))])"

section \<open>Addresses\<close>

text \<open>\<open>url.Parse\<close>: the scheme, the host and the host name without its port.\<close>

record parsed_url =
  pu_Scheme :: string
  pu_Host :: string
  pu_Hostname :: string

datatype url_error = BadURL string | BadURLFormat string | NeedsHTTPS string

definition ValidateWebhookURL :: "(string \<Rightarrow> parsed_url option) \<Rightarrow> string \<Rightarrow> bool \<Rightarrow> url_error option" where
  "ValidateWebhookURL parse raw allowInsecure =
     (case parse raw of
        None \<Rightarrow> Some (BadURL raw)
      | Some u \<Rightarrow>
          if pu_Scheme u = [] \<or> pu_Host u = [] then Some (BadURLFormat raw)
          else if pu_Scheme u = ''http'' then
            (let isLocal = pu_Hostname u \<in> {''localhost'', ''127.0.0.1'', ''::1''} in
             if \<not> isLocal \<and> \<not> allowInsecure then Some (NeedsHTTPS raw) else None)
          else None)"

datatype expand_error = Unclosed string | Undefined string

text \<open>The scan of the rest of a string; \<open>whole\<close> is quoted in the error.\<close>

function expand_from :: "(string \<Rightarrow> string option) \<Rightarrow> string \<Rightarrow> string \<Rightarrow> expand_error + string" where
  "expand_from env whole [] = Inr []"
| "expand_from env whole (c # cs) =
     (if has_prefix (c # cs) ''${'' then
        (case cut (CHR ''}'') (tl cs) of
           (name, None) \<Rightarrow> Inl (Unclosed whole)
         | (name, Some rest) \<Rightarrow>
             (case env name of
                None \<Rightarrow> Inl (Undefined name)
              | Some v \<Rightarrow> (case expand_from env whole rest of Inl err \<Rightarrow> Inl err | Inr r \<Rightarrow> Inr (v @ r))))
      else (case expand_from env whole cs of Inl err \<Rightarrow> Inl err | Inr r \<Rightarrow> Inr (c # r)))"
  by pat_completeness auto
termination
proof (relation "measure (\<lambda>(env, whole, s). length s)", goal_cases)
  case (2 env whole c cs x xa xb xc)
  then show ?case using cut_shorter [of "CHR ''}''" "tl cs"] by (metis (no_types, lifting) case_prod_conv in_measure
      le_imp_less_Suc length_Cons length_tl less_imp_le less_le_trans diff_le_self)
qed auto

definition ExpandWebhookEnv :: "(string \<Rightarrow> string option) \<Rightarrow> string \<Rightarrow> expand_error + string" where
  "ExpandWebhookEnv env s = expand_from env s s"

section \<open>The circuit breaker\<close>

text \<open>How many deliveries have failed since the last success, in a list of outcomes in their order.\<close>

definition failing_run :: "bool list \<Rightarrow> nat" where
  "failing_run oks = length (takeWhile Not (rev oks))"

definition fresh_hook :: "WebhookConfig \<Rightarrow> webhookEntry" where
  "fresh_hook c = \<lparr>we_cfg = default_webhook c, we_failures = 0, we_tripped = False\<rparr>"

lemma failing_run_snoc: "failing_run (oks @ [ok]) = (if ok then 0 else Suc (failing_run oks))"
  by (simp add: failing_run_def)

lemma outcomes_state:
  "we_failures (fold deliver_end oks (fresh_hook c)) = int (failing_run oks) \<and>
   (we_tripped (fold deliver_end oks (fresh_hook c)) \<longleftrightarrow> (\<exists>k\<le>length oks. 5 \<le> failing_run (take k oks)))"
proof (induction oks rule: rev_induct)
  case Nil
  show ?case by (simp add: fresh_hook_def failing_run_def)
next
  case (snoc ok oks)
  have "(\<exists>k\<le>length (oks @ [ok]). 5 \<le> failing_run (take k (oks @ [ok]))) \<longleftrightarrow>
      (\<exists>k\<le>length oks. 5 \<le> failing_run (take k oks)) \<or> 5 \<le> failing_run (oks @ [ok])"
    by (auto simp: le_Suc_eq)
  then show ?case using snoc.IH by (simp add: deliver_end_def Let_def failing_run_snoc)
qed

text \<open>
  The circuit breaker counts failures in a row and never closes again: after any
  outcomes of deliveries, in whatever order they ended, it is open exactly if five of them failed one
  after the other at some time, and once it is open no delivery is ever begun, although successes of
  deliveries still in flight reset the count.
\<close>

theorem open_breaker_stays_open:
  "let h = fold deliver_end oks (fresh_hook c) in
     we_failures h = int (failing_run oks) \<and>
     (deliver_begin h \<longleftrightarrow> \<not> (\<exists>k\<le>length oks. 5 \<le> failing_run (take k oks))) \<and>
     (\<not> deliver_begin h \<longrightarrow> \<not> deliver_begin (fold deliver_end later h))"
proof -
  have "\<not> deliver_begin (fold deliver_end later h)" if "\<not> deliver_begin h" for h
    using that by (induction later arbitrary: h) (simp_all add: deliver_begin_def deliver_end_def Let_def)
  then show ?thesis using outcomes_state [of oks c] by (simp add: Let_def deliver_begin_def)
qed

theorem open_breaker_stays_open_witness:
  "\<not> deliver_begin (fold deliver_end [True, True] (fold deliver_end [False, False, False, False, False]
     (fresh_hook \<lparr>wh_Name = ''ops'', wh_URL = ''https://example.org'', wh_Events = [], wh_Headers = [], wh_Timeout = 0,
        wh_MaxRetries = 0, wh_Template = [], wh_AllowInsecure = False\<rparr>)))"
proof -
  have f: "failing_run [False, False, False, False, False] = 5" by (simp add: failing_run_def)
  have "\<exists>k\<le>length [False, False, False, False, False]. 5 \<le> failing_run (take k [False, False, False, False, False])"
    by (rule exI [of _ 5]) (simp add: f)
  then show ?thesis
    using open_breaker_stays_open [of "[False, False, False, False, False]" _ "[True, True]"]
    unfolding Let_def by blast
qed

section \<open>Attempts\<close>

fun sends :: "delivery_effect list \<Rightarrow> nat" where
  "sends [] = 0"
| "sends (Send # t) = Suc (sends t)"
| "sends (Sleep _ # t) = sends t"

lemma sends_append [simp]: "sends (t @ u) = sends t + sends u"
  by (induction t rule: sends.induct) simp_all

text \<open>A delivery gets through iff one of its attempts does, and makes no attempt after that.\<close>

lemma first_or_later: "(\<exists>j<Suc n. ok (k + j)) \<longleftrightarrow> ok k \<or> (\<exists>j<n. ok (Suc k + j))"
  by (metis add_0_right add_Suc_right add_Suc less_Suc_eq_0_disj)

lemma attempts_result:
  "snd (attempts k n ok) \<longleftrightarrow> (\<exists>j<n. ok (k + j))"
  "sends (fst (attempts k n ok)) = (if \<exists>j<n. ok (k + j) then Suc (LEAST j. ok (k + j)) else n)"
proof (induction n arbitrary: k)
  case (Suc n)
  {
    case 1
    have "snd (attempts k (Suc n) ok) \<longleftrightarrow> ok k \<or> snd (attempts (Suc k) n ok)" by (simp add: Let_def case_prod_beta)
    also have "\<dots> \<longleftrightarrow> (\<exists>j<Suc n. ok (k + j))" unfolding Suc.IH(1) by (rule first_or_later [symmetric])
    finally show ?case .
  next
    case 2
    show ?case
    proof (cases "ok k")
      case True
      then have "(LEAST j. ok (k + j)) = 0" by (intro Least_equality) auto
      then show ?thesis using True first_or_later [of n ok k] by (simp add: Let_def)
    next
      case False
      then have "sends (fst (attempts k (Suc n) ok)) = Suc (sends (fst (attempts (Suc k) n ok)))"
        by (simp add: Let_def case_prod_beta)
      moreover have "(LEAST j. ok (k + j)) = Suc (LEAST j. ok (Suc k + j))" if "ok (Suc k + j)" for j
        using Least_Suc [of "\<lambda>j. ok (k + j)" "Suc j"] that False by simp
      ultimately show ?thesis unfolding first_or_later Suc.IH(2) using False by auto
    qed
  }
qed simp_all

text \<open>
  A webhook that answers with an error status on every attempt gets exactly as many requests as the configuration
  allows, each the same POST; none is made after an answer below 400.
\<close>

lemma refused_delivery_is_retried:
  assumes "\<And>k r. k < nat (wh_MaxRetries (we_cfg h)) \<Longrightarrow> \<exists>status\<ge>400. hc_exchange (c k) r = Inr status"
  shows "deliver_over c h payload = (fst (deliver_over c h payload), False)"
    and "sends (fst (deliver_over c h payload)) = nat (wh_MaxRetries (we_cfg h))"
proof -
  have "sendHTTP (c k) h payload \<noteq> None" if lt: "k < nat (wh_MaxRetries (we_cfg h))" for k
  proof (cases "hc_new_request (c k) (wh_URL (we_cfg h))")
    case None
    obtain status where "status \<ge> 400" "hc_exchange (c k) \<lparr>hr_Method = ''POST'', hr_URL = wh_URL (we_cfg h),
        hr_Headers = hook_headers (hc_canon (c k)) (wh_Headers (we_cfg h)), hr_Timeout = wh_Timeout (we_cfg h),
        hr_Body = payload\<rparr> = Inr status" using assms [OF lt] by blast
    then show ?thesis using None by (simp add: sendHTTP_def)
  qed (simp add: sendHTTP_def)
  then have none: "(\<exists>j<nat (wh_MaxRetries (we_cfg h)). sendHTTP (c j) h payload = None) = False" by blast
  show "deliver_over c h payload = (fst (deliver_over c h payload), False)"
      "sends (fst (deliver_over c h payload)) = nat (wh_MaxRetries (we_cfg h))"
    using attempts_result [of 0 "nat (wh_MaxRetries (we_cfg h))" "\<lambda>k. sendHTTP (c k) h payload = None"]
    by (simp_all add: deliver_over_def deliver_attempts_def prod_eq_iff none del: not_None_eq not_Some_eq)
qed

end
