(* ===== verification/Migrate.thy ===== *)
theory Migrate
  imports Config_Load
begin

text \<open>
  \<open>internal/migrate\<close>: the conversion of a supervisord configuration to kahi's.  \<open>ini.go\<close> parses the INI
  file, \<open>mapping.go\<close> converts the options, \<open>migrate.go\<close> writes the TOML text and checks it by loading it.
  Regular expressions are written out as the scanners they are.
\<close>

section \<open>Scanners\<close>

text \<open>
  Replacing the leftmost matches of a pattern: \<open>m\<close> matches a prefix and gives what it found and the rest.
\<close>

function scan_replace :: "(string \<Rightarrow> ('a \<times> string) option) \<Rightarrow> ('a \<Rightarrow> string) \<Rightarrow> string \<Rightarrow> string" where
  "scan_replace m f [] = []"
| "scan_replace m f (c # cs) =
     (case m (c # cs) of
        Some (x, rest) \<Rightarrow> if length rest \<le> length cs then f x @ scan_replace m f rest else c # scan_replace m f cs
      | None \<Rightarrow> c # scan_replace m f cs)"
  by pat_completeness auto
termination
  by (relation "measure (\<lambda>(m, f, s). length s)") auto

function scan_matches :: "(string \<Rightarrow> ('a \<times> string) option) \<Rightarrow> string \<Rightarrow> 'a list" where
  "scan_matches m [] = []"
| "scan_matches m (c # cs) =
     (case m (c # cs) of
        Some (x, rest) \<Rightarrow> if length rest \<le> length cs then x # scan_matches m rest else scan_matches m cs
      | None \<Rightarrow> scan_matches m cs)"
  by pat_completeness auto
termination
  by (relation "measure (\<lambda>(m, s). length s)") auto

text \<open>\<open>supervisordEnvVarRe\<close> and \<open>supervisordVarRe\<close> at the start of a string.\<close>

definition match_env_var :: "string \<Rightarrow> (string \<times> string) option" where
  "match_env_var s =
     (if has_prefix s ''%(ENV_'' then
        (let r = drop 6 s; name = takeWhile (\<lambda>c. is_letter c \<or> is_digit c \<or> c = CHR ''_'') r;
             after = drop (length name) r in
         if name \<noteq> [] \<and> \<not> is_digit (hd name) \<and> has_prefix after '')s'' then Some (name, drop 2 after) else None)
      else None)"

definition match_var :: "string \<Rightarrow> ((string \<times> string \<times> char) \<times> string) option" where
  "match_var s =
     (if has_prefix s ''%('' then
        (let r = drop 2 s; name = takeWhile (\<lambda>c. is_lower c \<or> c = CHR ''_'') r; after = drop (length name) r in
         if name \<noteq> [] \<and> has_prefix after '')'' then
           (let width = takeWhile is_digit (tl after) in
            case drop (length width) (tl after) of
              [] \<Rightarrow> None
            | verb # rest \<Rightarrow>
                if verb = CHR ''s'' \<or> verb = CHR ''d'' then Some ((name, width, verb), rest) else None)
         else None)
      else None)"

definition kahiVars :: "string list" where
  "kahiVars = [''here'', ''program_name'', ''group_name'', ''process_num'', ''numprocs'']"

definition var_text :: "string \<times> string \<times> char \<Rightarrow> string" where
  "var_text v = (case v of (name, width, verb) \<Rightarrow> ''%('' @ name @ '')'' @ width @ [verb])"

definition rewrite_var :: "string \<times> string \<times> char \<Rightarrow> string" where
  "rewrite_var v =
     (case v of (name, width, verb) \<Rightarrow>
        if name \<notin> set kahiVars then var_text v
        else if width \<noteq> [] then ''%('' @ name @ '')'' @ [verb]
        else var_text v)"

definition var_warnings :: "string \<times> string \<times> char \<Rightarrow> string list" where
  "var_warnings v =
     (case v of (name, width, verb) \<Rightarrow>
        if name \<notin> set kahiVars then [var_text v @ '' is not a Kahi variable; left as is'']
        else if width \<noteq> [] then [var_text v @ '': Kahi has no number padding; wrote '' @ rewrite_var v]
        else [])"

definition expandSupervisordVars :: "string \<Rightarrow> string \<times> string list" where
  "expandSupervisordVars s =
     (let v = scan_replace match_env_var (\<lambda>name. ''${'' @ name @ ''}'') s in
      (scan_replace match_var rewrite_var v, concat (map var_warnings (scan_matches match_var v))))"

text \<open>\<open>stripInlineComment\<close>: the flags are those of the loop, \<open>prev\<close> the character before.\<close>

fun strip_from :: "bool \<Rightarrow> bool \<Rightarrow> char option \<Rightarrow> string \<Rightarrow> string" where
  "strip_from inSingle inDouble prev [] = []"
| "strip_from inSingle inDouble prev (c # cs) =
     (if c = CHR 0x27 then c # strip_from (if inDouble then inSingle else \<not> inSingle) inDouble (Some c) cs
      else if c = CHR 0x22 then c # strip_from inSingle (if inSingle then inDouble else \<not> inDouble) (Some c) cs
      else if c = CHR '';'' \<and> \<not> inSingle \<and> \<not> inDouble \<and>
        (prev = None \<or> prev = Some (CHR '' '') \<or> prev = Some (CHR 0x09)) then []
      else c # strip_from inSingle inDouble (Some c) cs)"

definition stripInlineComment :: "string \<Rightarrow> string" where
  "stripInlineComment line = strip_from False False None line"

section \<open>The INI file\<close>

text \<open>The comment of a section is never set.\<close>

record INISection =
  is_Type :: string
  is_Name :: string
  is_Options :: "(string \<times> string) list"

record INIFile =
  ini_Sections :: "INISection list"
  ini_Warnings :: "string list"

definition knownSectionTypes :: "string list" where
  "knownSectionTypes = [''supervisord'', ''program'', ''group'', ''eventlistener'', ''fcgi-program'', ''include'',
     ''unix_http_server'', ''inet_http_server'']"

text \<open>\<open>sectionHeaderRe\<close> on a trimmed line: the type and the name.\<close>

definition is_re_space :: "char \<Rightarrow> bool" where
  "is_re_space c \<longleftrightarrow> c \<in> {CHR 0x09, CHR 0x0A, CHR 0x0C, CHR 0x0D, CHR 0x20}"

definition header_end :: "string \<Rightarrow> bool" where
  "header_end s \<longleftrightarrow> (case dropWhile is_re_space s of [] \<Rightarrow> True | c # _ \<Rightarrow> c = CHR '';'')"

definition match_header :: "string \<Rightarrow> (string \<times> string) option" where
  "match_header s =
     (case s of
        [] \<Rightarrow> None
      | c # r \<Rightarrow>
          if c \<noteq> CHR ''['' then None
          else
            (let ty = takeWhile (\<lambda>c. is_letter c \<or> c = CHR ''_'' \<or> c = CHR ''-'') r; after = drop (length ty) r in
             if ty = [] then None
             else case after of
               [] \<Rightarrow> None
             | d # r2 \<Rightarrow>
                 if d = CHR '']'' then (if header_end r2 then Some (ty, []) else None)
                 else if d = CHR '':'' then
                   (let name = takeWhile (\<lambda>c. c \<noteq> CHR '']'') r2; r3 = drop (length name) r2 in
                    if name \<noteq> [] \<and> r3 \<noteq> [] \<and> header_end (tl r3) then Some (ty, name) else None)
                 else None))"

text \<open>The current section is always the last one; no key yet is the empty key.\<close>

record ini_state =
  in_file :: INIFile
  in_lastKey :: string

definition set_option :: "string \<Rightarrow> string \<Rightarrow> INIFile \<Rightarrow> INIFile" where
  "set_option k v f =
     (let s = last (ini_Sections f) in
      f\<lparr>ini_Sections := butlast (ini_Sections f) @ [s\<lparr>is_Options := AList.update k v (is_Options s)\<rparr>]\<rparr>)"

definition option_of :: "INISection \<Rightarrow> string \<Rightarrow> string" where
  "option_of s k = (case map_of (is_Options s) k of None \<Rightarrow> [] | Some v \<Rightarrow> v)"

definition parse_line :: "nat \<Rightarrow> string \<Rightarrow> ini_state \<Rightarrow> string + ini_state" where
  "parse_line n line st =
     (let trimmed = TrimSpace (stripInlineComment line); f = in_file st in
      if trimmed = [] \<or> has_prefix trimmed ''#'' \<or> has_prefix trimmed '';'' then Inr st
      else if (hd line = CHR '' '' \<or> hd line = CHR 0x09) \<and> ini_Sections f \<noteq> [] \<and> in_lastKey st \<noteq> []
      then Inr (st\<lparr>in_file := set_option (in_lastKey st)
                   (option_of (last (ini_Sections f)) (in_lastKey st) @ '' '' @ trimmed) f\<rparr>)
      else case match_header trimmed of
        Some (ty, name) \<Rightarrow>
          Inr (st\<lparr>in_file := f\<lparr>ini_Sections := ini_Sections f @ [\<lparr>is_Type = ty, is_Name = name, is_Options = []\<rparr>],
                    ini_Warnings := ini_Warnings f @
                      (if ty \<in> set knownSectionTypes then [] else [''unknown section type: '' @ ty])\<rparr>,
                  in_lastKey := []\<rparr>)
      | None \<Rightarrow>
          (case cut (CHR ''='') trimmed of
             (_, None) \<Rightarrow> Inl (''parse error at line '' @ itoa (int n) @ '': expected key=value, got '' @ go_quote trimmed)
           | (k, Some v) \<Rightarrow>
               if ini_Sections f = []
               then Inl (''parse error at line '' @ itoa (int n) @ '': key-value pair outside of any section'')
               else (let key = TrimSpace k; (val, ws) = expandSupervisordVars (TrimSpace v);
                         f1 = f\<lparr>ini_Warnings := ini_Warnings f @
                           map (\<lambda>w. ''line '' @ itoa (int n) @ '': '' @ w) ws\<rparr>
                     in Inr \<lparr>in_file = set_option key val f1, in_lastKey = key\<rparr>)))"

fun parse_lines :: "nat \<Rightarrow> string list \<Rightarrow> ini_state \<Rightarrow> string + ini_state" where
  "parse_lines n [] st = Inr st"
| "parse_lines n (l # ls) st =
     (case parse_line (Suc n) l st of Inl err \<Rightarrow> Inl err | Inr st' \<Rightarrow> parse_lines (Suc n) ls st')"

text \<open>
  \<open>bufio.Scanner\<close>: lines without their ends, a final empty line dropped; a line that does not fit the
  64 KB buffer ends the scan with an error, after the lines before it.
\<close>

definition strip_cr :: "string \<Rightarrow> string" where
  "strip_cr l = (if l \<noteq> [] \<and> last l = CHR 0x0D then butlast l else l)"

definition scan_lines :: "string \<Rightarrow> string list \<times> bool" where
  "scan_lines s =
     (let ls = split_on (CHR 0x0A) s; ls' = (if last ls = [] then butlast ls else ls);
          short = takeWhile (\<lambda>l. length l < 65536) ls'
      in (map strip_cr short, length short < length ls'))"

definition ParseINI :: "string \<Rightarrow> string + INIFile" where
  "ParseINI s =
     (let (ls, tooLong) = scan_lines s in
      case parse_lines 0 ls \<lparr>in_file = \<lparr>ini_Sections = [], ini_Warnings = []\<rparr>, in_lastKey = []\<rparr> of
        Inl err \<Rightarrow> Inl err
      | Inr st \<Rightarrow> if tooLong then Inl ''read error: bufio.Scanner: token too long'' else Inr (in_file st))"

definition ParseBool :: "string \<Rightarrow> bool option" where
  "ParseBool s =
     (let v = ToLower (TrimSpace s) in
      if v \<in> {''true'', ''yes'', ''on'', ''1''} then Some True
      else if v \<in> {''false'', ''no'', ''off'', ''0''} then Some False
      else None)"

section \<open>Options\<close>

record OptionMapping =
  om_KahiKey :: string
  om_Type :: string
  om_Unsupported :: bool
  om_Renamed :: string

definition typed :: "string \<Rightarrow> OptionMapping" where
  "typed ty = \<lparr>om_KahiKey = [], om_Type = ty, om_Unsupported = False, om_Renamed = []\<rparr>"

definition unsupported :: OptionMapping where
  "unsupported = \<lparr>om_KahiKey = [], om_Type = [], om_Unsupported = True, om_Renamed = []\<rparr>"

definition programMappings :: "(string \<times> OptionMapping) list" where
  "programMappings = [
    (''command'', typed ''string''), (''process_name'', typed ''string''), (''numprocs'', typed ''int''),
    (''numprocs_start'', typed ''int''), (''priority'', typed ''int''), (''autostart'', typed ''bool''),
    (''autorestart'', typed ''string''), (''startsecs'', typed ''int''), (''startretries'', typed ''int''),
    (''exitcodes'', typed ''intlist''), (''stopsignal'', typed ''signal''),
    (''stopwaitsecs'', typed ''int''), (''stopasgroup'', typed ''bool''), (''killasgroup'', typed ''bool''),
    (''user'', typed ''string''), (''directory'', typed ''string''), (''umask'', typed ''string''),
    (''environment'', typed ''env''), (''redirect_stderr'', typed ''bool''),
    (''stdout_logfile'', typed ''string''), (''stdout_logfile_maxbytes'', typed ''bytes''),
    (''stdout_logfile_backups'', typed ''int''), (''stdout_capture_maxbytes'', unsupported),
    (''stdout_syslog'', unsupported), (''stderr_logfile'', typed ''string''),
    (''stderr_logfile_maxbytes'', typed ''bytes''), (''stderr_logfile_backups'', typed ''int''),
    (''stderr_capture_maxbytes'', unsupported), (''stderr_syslog'', unsupported),
    (''stdout_events_enabled'', unsupported), (''stderr_events_enabled'', unsupported),
    (''serverurl'', unsupported)]"

definition supervisordMappings :: "(string \<times> OptionMapping) list" where
  "supervisordMappings = [
    (''logfile'', \<lparr>om_KahiKey = ''logfile'', om_Type = ''string'', om_Unsupported = False, om_Renamed = []\<rparr>),
    (''logfile_maxbytes'', unsupported), (''logfile_backups'', unsupported),
    (''loglevel'', \<lparr>om_KahiKey = ''log_level'', om_Type = ''string'', om_Unsupported = False, om_Renamed = ''loglevel''\<rparr>),
    (''pidfile'', unsupported), (''nodaemon'', unsupported), (''silent'', unsupported),
    (''minfds'', unsupported), (''minprocs'', unsupported), (''nocleanup'', unsupported),
    (''childlogdir'', unsupported), (''user'', unsupported), (''directory'', unsupported),
    (''strip_ansi'', unsupported), (''environment'', unsupported), (''identifier'', unsupported)]"

definition groupMappings :: "(string \<times> OptionMapping) list" where
  "groupMappings = [
    (''programs'', typed ''stringlist''), (''priority'', typed ''int'')]"

record MappedOption =
  mo_Key :: string
  mo_Value :: string
  mo_Comment :: string
  mo_Unsupported :: bool

definition NormalizeSignal :: "string \<Rightarrow> string" where
  "NormalizeSignal s = trim_prefix (TrimSpace (ToUpper s)) ''SIG''"

definition convertValue :: "string \<Rightarrow> string \<Rightarrow> string" where
  "convertValue v ty =
     (if ty = ''int'' then (case atoi v of Some n \<Rightarrow> itoa n | None \<Rightarrow> go_quote v)
      else if ty = ''bool'' then
        (case ParseBool v of None \<Rightarrow> go_quote v | Some b \<Rightarrow> if b then ''true'' else ''false'')
      else if ty = ''signal'' then go_quote (NormalizeSignal v)
      else if ty = ''intlist'' then
        ''['' @ join '', '' (concat (map (\<lambda>p. case atoi (TrimSpace p) of Some n \<Rightarrow> [itoa n] | None \<Rightarrow> [])
           (split_on (CHR '','') v))) @ '']''
      else if ty = ''stringlist'' then
        ''['' @ join '', '' (map (\<lambda>p. go_quote (TrimSpace p)) (split_on (CHR '','') v)) @ '']''
      else go_quote v)"

definition mapOption :: "string \<Rightarrow> string \<Rightarrow> (string \<times> OptionMapping) list \<Rightarrow> MappedOption" where
  "mapOption key v mappings =
     (case map_of mappings key of
        None \<Rightarrow> \<lparr>mo_Key = key, mo_Value = go_quote v,
          mo_Comment = ''UNSUPPORTED: '' @ key @ '' = '' @ v @ '' (unknown option)'', mo_Unsupported = True\<rparr>
      | Some om \<Rightarrow>
          if om_Unsupported om
          then \<lparr>mo_Key = key, mo_Value = v, mo_Comment = ''UNSUPPORTED: '' @ key @ '' = '' @ v, mo_Unsupported = True\<rparr>
          else \<lparr>mo_Key = (if om_KahiKey om = [] then key else om_KahiKey om), mo_Value = convertValue v (om_Type om),
            mo_Comment = (if om_Renamed om = [] then [] else ''renamed from '' @ go_quote (om_Renamed om)),
            mo_Unsupported = False\<rparr>)"

definition MapProgramOption :: "string \<Rightarrow> string \<Rightarrow> MappedOption" where
  "MapProgramOption key v = mapOption key v programMappings"

definition MapSupervisordOption :: "string \<Rightarrow> string \<Rightarrow> MappedOption" where
  "MapSupervisordOption key v = mapOption key v supervisordMappings"

definition MapGroupOption :: "string \<Rightarrow> string \<Rightarrow> MappedOption" where
  "MapGroupOption key v = mapOption key v groupMappings"

section \<open>The TOML text\<close>

definition nl :: string where "nl = [CHR 0x0A]"

text \<open>Each writer gives its text and its warnings.\<close>

type_synonym written = "string \<times> string list"

definition write_all :: "written list \<Rightarrow> written" where
  "write_all ws = (concat (map fst ws), concat (map snd ws))"

definition sortedKeys :: "(string \<times> string) list \<Rightarrow> string list" where
  "sortedKeys m = sort_strings (map fst m)"

definition writeOption :: "MappedOption \<Rightarrow> string" where
  "writeOption opt =
     (if mo_Unsupported opt then ''# '' @ mo_Comment opt @ nl
      else if mo_Comment opt \<noteq> [] then mo_Key opt @ '' = '' @ mo_Value opt @ '' # '' @ mo_Comment opt @ nl
      else mo_Key opt @ '' = '' @ mo_Value opt @ nl)"

definition write_mapped :: "string \<Rightarrow> string \<Rightarrow> MappedOption \<Rightarrow> written" where
  "write_mapped prefix_text key opt =
     (writeOption opt, if mo_Unsupported opt then [prefix_text @ '': unsupported option '' @ go_quote key] else [])"

definition writeSupervisorSection :: "INISection \<Rightarrow> written" where
  "writeSupervisorSection sec =
     write_all ([(''[supervisor]'' @ nl, [])] @
       map (\<lambda>k. write_mapped ''supervisord'' k (MapSupervisordOption k (option_of sec k))) (sortedKeys (is_Options sec)) @
       [(nl, [])])"

text \<open>\<open>strings.Trim\<close> of the quotes on both sides.\<close>

definition is_quote :: "char \<Rightarrow> bool" where "is_quote c \<longleftrightarrow> c = CHR 0x22 \<or> c = CHR 0x27"

definition trim_quotes :: "string \<Rightarrow> string" where
  "trim_quotes s = rev (dropWhile is_quote (rev (dropWhile is_quote s)))"

definition env_pair :: "string \<Rightarrow> (string \<times> string) list \<Rightarrow> (string \<times> string) list" where
  "env_pair p env =
     (case cut (CHR ''='') (TrimSpace p) of
        (_, None) \<Rightarrow> env
      | (k, Some v) \<Rightarrow> AList.update (TrimSpace k) (trim_quotes (TrimSpace v)) env)"

definition parseEnvironment :: "string \<Rightarrow> (string \<times> string) list" where
  "parseEnvironment s = fold env_pair (split_on (CHR '','') s) []"

definition write_program_option :: "INISection \<Rightarrow> string \<Rightarrow> written" where
  "write_program_option sec k =
     (let v = option_of sec k; zero = (k = ''stopwaitsecs'' \<and> TrimSpace v = ''0'');
          (t, ws) = write_mapped (''programs.'' @ is_Name sec) k (MapProgramOption k (if zero then ''1'' else v)) in
      (t, (if zero then [''programs.'' @ is_Name sec @ '': stopwaitsecs = 0 is not allowed; wrote 1 (use stopsignal = KILL for an immediate kill)'']
           else []) @ ws))"

definition writeProgramSection :: "INISection \<Rightarrow> written" where
  "writeProgramSection sec =
     (let keys = sortedKeys (is_Options sec);
          env = (if ''environment'' \<in> set keys then parseEnvironment (option_of sec ''environment'') else []) in
      write_all ([(''[programs.'' @ is_Name sec @ '']'' @ nl, [])] @
        map (write_program_option sec) (filter (\<lambda>k. k \<noteq> ''environment'') keys) @
        (if env = [] then []
         else (''[programs.'' @ is_Name sec @ ''.environment]'' @ nl, []) #
           map (\<lambda>k. (k @ '' = '' @ go_quote (case map_of env k of None \<Rightarrow> [] | Some v \<Rightarrow> v) @ nl, [])) (sortedKeys env)) @
        [(nl, [])]))"

definition writeGroupSection :: "INISection \<Rightarrow> written" where
  "writeGroupSection sec =
     write_all ([(''[groups.'' @ is_Name sec @ '']'' @ nl, [])] @
       map (\<lambda>k. write_mapped (''groups.'' @ is_Name sec) k (MapGroupOption k (option_of sec k))) (sortedKeys (is_Options sec)) @
       [(nl, [])])"

text \<open>An option the server writers do not know; Go iterates over the map in an order of its own.\<close>

definition write_unknown :: "string \<Rightarrow> string list \<Rightarrow> INISection \<Rightarrow> written list" where
  "write_unknown prefix_text known sec =
     map (\<lambda>(k, v). (''# UNSUPPORTED: '' @ k @ '' = '' @ v @ nl, [prefix_text @ '': unsupported option '' @ go_quote k]))
       (filter (\<lambda>(k, v). k \<notin> set known) (is_Options sec))"

definition write_known :: "string \<Rightarrow> (string \<Rightarrow> string) \<Rightarrow> string \<Rightarrow> INISection \<Rightarrow> written list" where
  "write_known key f name sec =
     (case map_of (is_Options sec) key of None \<Rightarrow> [] | Some v \<Rightarrow> [(name @ '' = '' @ go_quote (f v) @ nl, [])])"

definition writeUnixServerSection :: "INISection \<Rightarrow> written" where
  "writeUnixServerSection sec =
     write_all ([(''[server.unix]'' @ nl, [])] @ write_known ''file'' (\<lambda>v. v) ''file'' sec @
       write_known ''chmod'' (\<lambda>v. v) ''chmod'' sec @ write_unknown ''server.unix'' [''file'', ''chmod''] sec @ [(nl, [])])"

definition listenAddress :: "string \<Rightarrow> string" where
  "listenAddress port =
     (if has_prefix port ''*:'' then '':'' @ drop 2 port
      else if \<not> contains port '':'' then '':'' @ port
      else port)"

definition writeHTTPServerSection :: "INISection \<Rightarrow> written" where
  "writeHTTPServerSection sec =
     write_all ([(''[server.http]'' @ nl, []), (''enabled = true'' @ nl, [])] @
       write_known ''port'' listenAddress ''listen'' sec @ write_known ''username'' (\<lambda>v. v) ''username'' sec @
       write_known ''password'' (\<lambda>v. v) ''password'' sec @
       write_unknown ''server.http'' [''port'', ''username'', ''password''] sec @ [(nl, [])])"

definition backtick :: string where "backtick = [CHR 0x60]"

definition writeIncludeSection :: "INISection \<Rightarrow> written" where
  "writeIncludeSection sec =
     (case map_of (is_Options sec) ''files'' of
        None \<Rightarrow> ([], [])
      | Some files \<Rightarrow>
          (''# supervisord includes INI files; migrate each one with '' @ backtick @ ''kahi migrate'' @ backtick @ '','' @ nl @
           ''# then enable this include with the .toml names:'' @ nl @
           ''# include = ['' @ join '', '' (map go_quote (Fields files)) @ '']'' @ nl @ nl,
           [''[include] files = '' @ files @
            '': included INI files are not converted; migrate each and enable the commented include'']))"

definition write_other :: "INISection \<Rightarrow> written" where
  "write_other sec =
     (''# UNSUPPORTED SECTION: ['' @ is_Type sec @ (if is_Name sec = [] then [] else '':'' @ is_Name sec) @ '']'' @ nl @
      concat (map (\<lambda>(k, v). ''# '' @ k @ '' = '' @ v @ nl) (is_Options sec)) @ nl,
      [''unsupported section type: '' @ is_Type sec])"

definition of_type :: "string \<Rightarrow> INIFile \<Rightarrow> INISection list" where
  "of_type ty f = filter (\<lambda>s. is_Type s = ty) (ini_Sections f)"

definition by_section_name :: "INISection list \<Rightarrow> INISection list" where
  "by_section_name ss = sort_slice (\<lambda>a b. is_Name a < is_Name b) ss"

text \<open>The server sections are written in the order of the file.\<close>

definition write_server :: "INISection \<Rightarrow> written" where
  "write_server s =
     (if is_Type s = ''unix_http_server'' then writeUnixServerSection s
      else if is_Type s = ''inet_http_server'' then writeHTTPServerSection s
      else ([], []))"

definition handled_types :: "string list" where
  "handled_types = [''supervisord'', ''program'', ''group'', ''include'', ''unix_http_server'', ''inet_http_server'']"

definition generateTOML :: "INIFile \<Rightarrow> written" where
  "generateTOML f =
     write_all ([(''# Kahi configuration file'' @ nl @ ''# Migrated from supervisord.conf'' @ nl @ nl, [])] @
       map writeIncludeSection (of_type ''include'' f) @
       map write_server (ini_Sections f) @
       map writeSupervisorSection (of_type ''supervisord'' f) @
       map writeProgramSection (by_section_name (of_type ''program'' f)) @
       map writeGroupSection (by_section_name (of_type ''group'' f)) @
       map write_other (filter (\<lambda>s. is_Type s \<notin> set handled_types) (ini_Sections f)))"

section \<open>The command\<close>

record Result =
  mr_TOML :: string
  mr_Warnings :: "string list"
  mr_ParseErrs :: "string list"
  mr_ValidErrs :: "load_error list"

record Options =
  mp_Output :: string
  mp_Force :: bool
  mp_DryRun :: bool

definition validateGenerated :: "cfg_env \<Rightarrow> Result \<Rightarrow> Result" where
  "validateGenerated e r =
     (if mr_TOML r = [] then r
      else case snd (LoadBytes e (mr_TOML r) ''generated'') of
        Inl err \<Rightarrow> r\<lparr>mr_ValidErrs := mr_ValidErrs r @ [err]\<rparr>
      | Inr _ \<Rightarrow> r)"

definition MigrateReader :: "cfg_env \<Rightarrow> string \<Rightarrow> Result \<times> string option" where
  "MigrateReader e input =
     (case ParseINI input of
        Inl err \<Rightarrow> (\<lparr>mr_TOML = [], mr_Warnings = [], mr_ParseErrs = [err], mr_ValidErrs = []\<rparr>, Some err)
      | Inr ini \<Rightarrow>
          (let (toml, ws) = generateTOML ini in
           (validateGenerated e \<lparr>mr_TOML = toml, mr_Warnings = ini_Warnings ini @ ws, mr_ParseErrs = [], mr_ValidErrs = []\<rparr>,
            None)))"

text \<open>The result: the text for the standard output, the file system after it, and the error.\<close>

definition WriteResult ::
  "(string \<Rightarrow> bool) \<Rightarrow> Result \<Rightarrow> Options \<Rightarrow> (string \<times> string) list \<Rightarrow> string \<times> (string \<times> string) list \<times> string option" where
  "WriteResult write_ok r opts files =
     (if mp_Output opts \<noteq> [] \<and> \<not> mp_DryRun opts then
        (if \<not> mp_Force opts \<and> map_of files (mp_Output opts) \<noteq> None
         then ([], files, Some (''output file exists: '' @ mp_Output opts @ '' (use --force)''))
         else if \<not> write_ok (mp_Output opts) then ([], files, Some ''cannot write output'')
         else ([], AList.update (mp_Output opts) (mr_TOML r) files, None))
      else (mr_TOML r, files, None))"

text \<open>\<open>Migrate\<close>: the conversion of a file; a result is there only when the file could be opened.\<close>

definition Migrate_path :: "cfg_env \<Rightarrow> string \<Rightarrow> (string \<times> string) list \<Rightarrow> Result option \<times> string option" where
  "Migrate_path e path files =
     (case map_of files path of
        None \<Rightarrow> (None, Some (''file not found: '' @ path))
      | Some input \<Rightarrow> (case MigrateReader e input of (r, err) \<Rightarrow> (Some r, err)))"

text \<open>The command: the warnings, the output, and the error that makes it exit with 1.\<close>

definition migrate_command ::
  "cfg_env \<Rightarrow> (string \<Rightarrow> bool) \<Rightarrow> string \<Rightarrow> Options \<Rightarrow> (string \<times> string) list \<Rightarrow>
     string list \<times> string \<times> (string \<times> string) list \<times> string option" where
  "migrate_command e write_ok path opts files =
     (case Migrate_path e path files of
        (_, Some err) \<Rightarrow> ([], [], files, Some err)
      | (None, None) \<Rightarrow> ([], [], files, None)
      | (Some r, None) \<Rightarrow>
          (case WriteResult write_ok r opts files of
             (out, files', Some err) \<Rightarrow> (mr_Warnings r, out, files', Some err)
           | (out, files', None) \<Rightarrow>
               (mr_Warnings r,
                out @ (if mp_Output opts \<noteq> [] \<and> \<not> mp_DryRun opts then ''wrote '' @ mp_Output opts @ nl else []),
                files', if mr_ValidErrs r \<noteq> [] then Some ''generated config failed validation'' else None)))"

text \<open>The same by cases on the input.\<close>

lemma migrate_command_cases:
  "migrate_command e write_ok path opts files =
     (case map_of files path of
        None \<Rightarrow> ([], [], files, Some (''file not found: '' @ path))
      | Some input \<Rightarrow>
          (case MigrateReader e input of
             (r, Some err) \<Rightarrow> ([], [], files, Some err)
           | (r, None) \<Rightarrow>
               (case WriteResult write_ok r opts files of
                  (out, files', Some err) \<Rightarrow> (mr_Warnings r, out, files', Some err)
                | (out, files', None) \<Rightarrow>
                    (mr_Warnings r,
                     out @ (if mp_Output opts \<noteq> [] \<and> \<not> mp_DryRun opts then ''wrote '' @ mp_Output opts @ nl else []),
                     files', if mr_ValidErrs r \<noteq> [] then Some ''generated config failed validation'' else None))))"
  by (simp add: migrate_command_def Migrate_path_def split: option.split prod.split)

end
