(* ===== verification/Migrate_Safety.thy ===== *)
theory Migrate_Safety
  imports Migrate
begin

text \<open>
  What the migration guarantees: the parser reads back every section that was written plainly, no option
  of a program, of the daemon or of a group is dropped, and a migration that succeeds has produced a
  configuration kahi loads and has overwritten nothing; and where an environment loses part of a value.
\<close>

section \<open>No option is dropped\<close>

lemma contains_concat: "x \<in> set xs \<Longrightarrow> contains x sub \<Longrightarrow> contains (concat xs) sub"
proof -
  assume "x \<in> set xs" and "contains x sub"
  then obtain ys zs us vs where "xs = ys @ x # zs" "x = us @ sub @ vs"
    by (metis split_list contains_sublist)
  then have "concat xs = (concat ys @ us) @ sub @ (vs @ concat zs)" by simp
  then show ?thesis by (metis contains_middle)
qed

lemma write_all_part:
  assumes "w \<in> set ws"
  shows "contains (fst w) sub \<Longrightarrow> contains (fst (write_all ws)) sub"
    and "x \<in> set (snd w) \<Longrightarrow> x \<in> set (snd (write_all ws))"
  using assms by (auto simp: write_all_def intro: contains_concat [of "fst w"])

text \<open>The conversion of an option of a section, and how its warning names the section.\<close>

definition option_mapping :: "INISection \<Rightarrow> string \<Rightarrow> MappedOption" where
  "option_mapping s k =
     (let v = option_of s k in
      if is_Type s = ''program''
      then MapProgramOption k (if k = ''stopwaitsecs'' \<and> TrimSpace v = ''0'' then ''1'' else v)
      else if is_Type s = ''supervisord'' then MapSupervisordOption k v
      else MapGroupOption k v)"

definition section_label :: "INISection \<Rightarrow> string" where
  "section_label s =
     (if is_Type s = ''program'' then ''programs.'' @ is_Name s
      else if is_Type s = ''supervisord'' then ''supervisord''
      else ''groups.'' @ is_Name s)"

text \<open>The text holds the line of the option, and the warnings name it if it is not supported.\<close>

definition reports :: "INISection \<Rightarrow> string \<Rightarrow> written \<Rightarrow> bool" where
  "reports s k w \<longleftrightarrow> contains (fst w) (writeOption (option_mapping s k)) \<and>
     (mo_Unsupported (option_mapping s k) \<longrightarrow> section_label s @ '': unsupported option '' @ go_quote k \<in> set (snd w))"

lemma reports_write_all: "w \<in> set ws \<Longrightarrow> reports s k w \<Longrightarrow> reports s k (write_all ws)"
  using write_all_part by (auto simp: reports_def)

lemma reports_mapped: "reports s k (write_mapped (section_label s) k (option_mapping s k))"
  using contains_middle [of "[]" "writeOption (option_mapping s k)" "[]"] by (simp add: reports_def write_mapped_def)

lemma reports_program_option: "is_Type s = ''program'' \<Longrightarrow> reports s k (write_program_option s k)"
  using reports_mapped [of s k]
  unfolding reports_def write_program_option_def option_mapping_def section_label_def Let_def case_prod_beta
  by simp

lemma program_section_reports:
  assumes "is_Type s = ''program''" and "k \<in> fst ` set (is_Options s)" and "k \<noteq> ''environment''"
  shows "reports s k (writeProgramSection s)"
  unfolding writeProgramSection_def Let_def
  by (rule reports_write_all [OF _ reports_program_option [OF assms(1)]]) (use assms(2,3) in \<open>simp add: sortedKeys_def\<close>)

lemma supervisor_section_reports:
  assumes "is_Type s = ''supervisord''" and "k \<in> fst ` set (is_Options s)"
  shows "reports s k (writeSupervisorSection s)"
  using reports_mapped [of s k] assms unfolding writeSupervisorSection_def
  by (intro reports_write_all [of "write_mapped ''supervisord'' k (MapSupervisordOption k (option_of s k))"])
    (simp_all add: sortedKeys_def option_mapping_def section_label_def Let_def)

lemma group_section_reports:
  assumes "is_Type s = ''group''" and "k \<in> fst ` set (is_Options s)"
  shows "reports s k (writeGroupSection s)"
  using reports_mapped [of s k] assms unfolding writeGroupSection_def
  by (intro reports_write_all [of "write_mapped (''groups.'' @ is_Name s) k (MapGroupOption k (option_of s k))"])
    (simp_all add: sortedKeys_def option_mapping_def section_label_def Let_def)


section \<open>What a migration that succeeds has done\<close>

text \<open>
  A migration that ends without an error has produced a configuration that kahi itself loads,
  on the standard output or in the output file, and changed no other file; and whatever its outcome, a
  file that exists is overwritten only with \<open>--force\<close>, and never in a dry run.
\<close>

theorem migration_succeeds_loadable:
  assumes "migrate_command e write_ok path opts files = (ws, out, files', err)"
  shows "(err = None \<longrightarrow> (\<exists>toml cfg. snd (LoadBytes e toml ''generated'') = Inr cfg \<and>
       (if mp_Output opts \<noteq> [] \<and> \<not> mp_DryRun opts then map_of files' (mp_Output opts) = Some toml else out = toml))) \<and>
     (\<forall>p. map_of files' p \<noteq> map_of files p \<longrightarrow>
        p = mp_Output opts \<and> \<not> mp_DryRun opts \<and> (map_of files p = None \<or> mp_Force opts))"
proof (cases "map_of files path")
  case None
  then show ?thesis using assms by (auto simp: migrate_command_cases)
next
  case (Some input)
  obtain r e1 where r: "MigrateReader e input = (r, e1)" by fastforce
  have v: "mr_TOML r \<noteq> [] \<and> mr_ValidErrs r = [] \<longrightarrow> (\<exists>cfg. snd (LoadBytes e (mr_TOML r) ''generated'') = Inr cfg)" if "e1 = None"
    using r that by (auto simp: MigrateReader_def validateGenerated_def Let_def split: sum.splits prod.splits if_splits)
  have "mr_TOML r \<noteq> []" if e1: "e1 = None"
  proof -
    obtain ini where "r = validateGenerated e \<lparr>mr_TOML = fst (generateTOML ini),
        mr_Warnings = ini_Warnings ini @ snd (generateTOML ini), mr_ParseErrs = [], mr_ValidErrs = []\<rparr>"
      using r e1 by (cases "ParseINI input") (auto simp: MigrateReader_def Let_def case_prod_beta)
    moreover have "fst (generateTOML ini) \<noteq> []" by (simp add: generateTOML_def write_all_def)
    ultimately show ?thesis by (auto simp: validateGenerated_def split: sum.splits)
  qed
  then have "\<exists>cfg. snd (LoadBytes e (mr_TOML r) ''generated'') = Inr cfg" if "e1 = None" "mr_ValidErrs r = []"
    using v that by blast
  then show ?thesis
    using assms Some r
    by (cases e1) (auto simp: migrate_command_cases WriteResult_def update_conv' split: if_splits prod.splits option.splits)
qed

text \<open>A migration of one program and the daemon's own section.\<close>

definition sample_sections :: "INISection list" where
  "sample_sections = [
     \<lparr>is_Type = ''supervisord'', is_Name = [], is_Options = [(''pidfile'', ''/run/s.pid'')]\<rparr>,
     \<lparr>is_Type = ''program'', is_Name = ''web'', is_Options = [(''command'', ''/bin/web''), (''numprocs'', ''2'')]\<rparr>]"


section \<open>Environments\<close>

definition env_char :: "char \<Rightarrow> bool" where
  "env_char c \<longleftrightarrow> visible c \<and> c \<noteq> CHR '','' \<and> \<not> is_quote c"

definition env_key :: "string \<Rightarrow> bool" where
  "env_key k \<longleftrightarrow> k \<noteq> [] \<and> (\<forall>c\<in>set k. env_char c \<and> c \<noteq> CHR ''='')"

definition env_value :: "string \<Rightarrow> bool" where
  "env_value v \<longleftrightarrow> (\<forall>c\<in>set v. env_char c)"

definition quoted :: "string \<Rightarrow> string" where
  "quoted v = [CHR 0x22] @ v @ [CHR 0x22]"

lemma trim_visible: "(\<forall>c\<in>set s. visible c) \<Longrightarrow> TrimSpace s = s"
  by (intro TrimSpace_id) (cases "s = []"; simp)

lemma visible_signs: "visible (CHR 0x22)" "visible (CHR ''='')"
  by (simp_all add: visible_def)

lemma trim_quotes_inner: "env_value v \<Longrightarrow> trim_quotes ([CHR 0x22] @ v) = v" "env_value v \<Longrightarrow> trim_quotes (quoted v) = v"
proof -
  assume v: "env_value v"
  have d: "dropWhile is_quote xs = xs" if "set xs \<subseteq> set v" for xs
    using v that by (cases xs) (auto simp: env_value_def env_char_def)
  have q: "is_quote (CHR 0x22)" by (simp add: is_quote_def)
  have e: "dropWhile is_quote (v @ [CHR 0x22]) = (if v = [] then [] else v @ [CHR 0x22])"
  proof (cases v)
    case (Cons c cs)
    then have "\<not> is_quote c" using v by (simp add: env_value_def env_char_def)
    then show ?thesis using Cons by simp
  qed (simp add: q)
  show "trim_quotes ([CHR 0x22] @ v) = v" using d [of v] d [of "rev v"] q by (simp add: trim_quotes_def)
  show "trim_quotes (quoted v) = v" using d [of "rev v"] q e by (simp add: trim_quotes_def quoted_def)
qed

lemma env_pair_eq:
  assumes "env_key k" and "\<forall>c\<in>set v. visible c"
  shows "env_pair (k @ ''='' @ v) env = AList.update k (trim_quotes v) env"
proof -
  have "\<forall>c\<in>set (k @ ''='' @ v). visible c" using assms visible_signs by (auto simp: env_key_def env_char_def)
  then have "TrimSpace (k @ ''='' @ v) = k @ ''='' @ v" by (rule trim_visible)
  moreover have "cut (CHR ''='') (k @ ''='' @ v) = (k, Some v)"
    using assms(1) cut_append [of "CHR ''=''" k v] by (auto simp: env_key_def)
  moreover have "TrimSpace k = k" "TrimSpace v = v"
    using assms trim_visible by (auto simp: env_key_def env_char_def)
  ultimately show ?thesis by (simp add: env_pair_def)
qed

definition print_env :: "(string \<times> string) list \<Rightarrow> string" where
  "print_env env = join '','' (map (\<lambda>(k, v). k @ ''='' @ quoted v) env)"

lemma fold_env_pairs:
  assumes "distinct (map fst (env0 @ env))" and "\<forall>(k, v)\<in>set env. env_key k \<and> env_value v"
  shows "fold env_pair (map (\<lambda>(k, v). k @ ''='' @ quoted v) env) env0 = env0 @ env"
  using assms
proof (induction env arbitrary: env0)
  case (Cons kv env)
  obtain k v where kv: "kv = (k, v)" by fastforce
  have ok: "env_key k" "env_value v" using Cons.prems(2) kv by simp_all
  have "\<forall>c\<in>set (quoted v). visible c" using ok(2) visible_signs by (auto simp: env_value_def env_char_def quoted_def)
  then have "env_pair (k @ ''='' @ quoted v) env0 = AList.update k v env0"
    using env_pair_eq [OF ok(1)] trim_quotes_inner(2) [OF ok(2)] by simp
  also have "\<dots> = env0 @ [(k, v)]"
    using Cons.prems(1) kv by (induction env0) auto
  finally show ?case using Cons.IH [of "env0 @ [(k, v)]"] Cons.prems kv by simp
qed simp

text \<open>
  An environment in supervisord's form is read back as it was written: pairs of a key and a
  quoted value, separated by commas, give exactly those keys with those values, in order, as long as no
  value contains a comma, a quote or a space.
\<close>

theorem environment_roundtrip:
  assumes "distinct (map fst env)" and "\<forall>(k, v)\<in>set env. env_key k \<and> env_value v"
  shows "parseEnvironment (print_env env) = env"
proof (cases "env = []")
  case True
  have "TrimSpace [] = []" by (simp add: TrimSpace_id)
  then show ?thesis using True by (simp add: parseEnvironment_def print_env_def env_pair_def)
next
  case False
  have "split_on (CHR '','') (print_env env) = map (\<lambda>(k, v). k @ ''='' @ quoted v) env"
    unfolding print_env_def
  proof (rule split_on_join)
    fix w assume "w \<in> set (map (\<lambda>(k, v). k @ ''='' @ quoted v) env)"
    then show "CHR '','' \<notin> set w"
      using assms(2) by (fastforce simp: env_key_def env_value_def env_char_def quoted_def)
  qed (use False in simp)
  then show ?thesis using fold_env_pairs [of "[]" env] assms by (simp add: parseEnvironment_def)
qed

text \<open>
  A comma inside a quoted value of an environment cuts the value off there: the commas are split
  before the quotes are looked at, and the rest is dropped without a warning.
\<close>

theorem environment_commas_cut_values:
  assumes "env_key k" and "env_value a" and "env_value b" and "CHR ''='' \<notin> set b"
  shows "parseEnvironment (k @ ''='' @ quoted (a @ '','' @ b)) = [(k, a)]"
proof -
  let ?q = "[CHR 0x22]"
  have c: "CHR '','' \<notin> set (k @ ''='' @ ?q @ a)" "CHR '','' \<notin> set (b @ ?q)"
    using assms by (auto simp: env_key_def env_value_def env_char_def)
  have "k @ ''='' @ quoted (a @ '','' @ b) = (k @ ''='' @ ?q @ a) @ CHR '','' # (b @ ?q)" by (simp add: quoted_def)
  then have s: "split_on (CHR '','') (k @ ''='' @ quoted (a @ '','' @ b)) = [k @ ''='' @ ?q @ a, b @ ?q]"
    using split_on_append [OF c(1)] split_on_free [OF c(2)] by simp
  have "\<forall>c\<in>set (?q @ a). visible c" using assms(2) visible_signs by (auto simp: env_value_def env_char_def)
  then have first: "env_pair (k @ ''='' @ ?q @ a) [] = [(k, a)]"
    using env_pair_eq [OF assms(1)] trim_quotes_inner(1) [OF assms(2)] by simp
  have "\<forall>c\<in>set (b @ ?q). visible c" using assms(3) visible_signs by (auto simp: env_value_def env_char_def)
  then have "TrimSpace (b @ ?q) = b @ ?q" by (rule trim_visible)
  moreover have "cut (CHR ''='') (b @ ?q) = (b @ ?q, None)" using assms(4) by (intro cut_free) simp
  ultimately have "env_pair (b @ ?q) env = env" for env by (simp add: env_pair_def)
  then show ?thesis using s first by (simp add: parseEnvironment_def)
qed

theorem environment_roundtrip_witness:
  "parseEnvironment (print_env [(''HOME'', ''/app''), (''PORT'', ''8080'')]) = [(''HOME'', ''/app''), (''PORT'', ''8080'')]"
  by (rule environment_roundtrip) (simp_all add: env_key_def env_value_def env_char_def visible_def is_quote_def)

theorem environment_commas_cut_values_witness:
  "parseEnvironment (''HOSTS'' @ ''='' @ quoted (''a'' @ '','' @ ''b'')) = [(''HOSTS'', ''a'')]"
  by (rule environment_commas_cut_values) (simp_all add: env_key_def env_value_def env_char_def visible_def is_quote_def)

section \<open>Parsing\<close>

text \<open>Plain text on one line: no comment, no template variable, and nothing to trim.\<close>

definition plain_text :: "string \<Rightarrow> bool" where
  "plain_text s \<longleftrightarrow> (s = [] \<or> visible (hd s) \<and> visible (last s)) \<and>
     (\<forall>c\<in>set s. c \<noteq> CHR '';'' \<and> c \<noteq> CHR 0x0A \<and> c \<noteq> CHR ''%'')"

definition plain_key :: "string \<Rightarrow> bool" where
  "plain_key k \<longleftrightarrow> k \<noteq> [] \<and> plain_text k \<and> CHR ''='' \<notin> set k \<and> hd k \<notin> {CHR ''['', CHR ''#''}"

definition plain_section :: "INISection \<Rightarrow> bool" where
  "plain_section s \<longleftrightarrow> is_Type s \<in> set knownSectionTypes \<and> plain_text (is_Name s) \<and> CHR '']'' \<notin> set (is_Name s) \<and>
     distinct (map fst (is_Options s)) \<and> (\<forall>(k, v)\<in>set (is_Options s). plain_key k \<and> plain_text v)"

definition header_line :: "INISection \<Rightarrow> string" where
  "header_line s = ''['' @ is_Type s @ (if is_Name s = [] then [] else '':'' @ is_Name s) @ '']''"

definition option_line :: "string \<times> string \<Rightarrow> string" where
  "option_line kv = fst kv @ ''='' @ snd kv"

definition section_lines :: "INISection \<Rightarrow> string list" where
  "section_lines s = header_line s # map option_line (is_Options s)"

lemma strip_from_plain: "CHR '';'' \<notin> set s \<Longrightarrow> strip_from a b p s = s"
  by (induction a b p s rule: strip_from.induct) auto

lemma scan_none:
  assumes "\<And>t. CHR ''%'' \<notin> set t \<Longrightarrow> m t = None" and "CHR ''%'' \<notin> set s"
  shows "scan_replace m f s = s" and "scan_matches m s = []"
  using assms(2) by (induction s) (use assms(1) in auto)

lemma has_prefix_chars: "has_prefix t p \<Longrightarrow> set p \<subseteq> set t"
  by (metis has_prefix_def set_take_subset)

lemma no_percent: "CHR ''%'' \<notin> set t \<Longrightarrow> match_env_var t = None" "CHR ''%'' \<notin> set t \<Longrightarrow> match_var t = None"
  by (auto simp: match_env_var_def match_var_def dest: has_prefix_chars)

lemma expand_plain: "CHR ''%'' \<notin> set v \<Longrightarrow> expandSupervisordVars v = (v, [])"
  by (simp add: expandSupervisordVars_def scan_none(1) [of match_env_var, OF no_percent(1)]
      scan_none [of match_var, OF no_percent(2)])

lemma parse_option_line:
  assumes "plain_key k" and "plain_text v" and "ini_Sections (in_file st) \<noteq> []"
  shows "parse_line n (option_line (k, v)) st = Inr \<lparr>in_file = set_option k v (in_file st), in_lastKey = k\<rparr>"
proof -
  let ?l = "option_line (k, v)"
  have "visible (hd ?l)" "visible (last ?l)" "?l \<noteq> []"
    using assms(1,2) visible_signs by (auto simp: option_line_def plain_key_def plain_text_def last_append hd_append)
  then have t: "TrimSpace ?l = ?l" and h: "hd ?l \<noteq> CHR '' ''" "hd ?l \<noteq> CHR 0x09"
    by (auto intro: TrimSpace_id simp: visible_def)
  have "CHR '';'' \<notin> set ?l" using assms(1,2) by (auto simp: option_line_def plain_key_def plain_text_def)
  then have s: "stripInlineComment ?l = ?l" by (simp add: stripInlineComment_def strip_from_plain)
  obtain c ks where k: "k = c # ks" "c \<noteq> CHR ''[''" "c \<noteq> CHR ''#''" "c \<noteq> CHR '';''"
    using assms(1) by (cases k) (auto simp: plain_key_def plain_text_def)
  have m: "match_header ?l = None" and p: "\<not> has_prefix ?l ''#''" "\<not> has_prefix ?l '';''"
    using k by (simp_all add: option_line_def match_header_def has_prefix_def)
  have c: "cut (CHR ''='') ?l = (k, Some v)"
    using assms(1) cut_append [of "CHR ''=''" k v] by (simp add: option_line_def plain_key_def)
  have kv: "TrimSpace k = k" "TrimSpace v = v" "expandSupervisordVars v = (v, [])"
    using assms(1,2) by (auto simp: plain_key_def plain_text_def intro: TrimSpace_id expand_plain)
  show ?thesis
    using \<open>?l \<noteq> []\<close> h assms(3)
    by (simp add: parse_line_def Let_def s t m p c kv)
qed

lemma section_type_chars: "ty \<in> set knownSectionTypes \<Longrightarrow>
   ty \<noteq> [] \<and> (\<forall>c\<in>set ty. (is_letter c \<or> c = CHR ''_'' \<or> c = CHR ''-'') \<and> c \<noteq> CHR '';'' \<and> c \<noteq> CHR 0x0A)"
  by (auto simp: knownSectionTypes_def is_letter_def is_lower_def is_upper_def in_range_def)

lemma match_header_line:
  assumes "plain_section s" shows "match_header (header_line s) = Some (is_Type s, is_Name s)"
proof -
  let ?P = "\<lambda>c. is_letter c \<or> c = CHR ''_'' \<or> c = CHR ''-''"
  have ty: "is_Type s \<noteq> []" "\<forall>c\<in>set (is_Type s). ?P c"
    using assms section_type_chars by (auto simp: plain_section_def)
  have stop: "\<not> ?P (CHR '']'')" "\<not> ?P (CHR '':'')"
    by (simp_all add: is_letter_def is_lower_def is_upper_def in_range_def)
  have e: "header_end []" by (simp add: header_end_def)
  show ?thesis
  proof (cases "is_Name s = []")
    case True
    have "takeWhile ?P (is_Type s @ [CHR '']'']) = is_Type s" using ty(2) stop by (simp add: takeWhile_append)
    then show ?thesis using True ty(1) e by (simp add: match_header_def header_line_def Let_def)
  next
    case False
    have "takeWhile ?P (is_Type s @ CHR '':'' # is_Name s @ [CHR '']'']) = is_Type s"
      using ty(2) stop by (simp add: takeWhile_append)
    moreover have "takeWhile (\<lambda>c. c \<noteq> CHR '']'') (is_Name s @ [CHR '']'']) = is_Name s"
      using assms by (subst takeWhile_append2) (auto simp: plain_section_def)
    ultimately show ?thesis using False ty(1) e by (simp add: match_header_def header_line_def Let_def)
  qed
qed

lemma parse_header_line:
  assumes "plain_section s"
  shows "parse_line n (header_line s) st =
     Inr \<lparr>in_file = (in_file st)\<lparr>ini_Sections := ini_Sections (in_file st) @ [s\<lparr>is_Options := []\<rparr>]\<rparr>, in_lastKey = []\<rparr>"
proof -
  let ?l = "header_line s"
  have l: "hd ?l = CHR ''[''" "last ?l = CHR '']''" "?l \<noteq> []" by (simp_all add: header_line_def)
  have v: "visible (CHR ''['')" "visible (CHR '']'')" by (simp_all add: visible_def)
  then have t: "TrimSpace ?l = ?l" using l by (intro TrimSpace_id) simp
  have "CHR '';'' \<notin> set ?l"
    using assms section_type_chars by (auto simp: header_line_def plain_section_def plain_text_def)
  then have st: "stripInlineComment ?l = ?l" by (simp add: stripInlineComment_def strip_from_plain)
  have p: "\<not> has_prefix ?l ''#''" "\<not> has_prefix ?l '';''" by (simp_all add: header_line_def has_prefix_def)
  have k: "is_Type s \<in> set knownSectionTypes" using assms by (simp add: plain_section_def)
  show ?thesis
    by (simp add: parse_line_def Let_def st t p l k match_header_line [OF assms])
qed

lemma update_fresh: "k \<notin> fst ` set xs \<Longrightarrow> AList.update k v xs = xs @ [(k, v)]"
  by (induction xs) auto

lemma parse_lines_append:
  "parse_lines n (xs @ ys) st = (case parse_lines n xs st of Inl e \<Rightarrow> Inl e | Inr st' \<Rightarrow> parse_lines (n + length xs) ys st')"
  by (induction n xs st rule: parse_lines.induct) (auto split: sum.splits)

lemma parse_options:
  assumes "distinct (map fst opts)" and "\<forall>(k, v)\<in>set opts. plain_key k \<and> plain_text v"
    and "ini_Sections (in_file st) = ss @ [s]" and "fst ` set opts \<inter> fst ` set (is_Options s) = {}"
  shows "\<exists>k. parse_lines n (map option_line opts) st =
     Inr \<lparr>in_file = (in_file st)\<lparr>ini_Sections := ss @ [s\<lparr>is_Options := is_Options s @ opts\<rparr>]\<rparr>, in_lastKey = k\<rparr>"
  using assms
proof (induction opts arbitrary: n st s)
  case Nil
  then have "(in_file st)\<lparr>ini_Sections := ss @ [s\<lparr>is_Options := is_Options s @ []\<rparr>]\<rparr> = in_file st" by simp
  then show ?case by (intro exI [of _ "in_lastKey st"]) simp
next
  case (Cons kv opts)
  obtain k v where kv: "kv = (k, v)" by (cases kv)
  let ?s = "s\<lparr>is_Options := is_Options s @ [(k, v)]\<rparr>" and ?st = "\<lparr>in_file = set_option k v (in_file st), in_lastKey = k\<rparr>"
  have "k \<notin> fst ` set (is_Options s)" using Cons.prems(4) kv by auto
  then have f: "set_option k v (in_file st) = (in_file st)\<lparr>ini_Sections := ss @ [?s]\<rparr>"
    using Cons.prems(3) by (simp add: set_option_def Let_def update_fresh)
  have step: "parse_line (Suc n) (option_line kv) st = Inr ?st"
    unfolding kv using Cons.prems(2,3) kv by (intro parse_option_line) auto
  have "fst ` set opts \<inter> fst ` set (is_Options ?s) = {}" using Cons.prems(1,4) kv by auto
  then show ?case
    using Cons.IH [of ?st ?s "Suc n"] Cons.prems(1,2) step kv f by simp
qed

lemma parse_section:
  assumes "plain_section s"
  shows "\<exists>k. parse_lines n (section_lines s) st =
     Inr \<lparr>in_file = (in_file st)\<lparr>ini_Sections := ini_Sections (in_file st) @ [s]\<rparr>, in_lastKey = k\<rparr>"
proof -
  let ?s = "s\<lparr>is_Options := []\<rparr>"
  let ?st = "\<lparr>in_file = (in_file st)\<lparr>ini_Sections := ini_Sections (in_file st) @ [?s]\<rparr>, in_lastKey = []\<rparr>"
  have "\<exists>k. parse_lines (Suc n) (map option_line (is_Options s)) ?st =
      Inr \<lparr>in_file = (in_file ?st)\<lparr>ini_Sections := ini_Sections (in_file st) @
        [?s\<lparr>is_Options := is_Options ?s @ is_Options s\<rparr>]\<rparr>, in_lastKey = k\<rparr>"
    using assms by (intro parse_options) (auto simp: plain_section_def)
  then show ?thesis by (simp add: section_lines_def parse_header_line [OF assms])
qed

lemma parse_sections:
  assumes "\<forall>s\<in>set ss. plain_section s"
  shows "\<exists>k. parse_lines n (concat (map section_lines ss)) st =
     Inr \<lparr>in_file = (in_file st)\<lparr>ini_Sections := ini_Sections (in_file st) @ ss\<rparr>, in_lastKey = k\<rparr>"
  using assms
proof (induction ss arbitrary: n st)
  case Nil
  show ?case by (intro exI [of _ "in_lastKey st"]) simp
next
  case (Cons s ss)
  obtain k where s: "parse_lines n (section_lines s) st =
      Inr \<lparr>in_file = (in_file st)\<lparr>ini_Sections := ini_Sections (in_file st) @ [s]\<rparr>, in_lastKey = k\<rparr>"
    using parse_section Cons.prems by (meson list.set_intros(1))
  let ?st = "\<lparr>in_file = (in_file st)\<lparr>ini_Sections := ini_Sections (in_file st) @ [s]\<rparr>, in_lastKey = k\<rparr>"
  show ?case
    using Cons.IH [of "n + length (section_lines s)" ?st] Cons.prems s by (simp add: parse_lines_append)
qed

definition plain_line :: "string \<Rightarrow> bool" where
  "plain_line l \<longleftrightarrow> CHR 0x0A \<notin> set l \<and> last l \<noteq> CHR 0x0D"

lemma header_line_plain:
  assumes "plain_section s" shows "plain_line (header_line s)"
proof -
  have "is_Type s \<in> set knownSectionTypes" "plain_text (is_Name s)" using assms by (simp_all add: plain_section_def)
  then have "CHR 0x0A \<notin> set (is_Type s)" "CHR 0x0A \<notin> set (is_Name s)"
    using section_type_chars by (fast, auto simp: plain_text_def)
  then show ?thesis by (simp add: plain_line_def header_line_def)
qed

lemma option_line_plain:
  assumes "plain_key k" and "plain_text v" shows "plain_line (option_line (k, v))"
proof -
  have "CHR 0x0A \<notin> set k" "CHR 0x0A \<notin> set v" using assms unfolding plain_key_def plain_text_def by blast+
  moreover have "last (option_line (k, v)) = (if v = [] then CHR ''='' else last v)" by (simp add: option_line_def)
  moreover have "\<not> visible (CHR 0x0D)" by (simp add: visible_def)
  then have "v = [] \<or> last v \<noteq> CHR 0x0D" using assms(2) unfolding plain_text_def by metis
  ultimately show ?thesis by (auto simp: plain_line_def option_line_def)
qed

lemma section_lines_plain:
  assumes "plain_section s" and "l \<in> set (section_lines s)" shows "plain_line l"
proof (cases "l = header_line s")
  case False
  then obtain k v where "l = option_line (k, v)" "(k, v) \<in> set (is_Options s)"
    using assms(2) by (auto simp: section_lines_def)
  then show ?thesis using option_line_plain assms(1) by (auto simp: plain_section_def)
qed (use header_line_plain assms(1) in simp)

lemma split_printed_lines:
  "\<forall>l\<in>set ls. CHR 0x0A \<notin> set l \<Longrightarrow> split_on (CHR 0x0A) (concat (map (\<lambda>l. l @ nl) ls)) = ls @ [[]]"
  by (induction ls) (auto simp: nl_def split_on_append)

lemma scan_lines_lines:
  assumes "\<forall>l\<in>set ls. plain_line l \<and> length l < 65536"
  shows "scan_lines (concat (map (\<lambda>l. l @ nl) ls)) = (ls, False)"
proof -
  have t: "takeWhile (\<lambda>l. length l < 65536) ls = ls" using assms by (simp add: takeWhile_eq_all_conv)
  have m: "map strip_cr ls = ls"
    using assms by (intro map_idI) (auto simp: strip_cr_def plain_line_def)
  have s: "split_on (CHR 0x0A) (concat (map (\<lambda>l. l @ nl) ls)) = ls @ [[]]"
    using assms by (intro split_printed_lines) (simp add: plain_line_def)
  show ?thesis by (simp add: scan_lines_def Let_def s t m)
qed

text \<open>The sections printed one option to a line.\<close>

definition print_ini :: "INISection list \<Rightarrow> string" where
  "print_ini ss = concat (map (\<lambda>l. l @ nl) (concat (map section_lines ss)))"

lemma scan_print_ini:
  assumes "\<forall>s\<in>set ss. plain_section s" and "\<forall>s\<in>set ss. \<forall>l\<in>set (section_lines s). length l < 65536"
  shows "scan_lines (print_ini ss) = (concat (map section_lines ss), False)"
  unfolding print_ini_def using assms section_lines_plain by (intro scan_lines_lines) auto

text \<open>
  C37 (roundtrip).  Parsing the printed form of sections of known types, with distinct plain keys, plain values and
  lines that fit the scanner's buffer, gives back exactly these sections in their order, and no warning.
\<close>

theorem ini_roundtrip:
  assumes "\<forall>s\<in>set ss. plain_section s" and "\<forall>s\<in>set ss. \<forall>l\<in>set (section_lines s). length l < 65536"
  shows "ParseINI (print_ini ss) = Inr \<lparr>ini_Sections = ss, ini_Warnings = []\<rparr>"
  using scan_print_ini [OF assms]
    parse_sections [OF assms(1), of 0 "\<lparr>in_file = \<lparr>ini_Sections = [], ini_Warnings = []\<rparr>, in_lastKey = []\<rparr>"]
  by (auto simp: ParseINI_def)

lemma sample_sections_plain:
  "\<forall>s\<in>set sample_sections. plain_section s \<and> (\<forall>l\<in>set (section_lines s). length l < 65536)"
  by (simp add: sample_sections_def plain_section_def plain_text_def plain_key_def knownSectionTypes_def visible_def
      section_lines_def header_line_def option_line_def)

theorem ini_roundtrip_witness:
  "ParseINI (print_ini sample_sections) = Inr \<lparr>ini_Sections = sample_sections, ini_Warnings = []\<rparr>"
  by (rule ini_roundtrip) (use sample_sections_plain in auto)

lemma sample_sections_parse: "\<exists>ini. ParseINI (print_ini sample_sections) = Inr ini"
  using scan_print_ini [of sample_sections] sample_sections_plain
    parse_sections [of sample_sections 0 "\<lparr>in_file = \<lparr>ini_Sections = [], ini_Warnings = []\<rparr>, in_lastKey = []\<rparr>"]
  by (auto simp: ParseINI_def)

lemma one_file_loads: "snd (LoadBytes one_file t p) = Inr bare_config"
  using bare_config_valid by (simp add: LoadBytes_def one_file_def no_files_def bare_config_def Let_def)

theorem migration_succeeds_loadable_witness:
  "\<exists>ws out. migrate_command one_file (\<lambda>_. True) ''s.conf'' \<lparr>mp_Output = [], mp_Force = False, mp_DryRun = False\<rparr>
       [(''s.conf'', print_ini sample_sections)] = (ws, out, [(''s.conf'', print_ini sample_sections)], None) \<and>
     (\<exists>cfg. snd (LoadBytes one_file out ''generated'') = Inr cfg)"
proof -
  obtain ini where "ParseINI (print_ini sample_sections) = Inr ini" using sample_sections_parse ..
  then obtain ws out where "migrate_command one_file (\<lambda>_. True) ''s.conf''
      \<lparr>mp_Output = [], mp_Force = False, mp_DryRun = False\<rparr> [(''s.conf'', print_ini sample_sections)]
      = (ws, out, [(''s.conf'', print_ini sample_sections)], None)"
    by (auto simp: migrate_command_cases MigrateReader_def validateGenerated_def WriteResult_def one_file_loads
        Let_def case_prod_beta)
  with migration_succeeds_loadable [OF this] show ?thesis by auto
qed

end
