(* ===== verification/Daemon_Log.thy ===== *)
theory Daemon_Log
  imports Log_Capture Config_Validate
begin

text \<open>
  The daemon's own log in \<open>internal/logging/logging.go\<close>: a logger with a level that a reload can change,
  writing to the standard output or to a file that a signal reopens after logrotate has renamed it.
  The text of a record is made by \<open>log/slog\<close>; a record is its level and that text.
\<close>

section \<open>The file\<close>

text \<open>\<open>rf_open\<close> tells whether the handle is still open.\<close>

record ReopenableFile =
  rf_path :: string
  rf_file :: nat
  rf_open :: bool

definition OpenReopenableFile :: "OS \<Rightarrow> string \<Rightarrow> FS \<Rightarrow> FS \<times> ReopenableFile option" where
  "OpenReopenableFile os path fs =
     (case openLogFile os path fs of
        (fs1, None) \<Rightarrow> (fs1, None)
      | (fs1, Some i) \<Rightarrow> (fs1, Some \<lparr>rf_path = path, rf_file = i, rf_open = True\<rparr>))"

definition rf_Write :: "OS \<Rightarrow> string \<Rightarrow> ReopenableFile \<Rightarrow> FS \<Rightarrow> FS" where
  "rf_Write os d r fs = (if rf_open r then append_data os (rf_file r) d fs else fs)"

text \<open>The swap of the handles; the result of closing the old one is ignored by what follows.\<close>

definition rf_Reopen :: "OS \<Rightarrow> ReopenableFile \<Rightarrow> FS \<Rightarrow> ReopenableFile \<times> FS \<times> string option" where
  "rf_Reopen os r fs =
     (case openLogFile os (rf_path r) fs of
        (fs1, None) \<Rightarrow> (r, fs1, Some (''cannot reopen log file: '' @ rf_path r))
      | (fs1, Some i) \<Rightarrow> (r\<lparr>rf_file := i, rf_open := True\<rparr>, fs1, None))"

definition rf_Close :: "ReopenableFile \<Rightarrow> ReopenableFile" where
  "rf_Close r = r\<lparr>rf_open := False\<rparr>"

section \<open>The logger\<close>

definition level_rank :: "log_level \<Rightarrow> int" where
  "level_rank l = (case l of LevelDebug \<Rightarrow> - 4 | LevelInfo \<Rightarrow> 0 | LevelWarn \<Rightarrow> 4 | LevelError \<Rightarrow> 8)"

text \<open>\<open>New\<close> chooses the handler; the level is a variable that can change later.\<close>

definition text_format :: "string \<Rightarrow> bool" where
  "text_format fmt \<longleftrightarrow> ToLower fmt = ''text''"

record DaemonLog =
  dl_level :: log_level
  dl_text :: bool
  dl_file :: "ReopenableFile option"
  dl_stdout :: "string list"

definition OpenDaemonLog :: "OS \<Rightarrow> string \<Rightarrow> string \<Rightarrow> string \<Rightarrow> FS \<Rightarrow> FS \<times> (string + DaemonLog)" where
  "OpenDaemonLog os level fmt logfile fs =
     (let dl = \<lparr>dl_level = parseLevel level, dl_text = text_format fmt, dl_file = None, dl_stdout = []\<rparr> in
      if logfile = [] then (fs, Inr dl)
      else case OpenReopenableFile os logfile fs of
        (fs1, None) \<Rightarrow> (fs1, Inl (''cannot open log file: '' @ logfile))
      | (fs1, Some r) \<Rightarrow> (fs1, Inr (dl\<lparr>dl_file := Some r\<rparr>)))"

definition SetLevel :: "string \<Rightarrow> DaemonLog \<Rightarrow> DaemonLog \<times> string option" where
  "SetLevel level dl =
     (if ValidateLevel level then (dl\<lparr>dl_level := parseLevel level\<rparr>, None)
      else (dl, Some (''invalid log level: '' @ go_quote level @ '' (must be debug, info, warn, or error)'')))"

definition dl_Reopen :: "OS \<Rightarrow> DaemonLog \<Rightarrow> FS \<Rightarrow> DaemonLog \<times> FS \<times> string option" where
  "dl_Reopen os dl fs =
     (case dl_file dl of
        None \<Rightarrow> (dl, fs, None)
      | Some r \<Rightarrow> (case rf_Reopen os r fs of (r', fs', err) \<Rightarrow> (dl\<lparr>dl_file := Some r'\<rparr>, fs', err)))"

definition dl_Close :: "DaemonLog \<Rightarrow> DaemonLog" where
  "dl_Close dl = dl\<lparr>dl_file := map_option rf_Close (dl_file dl)\<rparr>"

definition dl_Log :: "OS \<Rightarrow> log_level \<Rightarrow> string \<Rightarrow> DaemonLog \<Rightarrow> FS \<Rightarrow> DaemonLog \<times> FS" where
  "dl_Log os l line dl fs =
     (if level_rank l < level_rank (dl_level dl) then (dl, fs)
      else case dl_file dl of
        None \<Rightarrow> (dl\<lparr>dl_stdout := dl_stdout dl @ [line]\<rparr>, fs)
      | Some r \<Rightarrow> (dl, rf_Write os line r fs))"

section \<open>Stale files\<close>

text \<open>\<open>CleanupStaleLogs\<close> of \<open>rotation.go\<close>, which removes empty log files.\<close>

fun CleanupStaleLogs :: "OS \<Rightarrow> string list \<Rightarrow> FS \<Rightarrow> FS" where
  "CleanupStaleLogs os [] fs = fs"
| "CleanupStaleLogs os (p # ps) fs =
     CleanupStaleLogs os ps
       (if p = [] then fs
        else case fs_dir fs p of
          None \<Rightarrow> fs
        | Some i \<Rightarrow> if fs_data fs i = [] then Remove os p fs else fs)"

lemma cleanup_keeps_output: "contents fs p = Some d \<Longrightarrow> d \<noteq> [] \<Longrightarrow> contents (CleanupStaleLogs os ps fs) p = Some d"
proof (induction ps arbitrary: fs)
  case (Cons a ps)
  let ?fs = "if a = [] then fs else case fs_dir fs a of None \<Rightarrow> fs | Some i \<Rightarrow> if fs_data fs i = [] then Remove os a fs else fs"
  have "contents ?fs p = Some d" using Cons.prems by (auto simp: contents_def Remove_def split: option.split)
  then show ?case unfolding CleanupStaleLogs.simps(2) by (rule Cons.IH [OF _ Cons.prems(2)])
qed simp

section \<open>Runs\<close>

text \<open>
  What happens to a log: records, reopenings under whatever the system permits then, changes of the level,
  and renamings of files by others.
\<close>

datatype log_step = Record log_level string | ReopenLog OS | ChangeLevel string | MoveFile OS string string

fun log_run :: "OS \<Rightarrow> log_step list \<Rightarrow> DaemonLog \<Rightarrow> FS \<Rightarrow> DaemonLog \<times> FS" where
  "log_run os [] dl fs = (dl, fs)"
| "log_run os (Record l line # st) dl fs = (let (dl1, fs1) = dl_Log os l line dl fs in log_run os st dl1 fs1)"
| "log_run os (ReopenLog os' # st) dl fs = (let (dl1, fs1, err) = dl_Reopen os' dl fs in log_run os st dl1 fs1)"
| "log_run os (ChangeLevel lv # st) dl fs = log_run os st (fst (SetLevel lv dl)) fs"
| "log_run os (MoveFile os' a b # st) dl fs = log_run os st dl (fst (Rename os' a b fs))"

text \<open>The records that are enabled when they are written.\<close>

fun enabled :: "log_step list \<Rightarrow> log_level \<Rightarrow> string list" where
  "enabled [] lv = []"
| "enabled (Record l line # st) lv = (if level_rank l < level_rank lv then enabled st lv else line # enabled st lv)"
| "enabled (ChangeLevel s # st) lv = enabled st (if ValidateLevel s then parseLevel s else lv)"
| "enabled (_ # st) lv = enabled st lv"

text \<open>The part of the lines that went to a file, given the file of each.\<close>

definition lines_of :: "nat \<Rightarrow> (nat \<times> string) list \<Rightarrow> string" where
  "lines_of i ps = concat (map snd (filter (\<lambda>p. fst p = i) ps))"

definition log_wf :: "DaemonLog \<Rightarrow> FS \<Rightarrow> bool" where
  "log_wf dl fs \<longleftrightarrow> (\<forall>i\<ge>fs_next fs. fs_data fs i = []) \<and>
     (\<exists>r. dl_file dl = Some r \<and> rf_open r \<and> rf_file r < fs_next fs) \<and> (\<forall>p i. fs_dir fs p = Some i \<longrightarrow> i < fs_next fs)"

definition whole_writes :: "OS \<Rightarrow> bool" where
  "whole_writes os \<longleftrightarrow> (\<forall>i n. os_write os i n = n)"

lemma Rename_next [simp]: "fs_next (fst (Rename os a b fs)) = fs_next fs"
  by (simp add: Rename_def split: option.split)

lemma log_wf_Rename: "log_wf dl fs \<Longrightarrow> log_wf dl (fst (Rename os a b fs))"
  by (auto simp: log_wf_def Rename_def split: option.splits if_splits)

lemma openLogFile_data: "(\<forall>i\<ge>fs_next fs. fs_data fs i = []) \<Longrightarrow> fs_data (fst (openLogFile os p fs)) = fs_data fs"
  by (auto simp: openLogFile_def fun_eq_iff split: option.split)

lemma reopen_keeps:
  assumes "log_wf dl fs" and "dl_Reopen os dl fs = (dl', fs', err)"
  shows "log_wf dl' fs'" and "fs_data fs' = fs_data fs" and "dl_level dl' = dl_level dl"
  using assms openLogFile_data [of fs os]
  by (auto simp: log_wf_def dl_Reopen_def rf_Reopen_def openLogFile_def less_Suc_eq split: option.splits if_splits prod.splits)

lemma log_keeps:
  assumes "log_wf dl fs" and "whole_writes os" and "\<not> level_rank l < level_rank (dl_level dl)"
  obtains i where "dl_Log os l line dl fs = (dl, fs\<lparr>fs_data := (fs_data fs)(i := fs_data fs i @ line)\<rparr>)"
    and "log_wf dl (fs\<lparr>fs_data := (fs_data fs)(i := fs_data fs i @ line)\<rparr>)"
  using assms that by (fastforce simp: log_wf_def dl_Log_def rf_Write_def append_data_def whole_writes_def)

lemma log_run_places:
  assumes "log_wf dl fs" and "whole_writes os" and "log_run os st dl fs = (dl', fs')"
  shows "\<exists>ps. map snd ps = enabled st (dl_level dl) \<and> (\<forall>i. fs_data fs' i = fs_data fs i @ lines_of i ps) \<and> log_wf dl' fs'"
  using assms(1,3)
proof (induction st arbitrary: dl fs)
  case Nil
  then show ?case by (intro exI [of _ "[]"]) (simp add: lines_of_def)
next
  case (Cons s st)
  show ?case
  proof (cases s)
    case (Record l line)
    show ?thesis
    proof (cases "level_rank l < level_rank (dl_level dl)")
      case True
      then show ?thesis using Cons Record by (simp add: dl_Log_def)
    next
      case False
      obtain i where i: "dl_Log os l line dl fs = (dl, fs\<lparr>fs_data := (fs_data fs)(i := fs_data fs i @ line)\<rparr>)"
          "log_wf dl (fs\<lparr>fs_data := (fs_data fs)(i := fs_data fs i @ line)\<rparr>)"
        using log_keeps [OF Cons.prems(1) assms(2) False] .
      then obtain ps where ps: "map snd ps = enabled st (dl_level dl)" "log_wf dl' fs'"
          "\<And>j. fs_data fs' j = ((fs_data fs)(i := fs_data fs i @ line)) j @ lines_of j ps"
        using Cons.IH [OF i(2)] Cons.prems(2) Record by auto
      show ?thesis
        using ps False Record by (intro exI [of _ "(i, line) # ps"]) (simp add: lines_of_def)
    qed
  next
    case (ReopenLog os')
    obtain dl1 fs1 err where r: "dl_Reopen os' dl fs = (dl1, fs1, err)" by (metis prod_cases3)
    note k = reopen_keeps [OF Cons.prems(1) r]
    show ?thesis using Cons.IH [OF k(1)] Cons.prems(2) ReopenLog r k(2,3) by simp
  next
    case (ChangeLevel lv)
    have "log_wf (fst (SetLevel lv dl)) fs" using Cons.prems(1) by (simp add: log_wf_def SetLevel_def)
    then show ?thesis using Cons.IH Cons.prems(2) ChangeLevel by (fastforce simp: SetLevel_def split: if_splits)
  next
    case (MoveFile os' a b)
    then show ?thesis using Cons.IH [OF log_wf_Rename [OF Cons.prems(1)]] Cons.prems(2) by simp
  qed
qed



end
