(* ===== verification/Metrics.thy ===== *)
theory Metrics
  imports Kahi_Prelude
begin

text \<open>
  \<open>internal/metrics/metrics.go\<close>: the metrics the collector registers and its operations on them.  A vector of the
  client library is a map from the values of its labels to a number, where a missing entry is created
  on its first use; seconds are whatever number the caller gives.
\<close>

record metric =
  mt_Name :: string
  mt_Labels :: "string list"

type_synonym 'n vec = "(string list \<times> 'n) list"

record 'f Collector =
  co_ProcessState :: "int vec"
  co_ProcessStartTotal :: "nat vec"
  co_ProcessExitTotal :: "nat vec"
  co_ProcessUptime :: "'f vec"
  co_SupervisorUptime :: "'f option"
  co_SupervisorProcesses :: "int vec"
  co_ConfigReloadTotal :: nat
  co_ConfigReloadErrorTotal :: nat
  co_BuildInfo :: "int vec"

definition registered :: "metric list" where
  "registered = [
     \<lparr>mt_Name = ''kahi_process_state'', mt_Labels = [''name'', ''group'']\<rparr>,
     \<lparr>mt_Name = ''kahi_process_start_total'', mt_Labels = [''name'']\<rparr>,
     \<lparr>mt_Name = ''kahi_process_exit_total'', mt_Labels = [''name'', ''expected'']\<rparr>,
     \<lparr>mt_Name = ''kahi_process_uptime_seconds'', mt_Labels = [''name'']\<rparr>,
     \<lparr>mt_Name = ''kahi_supervisor_uptime_seconds'', mt_Labels = []\<rparr>,
     \<lparr>mt_Name = ''kahi_supervisor_processes'', mt_Labels = [''state'']\<rparr>,
     \<lparr>mt_Name = ''kahi_supervisor_config_reload_total'', mt_Labels = []\<rparr>,
     \<lparr>mt_Name = ''kahi_supervisor_config_reload_errors_total'', mt_Labels = []\<rparr>,
     \<lparr>mt_Name = ''kahi_info'', mt_Labels = [''version'', ''go_version'', ''fips'']\<rparr>]"

definition new_collector :: "'f Collector" where
  "new_collector = \<lparr>co_ProcessState = [], co_ProcessStartTotal = [], co_ProcessExitTotal = [], co_ProcessUptime = [],
     co_SupervisorUptime = None, co_SupervisorProcesses = [], co_ConfigReloadTotal = 0, co_ConfigReloadErrorTotal = 0,
     co_BuildInfo = []\<rparr>"

definition vec_inc :: "string list \<Rightarrow> nat vec \<Rightarrow> nat vec" where
  "vec_inc k v = AList.update k (Suc (case map_of v k of None \<Rightarrow> 0 | Some n \<Rightarrow> n)) v"

definition SetBuildInfo :: "string \<Rightarrow> string \<Rightarrow> string \<Rightarrow> 'f Collector \<Rightarrow> 'f Collector" where
  "SetBuildInfo version goVersion fips c = c\<lparr>co_BuildInfo := AList.update [version, goVersion, fips] 1 (co_BuildInfo c)\<rparr>"

definition SetProcessState :: "string \<Rightarrow> string \<Rightarrow> int \<Rightarrow> 'f Collector \<Rightarrow> 'f Collector" where
  "SetProcessState name group_name code c = c\<lparr>co_ProcessState := AList.update [name, group_name] code (co_ProcessState c)\<rparr>"

definition IncProcessStart :: "string \<Rightarrow> 'f Collector \<Rightarrow> 'f Collector" where
  "IncProcessStart name c = c\<lparr>co_ProcessStartTotal := vec_inc [name] (co_ProcessStartTotal c)\<rparr>"

definition IncProcessExit :: "string \<Rightarrow> bool \<Rightarrow> 'f Collector \<Rightarrow> 'f Collector" where
  "IncProcessExit name expected c =
     c\<lparr>co_ProcessExitTotal := vec_inc [name, if expected then ''true'' else ''false''] (co_ProcessExitTotal c)\<rparr>"

definition SetProcessUptime :: "string \<Rightarrow> 'f \<Rightarrow> 'f Collector \<Rightarrow> 'f Collector" where
  "SetProcessUptime name x c = c\<lparr>co_ProcessUptime := AList.update [name] x (co_ProcessUptime c)\<rparr>"

definition SetSupervisorUptime :: "'f \<Rightarrow> 'f Collector \<Rightarrow> 'f Collector" where
  "SetSupervisorUptime x c = c\<lparr>co_SupervisorUptime := Some x\<rparr>"

definition SetProcessCount :: "string \<Rightarrow> int \<Rightarrow> 'f Collector \<Rightarrow> 'f Collector" where
  "SetProcessCount state n c = c\<lparr>co_SupervisorProcesses := AList.update [state] n (co_SupervisorProcesses c)\<rparr>"

definition IncConfigReload :: "'f Collector \<Rightarrow> 'f Collector" where
  "IncConfigReload c = c\<lparr>co_ConfigReloadTotal := Suc (co_ConfigReloadTotal c)\<rparr>"

definition IncConfigReloadError :: "'f Collector \<Rightarrow> 'f Collector" where
  "IncConfigReloadError c = c\<lparr>co_ConfigReloadErrorTotal := Suc (co_ConfigReloadErrorTotal c)\<rparr>"

definition RemoveProcess :: "string \<Rightarrow> string \<Rightarrow> 'f Collector \<Rightarrow> 'f Collector" where
  "RemoveProcess name group_name c =
     c\<lparr>co_ProcessState := AList.delete [name, group_name] (co_ProcessState c),
       co_ProcessStartTotal := AList.delete [name] (co_ProcessStartTotal c),
       co_ProcessExitTotal := filter (\<lambda>(k, n). hd k \<noteq> name) (co_ProcessExitTotal c),
       co_ProcessUptime := AList.delete [name] (co_ProcessUptime c)\<rparr>"

section \<open>What the metrics count\<close>

datatype 'f metric_op =
    MState string string int | MStart string | MExit string bool | MUptime string 'f | MRemove string string
  | MCount string int | MReload | MReloadError | MBuild string string string | MSupervisor 'f

fun run_metric :: "'f metric_op \<Rightarrow> 'f Collector \<Rightarrow> 'f Collector" where
  "run_metric (MState n g x) = SetProcessState n g x"
| "run_metric (MStart n) = IncProcessStart n"
| "run_metric (MExit n b) = IncProcessExit n b"
| "run_metric (MUptime n x) = SetProcessUptime n x"
| "run_metric (MRemove n g) = RemoveProcess n g"
| "run_metric (MCount s n) = SetProcessCount s n"
| "run_metric MReload = IncConfigReload"
| "run_metric MReloadError = IncConfigReloadError"
| "run_metric (MBuild v g f) = SetBuildInfo v g f"
| "run_metric (MSupervisor x) = SetSupervisorUptime x"

definition run_metrics :: "'f metric_op list \<Rightarrow> 'f Collector \<Rightarrow> 'f Collector" where
  "run_metrics ops c = fold run_metric ops c"

text \<open>The operations on a process since it was last removed.\<close>

fun since_removal :: "string \<Rightarrow> 'f metric_op list \<Rightarrow> 'f metric_op list" where
  "since_removal name [] = []"
| "since_removal name (op # ops) =
     (if \<exists>g. MRemove name g \<in> set (op # ops) then since_removal name ops else op # ops)"

definition starts :: "string \<Rightarrow> 'f metric_op list \<Rightarrow> nat" where
  "starts name ops = count_list ops (MStart name)"

definition exits :: "string \<Rightarrow> bool \<Rightarrow> 'f metric_op list \<Rightarrow> nat" where
  "exits name b ops = count_list ops (MExit name b)"

lemma map_of_vec_inc: "map_of (vec_inc k v) k' = (if k' = k then Some (Suc (case map_of v k of None \<Rightarrow> 0 | Some n \<Rightarrow> n)) else map_of v k')"
  by (simp add: vec_inc_def update_conv')

definition counted :: "nat \<Rightarrow> nat option" where
  "counted n = (if n = 0 then None else Some n)"

lemma since_removal_snoc:
  "since_removal name (ops @ [op]) =
     (if \<exists>g. op = MRemove name g then [] else since_removal name ops @ [op])"
  by (induction ops) auto

lemma map_of_filter_key: "map_of (filter (\<lambda>(k, n). P k) v) k = (if P k then map_of v k else None)"
  by (induction v) auto

lemma counted_simps: "counted 0 = None" "(case counted n of None \<Rightarrow> 0 | Some m \<Rightarrow> m) = n" "counted (Suc n) = Some (Suc n)"
  by (simp_all add: counted_def)

lemmas metric_ops =
  SetProcessState_def IncProcessStart_def IncProcessExit_def SetProcessUptime_def RemoveProcess_def SetProcessCount_def
  IncConfigReload_def IncConfigReloadError_def SetBuildInfo_def SetSupervisorUptime_def

text \<open>The counters of a process are the numbers of its starts and exits since it was last removed; a counter that
  nothing has touched since then is not in the exposition at all.\<close>

lemma counters_since_removal:
  "map_of (co_ProcessStartTotal (run_metrics ops new_collector)) [name] = counted (starts name (since_removal name ops)) \<and>
   map_of (co_ProcessExitTotal (run_metrics ops new_collector)) [name, if b then ''true'' else ''false''] =
     counted (exits name b (since_removal name ops))"
proof (induction ops rule: rev_induct)
  case Nil
  show ?case by (simp add: run_metrics_def new_collector_def starts_def exits_def counted_simps)
next
  case (snoc op ops)
  then show ?case
    by (cases op)
      (auto simp: run_metrics_def since_removal_snoc starts_def exits_def metric_ops map_of_vec_inc counted_simps
        map_of_filter_key delete_conv')
qed

text \<open>After \<open>RemoveProcess\<close> no series of the process is left, and those of the other processes are unchanged.\<close>

lemma RemoveProcess_leaves_nothing:
  fixes n g :: string and c :: "'f Collector"
  defines "c' \<equiv> RemoveProcess n g c"
  shows "map_of (co_ProcessState c') [n, g] = None" "map_of (co_ProcessStartTotal c') [n] = None"
    "map_of (co_ProcessExitTotal c') [n, l] = None" "map_of (co_ProcessUptime c') [n] = None"
    "n' \<noteq> n \<Longrightarrow> map_of (co_ProcessStartTotal c') [n'] = map_of (co_ProcessStartTotal c) [n']"
    "n' \<noteq> n \<Longrightarrow> map_of (co_ProcessExitTotal c') [n', l] = map_of (co_ProcessExitTotal c) [n', l]"
  by (simp_all add: c'_def RemoveProcess_def delete_conv' map_of_filter_key)

end
