(* ===== verification/Web_Ui.thy ===== *)
theory Web_Ui
  imports Manager_Model Ctl_Status
begin

text \<open>
  The web interface: \<open>internal/web/web.go\<close>, which serves the pages and the static files under \<open>/ui/\<close>, and
  \<open>cmd/kahi/webui.go\<close>, which builds it.  Requests have passed the authentication of \<open>Api_Server\<close>.  Templates,
  file systems and the hash are arguments; conditional and range requests are left to
  \<open>http.ServeContent\<close>, so an asset is its whole content.
\<close>

section \<open>Pages\<close>

record ProcessView =
  pv_Name :: string
  pv_Group :: string
  pv_State :: string
  pv_StateLower :: string
  pv_PID :: nat
  pv_Uptime :: int
  pv_UptimeStr :: string
  pv_Description :: string
  pv_ExitStatus :: int

definition FormatUptime :: "int \<Rightarrow> string" where
  "FormatUptime secs = formatDuration (i64 (secs * 1000000000))"

definition knownStates :: "string list" where
  "knownStates = [''STOPPED'', ''STARTING'', ''RUNNING'', ''BACKOFF'', ''STOPPING'', ''EXITED'', ''FATAL'']"

definition stateClassName :: "string \<Rightarrow> string" where
  "stateClassName state = (if state \<in> set knownStates then ToLower state else ''unknown'')"

definition process_view :: "ProcessInfo \<Rightarrow> ProcessView" where
  "process_view p =
     \<lparr>pv_Name = in_Name p, pv_Group = in_Group p, pv_State = in_State p, pv_StateLower = stateClassName (in_State p),
      pv_PID = in_PID p, pv_Uptime = in_Uptime p, pv_UptimeStr = FormatUptime (in_Uptime p),
      pv_Description = in_Description p, pv_ExitStatus = in_ExitStatus p\<rparr>"

definition ListWeb :: "int \<Rightarrow> Manager \<Rightarrow> ProcessView list" where
  "ListWeb now m = map process_view (manager_List now m)"

datatype web_page = StatusPage "ProcessView list" | LogPage string string

datatype origin = Overlay | Embedded

datatype web_body = Page web_page string | Asset origin string | PlainText string

record web_response =
  wr_status :: nat
  wr_headers :: "(string \<times> string) list"
  wr_body :: web_body

section \<open>Headers\<close>

definition csp_self :: string where "csp_self = [CHR 0x27] @ ''self'' @ [CHR 0x27]"
definition csp_none :: string where "csp_none = [CHR 0x27] @ ''none'' @ [CHR 0x27]"

definition contentSecurityPolicy :: string where
  "contentSecurityPolicy =
     ''default-src '' @ csp_self @ ''; script-src '' @ csp_self @ ''; style-src '' @ csp_self @ ''; object-src '' @ csp_none @
     ''; frame-ancestors '' @ csp_none @ ''; base-uri '' @ csp_none @ ''; form-action '' @ csp_none"

definition SetSecurityHeaders :: "(string \<times> string) list \<Rightarrow> (string \<times> string) list" where
  "SetSecurityHeaders h =
     AList.update ''X-Content-Type-Options'' ''nosniff'' (AList.update ''Content-Security-Policy'' contentSecurityPolicy h)"

definition contentTypes :: "(string \<times> string) list" where
  "contentTypes = [(''.js'', ''text/javascript; charset=utf-8''), (''.css'', ''text/css; charset=utf-8''),
     (''.svg'', ''image/svg+xml''), (''.ico'', ''image/x-icon'')]"

text \<open>\<open>path.Ext\<close>: from the last dot of the last element of the path.\<close>

definition path_ext :: "string \<Rightarrow> string" where
  "path_ext s =
     (let r = rev s; e = takeWhile (\<lambda>c. c \<noteq> CHR ''.'' \<and> c \<noteq> CHR ''/'') r; rest = drop (length e) r in
      if rest \<noteq> [] \<and> hd rest = CHR ''.'' then CHR ''.'' # rev e else [])"

text \<open>\<open>http.Error\<close> and \<open>http.NotFound\<close>.\<close>

definition web_error :: "nat \<Rightarrow> string \<Rightarrow> (string \<times> string) list \<Rightarrow> web_response" where
  "web_error status msg h =
     \<lparr>wr_status = status,
      wr_headers = AList.update ''X-Content-Type-Options'' ''nosniff''
        (AList.update ''Content-Type'' ''text/plain; charset=utf-8'' (AList.delete ''ETag'' (AList.delete ''Cache-Control'' h))),
      wr_body = PlainText msg\<rparr>"

section \<open>Assets\<close>

datatype file_result = FileData string | FileMissing | FileError string

record assets =
  as_overlay :: "(string \<Rightarrow> file_result) option"
  as_embedded :: "string \<Rightarrow> string option"
  as_etag :: "string \<Rightarrow> string"

text \<open>The overlay is used if the directory exists and can be opened.\<close>

definition newAssets :: "(string \<Rightarrow> string option) \<Rightarrow> (string \<Rightarrow> string) \<Rightarrow> string \<Rightarrow> (string \<Rightarrow> (string \<Rightarrow> file_result) option) \<Rightarrow> assets" where
  "newAssets embedded contentETag staticDir open_root =
     \<lparr>as_overlay = (if staticDir = [] then None else open_root staticDir), as_embedded = embedded, as_etag = contentETag\<rparr>"

definition assets_read :: "assets \<Rightarrow> string \<Rightarrow> (origin \<times> string \<times> string) option" where
  "assets_read a name =
     (let embedded = map_option (\<lambda>d. (Embedded, d, as_etag a d)) (as_embedded a name) in
      case as_overlay a of
        Some ov \<Rightarrow>
          if map_of contentTypes (path_ext name) \<noteq> None then
            (case ov name of
               FileData d \<Rightarrow> Some (Overlay, d, as_etag a d)
             | FileError e \<Rightarrow> None
             | FileMissing \<Rightarrow> embedded)
          else embedded
      | None \<Rightarrow> embedded)"

section \<open>The handler\<close>

text \<open>\<open>sniff\<close> is the type the library gives a file without one; \<open>template\<close> renders a page or fails.\<close>

record web_env =
  we_template :: "web_page \<Rightarrow> string option"
  we_sniff :: "string \<Rightarrow> string \<Rightarrow> string"
  we_assets :: assets
  we_list :: "ProcessView list"

definition render :: "web_env \<Rightarrow> web_page \<Rightarrow> (string \<times> string) list \<Rightarrow> web_response" where
  "render e p h =
     (case we_template e p of
        None \<Rightarrow> web_error 500 ''template error'' h
      | Some t \<Rightarrow> \<lparr>wr_status = 200, wr_headers = AList.update ''Content-Type'' ''text/html; charset=utf-8'' h, wr_body = Page p t\<rparr>)"

definition handleLog :: "web_env \<Rightarrow> string \<Rightarrow> string \<Rightarrow> (string \<times> string) list \<Rightarrow> web_response" where
  "handleLog e name stream h =
     (if stream \<noteq> ''stdout'' \<and> stream \<noteq> ''stderr'' then web_error 400 ''invalid stream'' h
      else if \<not> list_ex (\<lambda>p. pv_Name p = name) (we_list e) then web_error 404 (''No such process: '' @ name) h
      else render e (LogPage name stream) h)"

definition handleStatic :: "web_env \<Rightarrow> string \<Rightarrow> (string \<times> string) list \<Rightarrow> web_response" where
  "handleStatic e name h =
     (case assets_read (we_assets e) name of
        None \<Rightarrow> web_error 404 ''404 page not found'' h
      | Some (orig, d, etag) \<Rightarrow>
          (let h1 = (case map_of contentTypes (path_ext name) of None \<Rightarrow> h | Some ct \<Rightarrow> AList.update ''Content-Type'' ct h);
               h2 = AList.update ''Cache-Control'' ''private, max-age=3600'' (AList.update ''ETag'' etag h1);
               h3 = (if map_of h2 ''Content-Type'' = None then AList.update ''Content-Type'' (we_sniff e name d) h2 else h2)
           in \<lparr>wr_status = 200, wr_headers = h3, wr_body = Asset orig d\<rparr>))"

text \<open>The routes; a request is its path below \<open>/ui\<close>.\<close>

definition ServeHTTP :: "web_env \<Rightarrow> string list \<Rightarrow> web_response" where
  "ServeHTTP e path =
     (let h = SetSecurityHeaders [] in
      if path = [[]] then render e (StatusPage (we_list e)) h
      else if length path = 3 \<and> hd path = ''log'' \<and> path ! 1 \<noteq> [] \<and> path ! 2 \<noteq> [] then handleLog e (path ! 1) (path ! 2) h
      else if length path > 1 \<and> hd path = ''static'' then handleStatic e (join ''/'' (tl path)) h
      else web_error 404 ''404 page not found'' h)"

text \<open>\<open>None\<close> is a disabled interface; without templates every request is answered with 503.\<close>

definition buildUIHandler :: "bool \<Rightarrow> bool \<Rightarrow> web_env \<Rightarrow> (string list \<Rightarrow> web_response) option" where
  "buildUIHandler on templates_ok e =
     (if \<not> on then None
      else if templates_ok then Some (ServeHTTP e)
      else Some (\<lambda>_. web_error 503 ''web UI unavailable'' (SetSecurityHeaders [])))"

section \<open>What a browser may run\<close>

definition secured :: "(string \<times> string) list \<Rightarrow> bool" where
  "secured h \<longleftrightarrow> map_of h ''Content-Security-Policy'' = Some contentSecurityPolicy \<and>
     map_of h ''X-Content-Type-Options'' = Some ''nosniff''"

lemma secured_update: "k \<noteq> ''Content-Security-Policy'' \<Longrightarrow> k \<noteq> ''X-Content-Type-Options'' \<Longrightarrow> secured h \<Longrightarrow> secured (AList.update k v h)"
  by (simp add: secured_def update_conv')

lemma secured_start: "secured (SetSecurityHeaders [])"
  by (simp add: secured_def SetSecurityHeaders_def)

lemma secured_error: "secured h \<Longrightarrow> secured (wr_headers (web_error n msg h))"
  by (simp add: secured_def web_error_def update_conv' delete_conv')

lemma render_secured: "secured h \<Longrightarrow> secured (wr_headers (render e p h))"
  by (simp add: render_def secured_error secured_update split: option.split)

definition asset_types :: "string set" where
  "asset_types = snd ` set contentTypes"

lemma static_facts:
  assumes "secured h" and "map_of h ''Content-Type'' = None"
  shows "secured (wr_headers (handleStatic e name h))"
    and "wr_body (handleStatic e name h) = Asset Overlay d \<Longrightarrow>
      \<exists>ct\<in>asset_types. map_of (wr_headers (handleStatic e name h)) ''Content-Type'' = Some ct"
proof -
  show "secured (wr_headers (handleStatic e name h))"
    using assms by (auto simp: handleStatic_def secured_error secured_update Let_def split: option.split)
  assume "wr_body (handleStatic e name h) = Asset Overlay d"
  then obtain etag where r: "assets_read (we_assets e) name = Some (Overlay, d, etag)"
    by (auto simp: handleStatic_def web_error_def Let_def split: option.splits)
  then obtain ct where ct: "map_of contentTypes (path_ext name) = Some ct"
    by (auto simp: assets_read_def Let_def split: option.splits if_splits)
  then have "ct \<in> asset_types" by (force simp: asset_types_def dest: map_of_SomeD)
  then show "\<exists>ct\<in>asset_types. map_of (wr_headers (handleStatic e name h)) ''Content-Type'' = Some ct"
    using r ct by (auto simp: handleStatic_def Let_def update_conv' intro!: bexI [of _ ct])
qed


definition ui_example :: web_env where
  "ui_example = \<lparr>we_template = (\<lambda>_. Some ''html''), we_sniff = (\<lambda>_ _. ''text/plain''),
     we_assets = newAssets (\<lambda>n. if n = ''app.js'' then Some ''a'' else None) (\<lambda>d. ''tag'') ''/etc/ui''
       (\<lambda>dir. Some (\<lambda>n. if n = ''site.css'' then FileData ''b'' else if n = ''evil.html'' then FileData ''c'' else FileMissing)),
     we_list = []\<rparr>"


end
