(* ===== verification/Log_Open.thy ===== *)
theory Log_Open
  imports Kahi_Prelude
begin

text \<open>
  \<open>internal/logging/open_unix.go\<close>: how a log file is opened under a name that others may have prepared.  The file
  system is a tree with symbolic links; \<open>os.Root\<close> and \<open>filepath.Clean\<close> of the standard library are
  written out as far as the code uses them.  Permissions are left out, they only refuse more.
\<close>

section \<open>Paths\<close>

text \<open>A tree gives the node at each path, as the components below the root of the file system.\<close>

datatype node = Folder | Regular nat | Link string

type_synonym path = "string list"
type_synonym tree = "path \<Rightarrow> node option"

text \<open>\<open>filepath.Clean\<close> on the components of a path.\<close>

fun clean_onto :: "bool \<Rightarrow> path \<Rightarrow> path \<Rightarrow> path" where
  "clean_onto absolute acc [] = rev acc"
| "clean_onto absolute acc (c # cs) =
     (if c = [] \<or> c = ''.'' then clean_onto absolute acc cs
      else if c = ''..'' then
        (if acc \<noteq> [] \<and> hd acc \<noteq> ''..'' then clean_onto absolute (tl acc) cs
         else if absolute then clean_onto absolute acc cs
         else clean_onto absolute (''..'' # acc) cs)
      else clean_onto absolute (c # acc) cs)"

definition clean_path :: "string \<Rightarrow> bool \<times> path" where
  "clean_path p = (let absolute = has_prefix p ''/'' in (absolute, clean_onto absolute [] (split_on (CHR ''/'') p)))"

section \<open>The open\<close>

text \<open>
  \<open>os.Root.Open\<close> of a directory: from \<open>base\<close>, with at most \<open>n\<close> links followed.  A link is replaced by its
  text, and the walk refuses a link with an absolute text and a step above the base.
\<close>

function root_walk :: "tree \<Rightarrow> path \<Rightarrow> nat \<Rightarrow> path \<Rightarrow> path \<Rightarrow> path option" where
  "root_walk t base n at [] = Some at"
| "root_walk t base n at (c # cs) =
     (if c = [] \<or> c = ''.'' then root_walk t base n at cs
      else if c = ''..'' then (if at = [] then None else root_walk t base n (butlast at) cs)
      else case t (base @ at @ [c]) of
        None \<Rightarrow> None
      | Some (Regular i) \<Rightarrow> None
      | Some Folder \<Rightarrow> root_walk t base n (at @ [c]) cs
      | Some (Link l) \<Rightarrow>
          if n = 0 \<or> l = [] \<or> has_prefix l ''/'' then None
          else root_walk t base (n - 1) at (split_on (CHR ''/'') l @ cs))"
  by pat_completeness auto
termination
  by (relation "inv_image (less_than <*lex*> less_than) (\<lambda>(t, base, n, at, cs). (n, length cs))") auto

text \<open>
  The parent directory is resolved through the root, and the last component is opened in it with \<open>O_NOFOLLOW\<close>;
  the result is the file that is opened or created.
\<close>

definition openLogFile_tree :: "tree \<Rightarrow> path \<Rightarrow> nat \<Rightarrow> string \<Rightarrow> path option" where
  "openLogFile_tree t cwd links path =
     (case clean_path path of (absolute, cs) \<Rightarrow>
        if cs = [] \<or> last cs = ''..'' then None
        else
          (let base = (if absolute then [] else cwd) in
           case root_walk t base links [] (butlast cs) of
             None \<Rightarrow> None
           | Some dir \<Rightarrow>
               (let f = base @ dir @ [last cs] in
                case t f of
                  None \<Rightarrow> Some f
                | Some (Regular i) \<Rightarrow> Some f
                | Some Folder \<Rightarrow> None
                | Some (Link l) \<Rightarrow> None)))"

section \<open>Walks\<close>

definition plain_part :: "string \<Rightarrow> bool" where
  "plain_part c \<longleftrightarrow> c \<noteq> [] \<and> c \<noteq> ''.'' \<and> c \<noteq> ''..'' \<and> CHR ''/'' \<notin> set c"

definition folders :: "tree \<Rightarrow> path \<Rightarrow> path \<Rightarrow> bool" where
  "folders t base cs \<longleftrightarrow> (\<forall>k\<le>length cs. t (base @ take k cs) = Some Folder)"

lemma folders_Cons: "folders t base (c # cs) \<longleftrightarrow> t base = Some Folder \<and> folders t (base @ [c]) cs"
proof -
  have "(\<forall>k\<le>Suc n. P k) \<longleftrightarrow> P 0 \<and> (\<forall>k\<le>n. P (Suc k))" for n and P :: "nat \<Rightarrow> bool"
    by (metis Suc_le_mono le0 not0_implies_Suc)
  then show ?thesis by (simp add: folders_def)
qed

lemma folders_first: "folders t base cs \<Longrightarrow> t base = Some Folder"
  by (simp add: folders_def) (metis append_Nil2 le0 take0)

lemma folders_snoc: "folders t base (cs @ [c]) \<longleftrightarrow> folders t base cs \<and> t (base @ cs @ [c]) = Some Folder"
  by (induction cs arbitrary: base) (simp_all add: folders_Cons, simp add: folders_def)

lemma walk_folders:
  "list_all plain_part cs \<Longrightarrow> folders t (base @ at) cs \<Longrightarrow>
   root_walk t base n at (cs @ rest) = root_walk t base n (at @ cs) rest"
proof (induction cs arbitrary: at)
  case (Cons c cs)
  then have f: "folders t (base @ at @ [c]) cs" by (simp add: folders_Cons)
  then show ?case using Cons folders_first [OF f] by (simp add: plain_part_def)
qed simp

lemma walk_up: "root_walk t base n at (replicate (length at) ''..'' @ rest) = root_walk t base n [] rest"
  by (induction at rule: rev_induct) simp_all

lemma walk_link:
  assumes "plain_part c" and "t (base @ at @ [c]) = Some (Link l)"
  shows "root_walk t base n at (c # rest) =
    (if n = 0 \<or> l = [] \<or> has_prefix l ''/'' then None else root_walk t base (n - 1) at (split_on (CHR ''/'') l @ rest))"
  using assms by (simp add: plain_part_def)

lemma walk_stays:
  "root_walk t base n at cs = Some dir \<Longrightarrow> folders t base at \<Longrightarrow> folders t base dir"
proof (induction t base n at cs rule: root_walk.induct)
  case (2 t base n at c cs)
  have up: "folders t base (butlast at)" using 2(6) by (cases at rule: rev_cases) (simp_all add: folders_snoc)
  have down: "folders t base (at @ [c])" if "t (base @ at @ [c]) = Some Folder"
    using 2(6) that by (simp add: folders_snoc)
  show ?case using 2 up down by (auto split: if_splits option.splits node.splits)
qed simp

lemma clean_onto_plain:
  "list_all (\<lambda>c. CHR ''/'' \<notin> set c) cs \<Longrightarrow> list_all plain_part acc \<Longrightarrow> list_all plain_part (clean_onto True acc cs)"
proof (induction cs arbitrary: acc)
  case (Cons c cs)
  then show ?case by (cases acc) (auto simp: plain_part_def)
qed simp

lemma clean_onto_id: "list_all plain_part cs \<Longrightarrow> clean_onto absolute acc cs = rev acc @ cs"
  by (induction cs arbitrary: acc) (auto simp: plain_part_def)

lemma clean_path_absolute: "clean_path path = (True, cs) \<Longrightarrow> list_all plain_part cs"
  using clean_onto_plain [of "split_on (CHR ''/'') path" "[]"] split_on_parts
  by (auto simp: clean_path_def Let_def list_all_iff)

lemma clean_path_join:
  assumes "cs \<noteq> []" and "list_all plain_part cs"
  shows "clean_path (CHR ''/'' # join ''/'' cs) = (True, cs)"
  using assms by (simp add: clean_path_def Let_def has_prefix_def split_on_join list_all_iff plain_part_def clean_onto_id)

section \<open>What the walk guards against\<close>


text \<open>
  C25 (error).  The guard does not hold against a relative link: if the directory of a log path is replaced by a link
  whose text climbs to the root and descends again, the log is opened in whatever directory of the
  file system the link names, although the comment on \<open>openLogFile\<close> and the decision behind it say that
  no swapped parent redirects a write.
\<close>

theorem relative_link_redirects_the_log:
  assumes "1 \<le> n" and "list_all plain_part (pre @ c # q @ [b])" and "folders t [] pre" and "folders t [] q"
    and "pre @ q \<noteq> []" and "t (pre @ [c]) = Some (Link (join ''/'' (replicate (length pre) ''..'' @ q)))"
    and "t (q @ [b]) = None \<or> t (q @ [b]) = Some (Regular i)"
  shows "openLogFile_tree t cwd n (CHR ''/'' # join ''/'' (pre @ [c, b])) = Some (q @ [b])"
proof -
  let ?link = "replicate (length pre) ''..'' @ q"
  have parts: "w \<noteq> [] \<and> CHR ''/'' \<notin> set w" if "w \<in> set ?link" for w
  proof -
    have "w = ''..'' \<or> plain_part w" using that assms(2) by (auto simp: list_all_iff)
    then show ?thesis by (auto simp: plain_part_def)
  qed
  have ne: "?link \<noteq> []" using assms(5) by auto
  have split: "split_on (CHR ''/'') (join ''/'' ?link) = ?link"
    using ne parts by (intro split_on_join) blast+
  have relative: "join ''/'' ?link \<noteq> [] \<and> \<not> has_prefix (join ''/'' ?link) ''/''"
  proof (cases "join ''/'' ?link")
    case Nil
    then show ?thesis using split parts [of "[]"] by (metis list.set_intros(1) split_on.simps(1))
  next
    case (Cons x xs)
    have "x \<noteq> CHR ''/''" using split parts [of "[]"] Cons by (metis list.set_intros(1) split_on.simps(2))
    then show ?thesis using Cons by (simp add: has_prefix_def)
  qed
  have clean: "clean_path (CHR ''/'' # join ''/'' (pre @ [c, b])) = (True, pre @ [c, b])"
    using assms(2) by (intro clean_path_join) simp_all
  have "root_walk t [] n [] (pre @ [c]) = root_walk t [] (n - 1) pre (?link @ [])"
    using walk_folders [of pre t "[]" "[]" n "[c]"] walk_link [of c t "[]" pre _ n "[]"] assms split relative by simp
  also have "\<dots> = root_walk t [] (n - 1) [] (q @ [])"
    using walk_up [of t "[]" "n - 1" pre q] by simp
  also have "\<dots> = Some q"
    using walk_folders [of q t "[]" "[]" "n - 1" "[]"] assms(2,4) by simp
  finally show ?thesis
    using clean assms(2,7) by (auto simp: openLogFile_tree_def Let_def butlast_append plain_part_def)
qed

text \<open>A service that may write to its own directory below \<open>/var/log\<close> has swapped it.\<close>

definition swapped_tree :: tree where
  "swapped_tree = map_of [([], Folder), ([''var''], Folder), ([''var'', ''log''], Folder), ([''etc''], Folder),
     ([''etc'', ''passwd''], Regular 7), ([''var'', ''log'', ''app''], Link ''../../etc'')]"

lemma swapped_folders: "folders swapped_tree [] [''var'', ''log'']" "folders swapped_tree [] [''etc'']"
  by (simp_all add: folders_Cons swapped_tree_def) (simp_all add: folders_def)

theorem relative_link_redirects_the_log_witness:
  "openLogFile_tree swapped_tree [] 8 ''/var/log/app/passwd'' = Some [''etc'', ''passwd'']"
proof -
  have "openLogFile_tree swapped_tree [] 8 (CHR ''/'' # join ''/'' ([''var'', ''log''] @ [''app'', ''passwd''])) = Some ([''etc''] @ [''passwd''])"
    by (rule relative_link_redirects_the_log [where i = 7])
      (use swapped_folders in \<open>simp_all add: plain_part_def swapped_tree_def\<close>)
  then show ?thesis by simp
qed


end
