(* ===== verification/Spawn_Exec.thy ===== *)
theory Spawn_Exec
  imports Process_Runs
begin

text \<open>
  \<open>ExecSpawner.Spawn\<close> of \<open>internal/process/spawner.go\<close> down to the image the child runs: the command handed to
  \<open>os/exec\<close>, its pipes and its process attributes, and in the child the trampoline of \<open>childinit.go\<close>.  What
  the system permits is an argument; \<open>xo_look env\<close> is the search for a bare name on the PATH of an environment.
\<close>

record Cmd =
  cm_Path :: "string option"
  cm_Args :: "string list"
  cm_Dir :: string
  cm_Env :: "string list"
  cm_Attr :: SysProcAttr

record exec_os =
  xo_self :: "string option"
  xo_look :: "string list \<Rightarrow> string \<Rightarrow> string option"
  xo_environ :: "string list"
  xo_pipe :: "nat \<Rightarrow> bool"
  xo_start :: "Cmd \<Rightarrow> bool"
  xo_setrlimit :: "RLimit \<Rightarrow> bool"
  xo_exec :: "string \<Rightarrow> bool"

datatype spawn_error = NoExecutable | NoPipe nat | StartFailed

text \<open>\<open>exec.Command\<close> looks a bare name up at once, on the PATH of the calling process.\<close>

definition exec_path :: "exec_os \<Rightarrow> string \<Rightarrow> string option" where
  "exec_path os name = (if name \<noteq> [] \<and> \<not> contains name ''/'' then xo_look os (xo_environ os) name else Some name)"

definition trampolined :: "SpawnConfig \<Rightarrow> bool" where
  "trampolined cfg \<longleftrightarrow> sc_RLimits cfg \<noteq> [] \<or> sc_Umask cfg \<ge> 0"

definition Spawn :: "exec_os \<Rightarrow> SpawnConfig \<Rightarrow> spawn_error + Cmd" where
  "Spawn os cfg =
     (if trampolined cfg \<and> xo_self os = None then Inl NoExecutable
      else
        let argv = spawn_argv (case xo_self os of Some s \<Rightarrow> s | None \<Rightarrow> []) cfg;
            attr0 = (case sc_SysProcAttr cfg of None \<Rightarrow> \<lparr>sp_Setpgid = False, sp_Credential = None\<rparr> | Some a \<Rightarrow> a);
            cmd = \<lparr>cm_Path = exec_path os (hd argv), cm_Args = argv, cm_Dir = sc_Dir cfg, cm_Env = sc_Env cfg,
                   cm_Attr = attr0\<lparr>sp_Setpgid := True\<rparr>\<rparr>
        in case filter (\<lambda>i. \<not> xo_pipe os i) [0, 1, 2] of
             i # is \<Rightarrow> Inl (NoPipe i)
           | [] \<Rightarrow> if cm_Path cmd = None \<or> \<not> xo_start os cmd then Inl StartFailed else Inr cmd)"

text \<open>What the child does: the supervisor's own image runs the trampoline, any other image is the program.\<close>

definition child_of :: "exec_os \<Rightarrow> Cmd \<Rightarrow> child_effect list \<times> child_error option" where
  "child_of os cmd =
     (if cm_Path cmd = xo_self os \<and> IsChildInit (cm_Args cmd)
      then RunChildInit (xo_setrlimit os) (xo_look os (cm_Env cmd)) (xo_exec os) (cm_Args cmd)
      else ([Exec (the (cm_Path cmd)) (cm_Args cmd)], None))"

section \<open>What runs\<close>

lemma ApplyRLimits_run: "ApplyRLimits ok rls = (map SetLimit (takeWhile ok rls), find (\<lambda>rl. \<not> ok rl) rls)"
  by (induction rls) simp_all

lemma find_None_takeWhile: "find (\<lambda>x. \<not> ok x) xs = None \<Longrightarrow> takeWhile ok xs = xs"
  by (induction xs) (simp_all split: if_splits)

text \<open>The image the trampoline ends in.\<close>

definition image_path :: "(string \<Rightarrow> string option) \<Rightarrow> string \<Rightarrow> string" where
  "image_path look name = (if \<not> contains name ''/'' then (case look name of Some p \<Rightarrow> p | None \<Rightarrow> name) else name)"

lemma RunChildInit_result:
  assumes "parseChildInit argv = Inr (umask, limits, real)"
  shows "RunChildInit ok look exec_ok argv =
    (case find (\<lambda>rl. \<not> ok rl) limits of
       Some rl \<Rightarrow> (map SetLimit (takeWhile ok limits), Some (LimitRefused rl))
     | None \<Rightarrow>
         if exec_ok (image_path look (hd real))
         then (map SetLimit limits @ ApplyUmask umask @ [Exec (image_path look (hd real)) real], None)
         else (map SetLimit limits @ ApplyUmask umask, Some (ExecFailed (image_path look (hd real)))))"
  using assms
  by (simp add: RunChildInit_def ApplyRLimits_run image_path_def Let_def find_None_takeWhile split: option.split)

lemma no_exec_before: "Exec p a \<notin> set (map SetLimit rls)" "Exec p a \<notin> set (ApplyUmask m)"
  by (auto simp: ApplyUmask_def)

lemma spawn_config_fields:
  assumes "spawn_config e p = Inr cfg"
  shows "(sc_Command cfg, sc_Args cfg) = parseCommand p" "sc_RLimits cfg = ParseRLimits (pr_config p)"
    "ParseUmask (pc_Umask (pr_config p)) = Some (sc_Umask cfg)" "sc_Env cfg = buildEnv e p"
    "pc_User (pr_config p) \<noteq> [] \<Longrightarrow> pe_euid e = 0 \<Longrightarrow> sc_SysProcAttr cfg = BuildSysProcAttr (pc_User (pr_config p)) \<and>
       BuildSysProcAttr (pc_User (pr_config p)) \<noteq> None"
  using assms by (auto simp: spawn_config_def Let_def split: option.splits if_splits prod.splits)

lemma Spawn_result:
  assumes "Spawn os cfg = Inr cmd"
  shows "cm_Args cmd = spawn_argv (case xo_self os of Some s \<Rightarrow> s | None \<Rightarrow> []) cfg" "cm_Env cmd = sc_Env cfg"
    "cm_Path cmd = exec_path os (hd (cm_Args cmd))" "cm_Path cmd \<noteq> None" "sp_Setpgid (cm_Attr cmd)"
    "sp_Credential (cm_Attr cmd) = (case sc_SysProcAttr cfg of None \<Rightarrow> None | Some a \<Rightarrow> sp_Credential a)"
    "trampolined cfg \<Longrightarrow> xo_self os \<noteq> None"
  using assms by (auto simp: Spawn_def Let_def split: option.splits if_splits list.splits)

text \<open>The trampoline of a spawn decodes what was configured, a direct spawn has nothing to decode.\<close>

lemma spawned_argv:
  assumes "spawn_config e p = Inr cfg" and "case sc_Args cfg of [] \<Rightarrow> True | a # _ \<Rightarrow> a \<noteq> ChildInitArg"
  shows "if trampolined cfg
     then IsChildInit (spawn_argv self cfg) \<and> hd (spawn_argv self cfg) = self \<and>
       parseChildInit (spawn_argv self cfg) = Inr (sc_Umask cfg, sc_RLimits cfg, sc_Command cfg # sc_Args cfg)
     else \<not> IsChildInit (spawn_argv self cfg) \<and> spawn_argv self cfg = sc_Command cfg # sc_Args cfg \<and>
       sc_RLimits cfg = [] \<and> sc_Umask cfg < 0"
proof -
  note c = spawn_config_fields [OF assms(1)]
  have init: "IsChildInit (spawn_argv self cfg) \<longleftrightarrow> trampolined cfg"
    using assms(2) by (cases "sc_Args cfg") (simp_all add: spawn_argv_def trampolined_def IsChildInit_def)
  have hd: "trampolined cfg \<Longrightarrow> hd (spawn_argv self cfg) = self" by (simp add: spawn_argv_def trampolined_def)
  show ?thesis
    using trampoline_roundtrip [OF c(3,2) refl assms(2), of self] init hd c(2) by (simp split: if_split_asm)
qed

text \<open>
  C23 (refinement).  A child runs its program only as configured: from the configuration over the spawn and the
  trampoline to the image, the program's own command line is executed last and only after every limit
  and the umask were applied, in its own process group, with its environment and, for root, as its
  user; a limit that is refused means that nothing is executed.
\<close>

theorem child_runs_only_as_configured:
  assumes "spawn_config e p = Inr cfg" and "Spawn os cfg = Inr cmd" and "child_of os cmd = (effs, err)"
    and "case sc_Args cfg of [] \<Rightarrow> True | a # _ \<Rightarrow> a \<noteq> ChildInitArg"
    and "\<And>s. xo_self os = Some s \<Longrightarrow> contains s ''/''"
  shows "let limits = ParseRLimits (pr_config p); (name, args) = parseCommand p in
     (\<exists>umask. ParseUmask (pc_Umask (pr_config p)) = Some umask \<and>
       (\<forall>path argv. Exec path argv \<in> set effs \<longrightarrow>
          effs = map SetLimit limits @ ApplyUmask umask @ [Exec path argv] \<and> argv = name # args \<and> err = None)) \<and>
     ((\<exists>rl\<in>set limits. \<not> xo_setrlimit os rl) \<longrightarrow> err \<noteq> None) \<and>
     cm_Env cmd = buildEnv e p \<and> sp_Setpgid (cm_Attr cmd) \<and>
     (pc_User (pr_config p) \<noteq> [] \<and> pe_euid e = 0 \<longrightarrow>
        ParseCredential (pc_User (pr_config p)) = Some (sp_Credential (cm_Attr cmd)))"
proof -
  note c = spawn_config_fields [OF assms(1)] and s = Spawn_result [OF assms(2)]
  let ?argv = "cm_Args cmd"
  have argv: "if trampolined cfg then IsChildInit ?argv \<and> Some (hd ?argv) = xo_self os \<and>
       parseChildInit ?argv = Inr (sc_Umask cfg, sc_RLimits cfg, sc_Command cfg # sc_Args cfg)
     else \<not> IsChildInit ?argv \<and> ?argv = sc_Command cfg # sc_Args cfg \<and> sc_RLimits cfg = [] \<and> sc_Umask cfg < 0"
    using spawned_argv [OF assms(1,4), of "case xo_self os of Some s \<Rightarrow> s | None \<Rightarrow> []"] s(1,7)
    by (auto split: if_splits)
  have run: "(\<forall>path argv. Exec path argv \<in> set effs \<longrightarrow>
      effs = map SetLimit (sc_RLimits cfg) @ ApplyUmask (sc_Umask cfg) @ [Exec path argv] \<and>
      argv = sc_Command cfg # sc_Args cfg \<and> err = None) \<and>
      ((\<exists>rl\<in>set (sc_RLimits cfg). \<not> xo_setrlimit os rl) \<longrightarrow> err \<noteq> None)"
  proof (cases "trampolined cfg")
    case True
    then have "cm_Path cmd = xo_self os"
      using argv s(3) assms(5) by (auto simp: exec_path_def)
    then have r: "RunChildInit (xo_setrlimit os) (xo_look os (cm_Env cmd)) (xo_exec os) ?argv = (effs, err)"
      using True argv assms(3) by (simp add: child_of_def)
    show ?thesis
    proof (cases "find (\<lambda>rl. \<not> xo_setrlimit os rl) (sc_RLimits cfg)")
      case None
      then have "\<not> (\<exists>rl\<in>set (sc_RLimits cfg). \<not> xo_setrlimit os rl)" by (auto simp: find_None_iff)
      then show ?thesis
        using r True argv None no_exec_before by (auto simp: RunChildInit_result split: if_splits)
    next
      case (Some rl)
      then show ?thesis using r True argv no_exec_before by (auto simp: RunChildInit_result)
    qed
  next
    case False
    then show ?thesis using argv assms(3) by (auto simp: child_of_def ApplyUmask_def)
  qed
  have "ParseCredential (pc_User (pr_config p)) = Some (sp_Credential (cm_Attr cmd))"
    if "pc_User (pr_config p) \<noteq> []" "pe_euid e = 0"
    using c(5) [OF that] s(6) by (auto simp: BuildSysProcAttr_def)
  then show ?thesis using run c s(2,5) by (auto simp: Let_def split: prod.splits)
qed

definition limited_process :: Process where
  "limited_process = NewProcess ''web'' ''web'' (zero_program\<lparr>pc_Command := ''/bin/web -v'', pc_Umask := ''022'',
     pc_Environment := [(''KAHI_RLIMIT_NOFILE'', ''10:20'')]\<rparr>) False"

definition willing_os :: exec_os where
  "willing_os = \<lparr>xo_self = Some ''/bin/kahi'', xo_look = (\<lambda>_ _. None), xo_environ = [], xo_pipe = (\<lambda>_. True), xo_start = (\<lambda>_. True),
     xo_setrlimit = (\<lambda>_. True), xo_exec = (\<lambda>_. True)\<rparr>"

lemma limited_config:
  "spawn_config (up_env 0 7) limited_process =
     Inr \<lparr>sc_Command = ''/bin/web'', sc_Args = [''-v''], sc_Dir = [], sc_Env = buildEnv (up_env 0 7) limited_process,
       sc_Umask = 18, sc_RLimits = [\<lparr>rl_Resource = 7, rl_Cur = 10, rl_Max = 20\<rparr>], sc_SysProcAttr = None\<rparr>"
proof -
  let ?pc = "pr_config limited_process"
  have u: "ParseUmask ''022'' = Some 18"
    by (simp add: ParseUmask_def parse_int_def parse_magnitude_def digit_val_def)
  have t: "TrimSpace ''10'' = ''10''" "TrimSpace ''20'' = ''20''" by code_simp+
  have r: "ParseRLimits ?pc = [\<lparr>rl_Resource = 7, rl_Cur = 10, rl_Max = 20\<rparr>]"
    by (simp add: limited_process_def NewProcess_def ParseRLimits_def rlimit_resource_def ToUpper_def upper_char_def
        parseRLimitValue_def parseUint64_def t Let_def ToLower_def lower_char_def parse_uint_def digit_val_def)
  have "Fields ''/bin/web -v'' = [''/bin/web'', ''-v'']" by code_simp
  then have f: "parseCommand limited_process = (''/bin/web'', [''-v''])"
    by (simp add: parseCommand_def limited_process_def NewProcess_def)
  have p: "pc_Umask ?pc = ''022''" "pc_User ?pc = []" "pc_Directory ?pc = []"
    by (simp_all add: limited_process_def NewProcess_def zero_program_def)
  show ?thesis by (simp add: spawn_config_def f u p r Let_def)
qed

theorem child_runs_only_as_configured_witness:
  "\<exists>cfg cmd effs. spawn_config (up_env 0 7) limited_process = Inr cfg \<and> Spawn willing_os cfg = Inr cmd \<and>
     child_of willing_os cmd = (effs, None) \<and>
     effs = [SetLimit \<lparr>rl_Resource = 7, rl_Cur = 10, rl_Max = 20\<rparr>, SetUmask 18, Exec ''/bin/web'' [''/bin/web'', ''-v'']]"
proof -
  obtain cfg where c: "spawn_config (up_env 0 7) limited_process = Inr cfg" "sc_Command cfg = ''/bin/web''" "sc_Args cfg = [''-v'']"
      "sc_RLimits cfg = [\<lparr>rl_Resource = 7, rl_Cur = 10, rl_Max = 20\<rparr>]" "sc_Umask cfg = 18" "sc_SysProcAttr cfg = None"
    using limited_config by simp
  have args: "case sc_Args cfg of [] \<Rightarrow> True | a # _ \<Rightarrow> a \<noteq> ChildInitArg" by (simp add: c ChildInitArg_def)
  have tr: "trampolined cfg" by (simp add: trampolined_def c)
  note argv = spawned_argv [OF c(1) args, of "''/bin/kahi''"]
  have os: "xo_self willing_os = Some ''/bin/kahi''" "xo_pipe willing_os i" "xo_start willing_os x" for i x
    by (simp_all add: willing_os_def)
  have slash: "contains ''/bin/kahi'' ''/''" by code_simp
  then have path: "exec_path willing_os ''/bin/kahi'' = Some ''/bin/kahi''" by (simp add: exec_path_def del: contains_Cons)
  obtain cmd where s: "Spawn willing_os cfg = Inr cmd" using tr argv path by (simp add: Spawn_def os Let_def)
  have "child_of willing_os cmd = RunChildInit (\<lambda>_. True) (\<lambda>_. None) (\<lambda>_. True) (spawn_argv ''/bin/kahi'' cfg)"
    using tr argv Spawn_result(1,3) [OF s] path os(1) by (simp add: child_of_def) (simp add: willing_os_def)
  then have r: "child_of willing_os cmd = ([SetLimit \<lparr>rl_Resource = 7, rl_Cur = 10, rl_Max = 20\<rparr>, SetUmask 18,
      Exec ''/bin/web'' [''/bin/web'', ''-v'']], None)" (is "_ = (?effs, None)")
    using tr argv c by (simp add: RunChildInit_result image_path_def ApplyUmask_def)
  have "\<exists>umask. ParseUmask (pc_Umask (pr_config limited_process)) = Some umask \<and>
      (\<forall>path argv. Exec path argv \<in> set ?effs \<longrightarrow> ?effs = map SetLimit (ParseRLimits (pr_config limited_process)) @ ApplyUmask umask @ [Exec path argv])"
    using child_runs_only_as_configured [OF c(1) s r args] slash os(1) by (simp add: Let_def case_prod_beta del: contains_Cons) blast
  then show ?thesis using c(1) s r by blast
qed

text \<open>
  A bare name is looked up on the supervisor's PATH by a direct spawn, which fails when it is not found, but on the
  program's own PATH by the trampoline.
\<close>

lemma bare_name_lookup:
  assumes "spawn_config e p = Inr cfg" and "Spawn os cfg = Inr cmd" and "child_of os cmd = (effs, err)"
    and "case sc_Args cfg of [] \<Rightarrow> True | a # _ \<Rightarrow> a \<noteq> ChildInitArg"
    and "\<And>s. xo_self os = Some s \<Longrightarrow> contains s ''/''"
    and "sc_Command cfg \<noteq> []" and "\<not> contains (sc_Command cfg) ''/''" and "Exec path argv \<in> set effs"
  shows "if trampolined cfg
     then path = (case xo_look os (buildEnv e p) (sc_Command cfg) of Some f \<Rightarrow> f | None \<Rightarrow> sc_Command cfg)
     else xo_look os (xo_environ os) (sc_Command cfg) = Some path"
proof -
  note c = spawn_config_fields [OF assms(1)] and s = Spawn_result [OF assms(2)]
  note argv = spawned_argv [OF assms(1,4), of "case xo_self os of Some s \<Rightarrow> s | None \<Rightarrow> []", folded s(1)]
  show ?thesis
  proof (cases "trampolined cfg")
    case True
    then have "cm_Path cmd = xo_self os" using argv s(3,7) assms(5) by (auto simp: exec_path_def)
    then have "path = image_path (xo_look os (cm_Env cmd)) (sc_Command cfg)"
      using True argv assms(3,8) no_exec_before
      by (auto simp: child_of_def RunChildInit_result split: option.splits if_splits)
    then show ?thesis using True assms(7) c(4) s(2) by (simp add: image_path_def)
  next
    case False
    then show ?thesis using argv s(3,4) assms(3,6-8) by (auto simp: child_of_def exec_path_def)
  qed
qed

end
