(* ===== verification/Background.thy ===== *)
theory Background
  imports Daemon_Safety
begin

text \<open>
  \<open>kahi daemon -d\<close>: \<open>cmd/kahi/daemonize.go\<close>, which runs the command again in the background and waits for its report, and
  the reporting of the child in \<open>daemonRun\<close> of \<open>cmd/kahi/daemon.go\<close>.  The text of an error is an argument, and so
  is what the system permits.
\<close>

section \<open>The foreground process\<close>

definition daemonChildEnv :: string where "daemonChildEnv = ''KAHI_DAEMON_CHILD''"

type_synonym environ = "(string \<times> string) list"

text \<open>The standard streams are on the null device; descriptor 3 is the writing end of the pipe.\<close>

record bg_command =
  bc_Args :: "string list"
  bc_Env :: environ
  bc_Setsid :: bool

record bg_os =
  bo_exe :: "string + string"
  bo_devnull :: "string option"
  bo_pipe :: "string option"
  bo_start :: "bg_command \<Rightarrow> string + nat"

text \<open>
  The output and the error; \<open>report\<close> is what the child writes to the pipe until every copy of its end is
  closed.
\<close>

definition daemonize :: "bg_os \<Rightarrow> environ \<Rightarrow> string list \<Rightarrow> (bg_command \<Rightarrow> string) \<Rightarrow> string \<times> string option" where
  "daemonize os env args report =
     (case bo_exe os of
        Inl err \<Rightarrow> ([], Some (''daemonize: '' @ err))
      | Inr exe \<Rightarrow>
          (case bo_devnull os of
             Some err \<Rightarrow> ([], Some (''daemonize: '' @ err))
           | None \<Rightarrow>
               (case bo_pipe os of
                  Some err \<Rightarrow> ([], Some (''daemonize: '' @ err))
                | None \<Rightarrow>
                    let cmd = \<lparr>bc_Args = exe # args, bc_Env = env @ [(daemonChildEnv, ''3'')], bc_Setsid = True\<rparr> in
                    case bo_start os cmd of
                      Inl err \<Rightarrow> ([], Some (''daemonize: '' @ err))
                    | Inr pid \<Rightarrow>
                        let msg = TrimSpace (report cmd) in
                        if msg = ''ok'' then (''kahi daemon started (pid '' @ nat_digits pid @ '')'' @ [LF], None)
                        else if msg = [] then ([], Some ''daemon exited during startup'')
                        else ([], Some msg))))"

section \<open>The background process\<close>

text \<open>Of several values of a variable the child gets the last.\<close>

definition getenv :: "environ \<Rightarrow> string \<Rightarrow> string" where
  "getenv env k = (case map_of (rev env) k of None \<Rightarrow> [] | Some v \<Rightarrow> v)"

definition unsetenv :: "environ \<Rightarrow> string \<Rightarrow> environ" where
  "unsetenv env k = filter (\<lambda>(k', v). k' \<noteq> k) env"

text \<open>Whether there is a report to make, and the environment left for the processes of the daemon.\<close>

definition daemonChildReport :: "environ \<Rightarrow> bool \<times> environ" where
  "daemonChildReport env =
     (let v = getenv env daemonChildEnv in
      if v = [] then (False, env)
      else if v \<noteq> ''3'' then (False, unsetenv env daemonChildEnv)
      else (True, unsetenv env daemonChildEnv))"

text \<open>
  What \<open>Run\<close> does first: without its PID file it returns at once, otherwise it reaches \<open>OnRunning\<close>, where the report
  is closed, so that a later error is not part of it.
\<close>

definition run_report :: "(string \<Rightarrow> bool) \<Rightarrow> Supervisor \<Rightarrow> string option" where
  "run_report write_ok s =
     (if su_pidFile s \<noteq> [] \<and> \<not> write_ok (su_pidFile s) then Some (''cannot write PID file: '' @ su_pidFile s) else None)"

lemma run_report_Run:
  "Run os e write_ok pid ins evs s = Some (s', err) \<Longrightarrow> err = run_report write_ok s"
  by (auto simp: Run_cases run_report_def Let_def split: option.splits if_splits)

text \<open>The report of a child; \<open>dies\<close> if something kills it before it makes one.\<close>

definition child_report ::
    "start_env \<Rightarrow> flags \<Rightarrow> (start_error \<Rightarrow> string) \<Rightarrow> (string \<Rightarrow> bool) \<Rightarrow> bool \<Rightarrow> bg_command \<Rightarrow> string" where
  "child_report e fl error_text write_ok dies cmd =
     (let reports = fst (daemonChildReport (bc_Env cmd)) in
      if dies \<or> \<not> reports then []
      else case daemonRun e (fl\<lparr>fl_report := True\<rparr>) of
        None \<Rightarrow> []
      | Some (t, Inl err) \<Rightarrow> error_text err @ [LF]
      | Some (t, Inr Daemonized) \<Rightarrow> []
      | Some (t, Inr (Ready s)) \<Rightarrow>
          (case run_report write_ok (as_sup s) of None \<Rightarrow> ''ok'' @ [LF] | Some err \<Rightarrow> err @ [LF]))"

section \<open>The report is true\<close>

lemma child_env:
  "daemonChildReport (env @ [(daemonChildEnv, ''3'')]) = (True, unsetenv env daemonChildEnv)"
  by (simp add: daemonChildReport_def getenv_def unsetenv_def)

lemma unset_gone: "getenv (unsetenv env k) k = []"
proof -
  have "map_of (rev (unsetenv env k)) k = None"
    by (auto simp: unsetenv_def rev_filter map_of_eq_None_iff)
  then show ?thesis by (simp add: getenv_def)
qed

text \<open>Trimming a text that starts with a printable character keeps that character.\<close>

lemma trim_left_keeps_last:
  assumes "\<forall>w\<in>set ws. \<forall>x\<in>set w. \<not> visible x" and "visible c"
  shows "\<exists>t. trim_left_by ws (u @ [c]) = t @ [c]"
proof (induction u rule: measure_induct_rule [of length])
  case (less u)
  let ?n = "head_word ws (u @ [c])"
  have "?n = 0 \<or> (\<exists>w\<in>set ws. has_prefix (u @ [c]) w \<and> ?n = length w)"
    by (induction ws) auto
  moreover have "length w \<le> length u" if "w \<in> set ws" "has_prefix (u @ [c]) w" for w
    using that assms by (auto simp: has_prefix_prefix prefix_snoc dest: prefix_length_le)
  ultimately have n: "?n \<le> length u" by auto
  show ?case
  proof (cases "?n = 0")
    case True
    then show ?thesis by (simp add: trim_left_by.simps)
  next
    case False
    then have "length (drop ?n u) < length u" using n by simp
    from less.IH [OF this] n False show ?thesis by (subst trim_left_by.simps) (simp add: Let_def)
  qed
qed

lemma TrimSpace_head:
  assumes "visible c" shows "\<exists>r. TrimSpace (c # s) = c # r"
proof -
  have "\<forall>w\<in>set (map rev go_spaces). \<forall>x\<in>set w. \<not> visible x" by (simp add: go_spaces_def visible_def)
  from trim_left_keeps_last [OF this assms] obtain t where "trim_left_by (map rev go_spaces) (rev s @ [c]) = t @ [c]"
    by blast
  moreover have "trim_left_by go_spaces (c # s) = c # s"
    using trim_left_visible [OF spaces_not_visible(1)] assms by simp
  ultimately show ?thesis by (simp add: TrimSpace_def)
qed

lemma run_report_text: "run_report write_ok s = Some err \<Longrightarrow> TrimSpace (err @ [LF]) \<noteq> [] \<and> TrimSpace (err @ [LF]) \<noteq> ''ok''"
proof -
  assume "run_report write_ok s = Some err"
  then obtain rest where "err = CHR ''c'' # rest" by (auto simp: run_report_def split: if_splits)
  moreover have "visible (CHR ''c'')" by (simp add: visible_def)
  ultimately obtain r where "TrimSpace (err @ [LF]) = CHR ''c'' # r" using TrimSpace_head by fastforce
  then show ?thesis by simp
qed

text \<open>A child that reports does not go to the background again.\<close>

definition yields :: "('a \<Rightarrow> bool) \<Rightarrow> 'a start \<Rightarrow> bool" where
  "yields P m \<longleftrightarrow> (\<forall>x. snd m = Inr x \<longrightarrow> P x)"

lemma yields_then: "(\<And>x. yields P (f x)) \<Longrightarrow> yields P (then_do m f)"
  by (cases m; cases "snd m") (auto simp: yields_def)

lemma yields_if: "(b \<Longrightarrow> yields P m) \<Longrightarrow> (\<not> b \<Longrightarrow> yields P n) \<Longrightarrow> yields P (if b then m else n)"
  by simp

lemma child_stays:
  assumes "fl_report fl" and "daemonRun e fl = Some (t, r)"
  shows "r \<noteq> Inr Daemonized"
proof -
  have "yields (\<lambda>x. x \<noteq> Daemonized) (start_configured e fl cfg)" for cfg
    unfolding start_configured_def Let_def
    using assms(1) by (intro yields_if yields_then) (simp_all add: yields_def fail_def)
  then have "yields (\<lambda>x. x \<noteq> Daemonized) (t, r)"
    using assms(2)
    by (auto simp: daemonRun_def yields_def fail_def split: sum.splits option.splits prod.splits)
  then show ?thesis by (auto simp: yields_def)
qed

text \<open>
  C34 (functional).  \<open>kahi daemon -d\<close> tells the truth: once the child is spawned, the command succeeds, and names the
  child, exactly if the child got through its start, wrote its PID file and entered the main loop; if the
  start failed the command returns the child's error, and if the child died without a word it says so.  The
  processes of the daemon do not see the variable that marks it.
\<close>

theorem background_start_tells_the_truth:
  assumes "bo_exe os = Inr exe" and "bo_devnull os = None" and "bo_pipe os = None"
    and "cmd = \<lparr>bc_Args = exe # args, bc_Env = env @ [(daemonChildEnv, ''3'')], bc_Setsid = True\<rparr>" and "bo_start os cmd = Inr pid"
    and "daemonRun e (fl\<lparr>fl_report := True\<rparr>) = Some (t, r)"
    and "\<forall>err. TrimSpace (error_text err @ [LF]) \<noteq> [] \<and> TrimSpace (error_text err @ [LF]) \<noteq> ''ok''"
    and "daemonize os env args (child_report e fl error_text write_ok dies) = (out, res)"
  shows "(res = None \<longleftrightarrow> \<not> dies \<and> (\<exists>s. r = Inr (Ready s) \<and> run_report write_ok (as_sup s) = None)) \<and>
     (res = None \<longrightarrow> out = ''kahi daemon started (pid '' @ nat_digits pid @ '')'' @ [LF]) \<and>
     (\<forall>err. \<not> dies \<and> r = Inl err \<longrightarrow> res = Some (TrimSpace (error_text err @ [LF]))) \<and>
     (dies \<longrightarrow> res = Some ''daemon exited during startup'') \<and>
     getenv (snd (daemonChildReport (bc_Env cmd))) daemonChildEnv = []"
proof -
  have "r \<noteq> Inr Daemonized" by (rule child_stays [OF _ assms(6)]) simp
  moreover have ok: "TrimSpace (''ok'' @ [LF]) = ''ok''" "TrimSpace [] = []" by code_simp+
  moreover have "daemonize os env args report =
      (let msg = TrimSpace (report cmd) in
       if msg = ''ok'' then (''kahi daemon started (pid '' @ nat_digits pid @ '')'' @ [LF], None)
       else if msg = [] then ([], Some ''daemon exited during startup'') else ([], Some msg))" for report
    using assms(1-5) by (simp add: daemonize_def)
  moreover have "child_report e fl error_text write_ok dies cmd =
      (if dies then [] else case r of
         Inl err \<Rightarrow> error_text err @ [LF]
       | Inr Daemonized \<Rightarrow> []
       | Inr (Ready s) \<Rightarrow> (case run_report write_ok (as_sup s) of None \<Rightarrow> ''ok'' @ [LF] | Some err \<Rightarrow> err @ [LF]))"
    using assms(4,6) by (simp add: child_report_def child_env split: sum.split started.split)
  moreover have "getenv (snd (daemonChildReport (bc_Env cmd))) daemonChildEnv = []"
    by (simp add: assms(4) child_env unset_gone)
  ultimately show ?thesis
    using assms(7,8) run_report_text
    by (cases dies; cases r) (auto simp: Let_def split: started.splits option.splits if_splits)
qed

lemma child_runs_as_foreground:
  "fl_daemonize fl = False \<Longrightarrow> daemonRun e (fl\<lparr>fl_daemonize := True, fl_report := True\<rparr>) = daemonRun e fl"
proof -
  assume "fl_daemonize fl = False"
  then have "start_configured e (fl\<lparr>fl_daemonize := True, fl_report := True\<rparr>) = start_configured e fl"
    by (intro ext) (simp add: start_configured_def Let_def)
  then show ?thesis by (simp add: daemonRun_def split: sum.split option.split prod.split)
qed

definition willing_bg :: bg_os where
  "willing_bg = \<lparr>bo_exe = Inr ''/bin/kahi'', bo_devnull = None, bo_pipe = None, bo_start = (\<lambda>_. Inr 7)\<rparr>"

theorem background_start_tells_the_truth_witness:
  "fst (daemonize willing_bg [] [''daemon'', ''-d'']
      (child_report calm_system (run_flags\<lparr>fl_daemonize := True\<rparr>) (\<lambda>_. ''refused'') (\<lambda>_. True) False)) =
    ''kahi daemon started (pid 7)'' @ [LF]"
proof -
  let ?fl = "run_flags\<lparr>fl_daemonize := True\<rparr>"
  obtain t s where r: "daemonRun calm_system (?fl\<lparr>fl_report := True\<rparr>) = Some (t, Inr (Ready s))"
    using calm_run child_runs_as_foreground [of run_flags calm_system] by (auto simp: run_flags_def)
  have trimmed: "TrimSpace (''refused'' @ [LF]) = ''refused''" by code_simp
  obtain out res where d: "daemonize willing_bg [] [''daemon'', ''-d'']
      (child_report calm_system ?fl (\<lambda>_. ''refused'') (\<lambda>_. True) False) = (out, res)" by fastforce
  have w: "bo_exe willing_bg = Inr ''/bin/kahi''" "bo_devnull willing_bg = None" "bo_pipe willing_bg = None"
      "bo_start willing_bg cmd = Inr 7" for cmd by (simp_all add: willing_bg_def)
  have "res = None \<and> out = ''kahi daemon started (pid '' @ nat_digits 7 @ '')'' @ [LF]"
    using background_start_tells_the_truth [OF w(1-3) refl w(4) r _ d] trimmed by (simp add: run_report_def)
  moreover have "nat_digits 7 = ''7''" by code_simp
  ultimately show ?thesis using d by simp
qed

end
