(* ===== verification/Cli_Commands.thy ===== *)
theory Cli_Commands
  imports Api_Safety
begin

text \<open>
  The commands of \<open>cmd/kahi\<close> that run without a daemon: the dispatch of \<open>main.go\<close>, \<open>init_cmd.go\<close>, \<open>hashpassword.go\<close> and
  \<open>version.go\<close>.  The command library, bcrypt and the terminal are arguments.
\<close>

section \<open>Dispatch\<close>

text \<open>The exit status and the message; \<open>trampoline\<close> is the error of \<open>RunChildInit\<close>, which otherwise does not return.\<close>

datatype outcome = Becomes "child_effect list" | Exits nat string

definition kahi_main ::
    "(string list \<Rightarrow> child_effect list \<times> child_error option) \<Rightarrow> (child_error \<Rightarrow> string) \<Rightarrow> (string list \<Rightarrow> string option) \<Rightarrow> string list \<Rightarrow> outcome" where
  "kahi_main trampoline error_text execute argv =
     (if IsChildInit argv then
        (case trampoline argv of (effs, None) \<Rightarrow> Becomes effs | (effs, Some err) \<Rightarrow> Exits 127 (error_text err))
      else (case execute argv of None \<Rightarrow> Exits 0 [] | Some err \<Rightarrow> Exits 1 err))"

section \<open>init\<close>

record init_flags =
  if_Output :: string
  if_Stdout :: bool
  if_Force :: bool

text \<open>The file written, the output and the error.\<close>

definition initCommand ::
    "string \<Rightarrow> (string \<Rightarrow> bool) \<Rightarrow> (string \<Rightarrow> string option) \<Rightarrow> init_flags \<Rightarrow> (string \<times> string) option \<times> string \<times> string option" where
  "initCommand content stat_ok write_err fl =
     (if if_Stdout fl then (None, content, None)
      else
        let out = (if if_Output fl = [] then ''kahi.toml'' else if_Output fl) in
        if \<not> if_Force fl \<and> stat_ok out then (None, [], Some (''file '' @ out @ '' already exists; use --force to overwrite''))
        else (case write_err out of
                Some err \<Rightarrow> (None, [], Some (''cannot write config: '' @ err))
              | None \<Rightarrow> (Some (out, content), ''wrote '' @ out @ [LF], None)))"

lemma init_spares_existing_files:
  "initCommand content stat_ok write_err fl = (Some (f, c), out, err) \<Longrightarrow> \<not> if_Force fl \<Longrightarrow> \<not> stat_ok f \<and> c = content \<and> err = None"
  by (auto simp: initCommand_def Let_def split: if_splits option.splits)

section \<open>version\<close>

record build =
  bd_Version :: string
  bd_Commit :: string
  bd_Date :: string
  bd_GoVersion :: string
  bd_FIPS :: string

definition versionCommand :: "build \<Rightarrow> string \<Rightarrow> string \<Rightarrow> string \<Rightarrow> string" where
  "versionCommand b runtime_version goos goarch =
     concat (map (\<lambda>line. line @ [LF])
       [''kahi '' @ bd_Version b, ''  commit:  '' @ bd_Commit b, ''  built:   '' @ bd_Date b,
        ''  go:      '' @ (if bd_GoVersion b = [] then runtime_version else bd_GoVersion b),
        ''  os/arch: '' @ goos @ ''/'' @ goarch, ''  fips:    '' @ bd_FIPS b])"

section \<open>hash-password\<close>

datatype password_source = Piped string | Prompt "string + string"

text \<open>
  The first line a \<open>bufio.Scanner\<close> finds: without its line end, a carriage return before it included, and nothing
  if the input is empty or the line does not fit the buffer.
\<close>

definition scan_line :: "string \<Rightarrow> string option" where
  "scan_line s =
     (let line = takeWhile (\<lambda>c. c \<noteq> LF) s in
      if s = [] \<or> length line \<ge> 65536 then None
      else if line \<noteq> [] \<and> last line = CHR 0x0D then Some (butlast line) else Some line)"

definition readPassword :: "password_source \<Rightarrow> string + string" where
  "readPassword src =
     (case src of
        Piped s \<Rightarrow> (case scan_line s of None \<Rightarrow> Inl ''no input received'' | Some l \<Rightarrow> Inr (TrimSpace l))
      | Prompt (Inl err) \<Rightarrow> Inl (''failed to read password: '' @ err)
      | Prompt (Inr p) \<Rightarrow> Inr p)"

definition hashPassword :: "(string \<Rightarrow> string + string) \<Rightarrow> password_source \<Rightarrow> string + string" where
  "hashPassword generate src =
     (case readPassword src of
        Inl err \<Rightarrow> Inl err
      | Inr p \<Rightarrow>
          if p = [] then Inl ''password cannot be empty''
          else (case generate p of Inl err \<Rightarrow> Inl (''bcrypt error: '' @ err) | Inr h \<Rightarrow> Inr (h @ [LF])))"

text \<open>
  A printed hash that is put into the configuration passes the check of a configuration, and afterwards
  exactly the password that was read is accepted; the hypothesis is what bcrypt documents.
\<close>

lemma hashed_password_is_the_password:
  assumes "hashPassword generate src = Inr (h @ [LF])"
    and "\<And>p h q. generate p = Inr h \<Longrightarrow> has_prefix h ''$2'' \<and> (ae_bcrypt e h q \<longleftrightarrow> q = p)"
  shows "has_prefix h ''$2'' \<and> (\<exists>p. readPassword src = Inr p \<and> p \<noteq> [] \<and> (checkPassword e q h \<longleftrightarrow> q = p))"
proof -
  obtain p where p: "readPassword src = Inr p" "p \<noteq> []" "generate p = Inr h"
    using assms(1) by (auto simp: hashPassword_def split: sum.splits if_splits)
  have b: "has_prefix h ''$2''" "ae_bcrypt e h q \<longleftrightarrow> q = p" using assms(2) [OF p(3), of q] by simp_all
  then have "h \<noteq> []" by (auto simp: has_prefix_def)
  then show ?thesis using p b by (simp add: checkPassword_def)
qed

text \<open>Typed at the prompt, a password keeps its outer blanks; piped, it loses them.\<close>

lemma prompt_keeps_blanks:
  "readPassword (Prompt (Inr '' pw '')) = Inr '' pw ''" "readPassword (Piped ('' pw '' @ [LF])) = Inr ''pw''"
proof -
  have "TrimSpace '' pw '' = ''pw''" by code_simp
  then show "readPassword (Piped ('' pw '' @ [LF])) = Inr ''pw''" by (simp add: readPassword_def scan_line_def LF_def)
qed (simp add: readPassword_def)

section \<open>completion\<close>

text \<open>
  The arguments are one of the shells, or the command library refuses them (\<open>None\<close>); \<open>gen\<close> is its generator for a
  shell, with descriptions where the flag asks for them, and gives the script or an error.
\<close>

datatype shell = Bash | Zsh | Fish bool | PowerShellWithDesc

definition completion_args :: "string list" where
  "completion_args = [''bash'', ''zsh'', ''fish'', ''powershell'']"

definition completionCommand :: "(shell \<Rightarrow> string + string) \<Rightarrow> string list \<Rightarrow> (string + string) option" where
  "completionCommand gen args =
     (if length args \<noteq> 1 \<or> \<not> set args \<subseteq> set completion_args then None
      else Some (if hd args = ''bash'' then gen Bash
        else if hd args = ''zsh'' then gen Zsh
        else if hd args = ''fish'' then gen (Fish True)
        else if hd args = ''powershell'' then gen PowerShellWithDesc
        else Inr []))"

text \<open>Every accepted argument has its generator: the silent end of the command is never reached.\<close>

lemma completion_generates:
  "completionCommand gen args = Some r \<Longrightarrow> r \<in> gen ` {Bash, Zsh, Fish True, PowerShellWithDesc}"
  by (cases args) (auto simp: completionCommand_def completion_args_def split: if_splits)

section \<open>Syslog\<close>

text \<open>
  \<open>SyslogForwarder\<close> of \<open>internal/logging/syslog.go\<close>, which nothing uses.  A connection is an opaque value; \<open>info\<close> sends a message
  and gives the error of the library.
\<close>

record 'c SyslogForwarder =
  sf_writer :: 'c
  sf_tag :: string

definition NewSyslogForwarder :: "(string \<Rightarrow> string + 'c) \<Rightarrow> string \<Rightarrow> string + 'c SyslogForwarder" where
  "NewSyslogForwarder dial tag =
     (case dial tag of
        Inl err \<Rightarrow> Inl (''cannot connect to syslog: '' @ err)
      | Inr w \<Rightarrow> Inr \<lparr>sf_writer = w, sf_tag = tag\<rparr>)"

definition syslog_Write ::
  "(string \<Rightarrow> 'c \<Rightarrow> 'c \<times> string option) \<Rightarrow> string \<Rightarrow> 'c SyslogForwarder \<Rightarrow> 'c SyslogForwarder \<times> nat \<times> string option" where
  "syslog_Write info p sf =
     (case info p (sf_writer sf) of
        (w, Some err) \<Rightarrow> (sf\<lparr>sf_writer := w\<rparr>, 0, Some err)
      | (w, None) \<Rightarrow> (sf\<lparr>sf_writer := w\<rparr>, length p, None))"

definition syslog_Close :: "('c \<Rightarrow> string option) \<Rightarrow> 'c SyslogForwarder \<Rightarrow> string option" where
  "syslog_Close close sf = close (sf_writer sf)"

text \<open>The contract of a writer: fewer bytes than given only with an error.\<close>

lemma syslog_Write_contract:
  "syslog_Write info p sf = (sf', n, err) \<Longrightarrow> n \<le> length p \<and> (n < length p \<longrightarrow> err \<noteq> None)"
  by (auto simp: syslog_Write_def split: prod.splits option.splits)

end
