(* ===== verification/Json_Line.thy ===== *)
theory Json_Line
  imports Kahi_Prelude
begin

text \<open>
  \<open>FormatJSONLine\<close> of \<open>internal/logging/capture.go\<close>: the line of a process that goes to the daemon's own output.  The
  strings of \<open>encoding/json\<close> are written out byte for byte, with a decoder beside them; the time is an argument.
\<close>

section \<open>UTF-8\<close>

text \<open>The length of the valid multi-byte sequence at the head of a string, or 0.\<close>

definition cont :: "char \<Rightarrow> bool" where "cont = in_range 0x80 0xBF"

definition utf8_two :: "string \<Rightarrow> bool" where
  "utf8_two s \<longleftrightarrow> (case s of c1 # c2 # _ \<Rightarrow> in_range 0xC2 0xDF c1 \<and> cont c2 | _ \<Rightarrow> False)"

definition utf8_three :: "string \<Rightarrow> bool" where
  "utf8_three s \<longleftrightarrow> (case s of c1 # c2 # c3 # _ \<Rightarrow>
     in_range 0xE0 0xEF c1 \<and> cont c2 \<and> cont c3 \<and> (c1 = CHR 0xE0 \<longrightarrow> in_range 0xA0 0xBF c2) \<and> (c1 = CHR 0xED \<longrightarrow> in_range 0x80 0x9F c2)
   | _ \<Rightarrow> False)"

definition utf8_four :: "string \<Rightarrow> bool" where
  "utf8_four s \<longleftrightarrow> (case s of c1 # c2 # c3 # c4 # _ \<Rightarrow>
     in_range 0xF0 0xF4 c1 \<and> cont c2 \<and> cont c3 \<and> cont c4 \<and> (c1 = CHR 0xF0 \<longrightarrow> in_range 0x90 0xBF c2) \<and> (c1 = CHR 0xF4 \<longrightarrow> in_range 0x80 0x8F c2)
   | _ \<Rightarrow> False)"

definition utf8_len :: "string \<Rightarrow> nat" where
  "utf8_len s = (if utf8_two s then 2 else if utf8_three s then 3 else if utf8_four s then 4 else 0)"

definition is_ascii :: "char \<Rightarrow> bool" where "is_ascii c \<longleftrightarrow> (of_char c :: nat) < 128"

lemma not_ascii [simp]: "cont c \<Longrightarrow> \<not> is_ascii c" "in_range lo hi c \<Longrightarrow> 128 \<le> lo \<Longrightarrow> \<not> is_ascii c"
  by (simp_all add: cont_def in_range_def is_ascii_def)

lemma utf8_len_take:
  "0 < utf8_len s \<Longrightarrow> utf8_len s \<le> length s \<and> list_all (\<lambda>c. \<not> is_ascii c) (take (utf8_len s) s)"
proof -
  have two: "2 \<le> length s \<and> list_all (\<lambda>c. \<not> is_ascii c) (take 2 s)" if "utf8_two s"
    using that by (cases s; cases "tl s") (auto simp: utf8_two_def)
  have three: "3 \<le> length s \<and> list_all (\<lambda>c. \<not> is_ascii c) (take 3 s)" if "utf8_three s"
    using that by (cases s; cases "tl s"; cases "tl (tl s)") (auto simp: utf8_three_def)
  have four: "4 \<le> length s \<and> list_all (\<lambda>c. \<not> is_ascii c) (take 4 s)" if "utf8_four s"
    using that by (cases s; cases "tl s"; cases "tl (tl s)"; cases "tl (tl (tl s))") (auto simp: utf8_four_def)
  assume "0 < utf8_len s"
  then show ?thesis using two three four by (auto simp: utf8_len_def split: if_splits)
qed

section \<open>Strings\<close>

definition json_byte :: "char \<Rightarrow> string" where
  "json_byte c =
     (let n = of_char c :: nat in
      if c = CHR 0x22 then [CHR 0x5C, CHR 0x22]
      else if c = CHR 0x5C then [CHR 0x5C, CHR 0x5C]
      else if c = CHR 0x08 then [CHR 0x5C, CHR ''b'']
      else if c = CHR 0x0C then [CHR 0x5C, CHR ''f'']
      else if c = CHR 0x0A then [CHR 0x5C, CHR ''n'']
      else if c = CHR 0x0D then [CHR 0x5C, CHR ''r'']
      else if c = CHR 0x09 then [CHR 0x5C, CHR ''t'']
      else if n < 32 \<or> c = CHR ''<'' \<or> c = CHR ''>'' \<or> c = CHR ''&''
        then [CHR 0x5C, CHR ''u'', CHR ''0'', CHR ''0'', hex_char (n div 16), hex_char (n mod 16)]
      else [c])"

definition line_separator :: string where "line_separator = [CHR 0xE2, CHR 0x80, CHR 0xA8]"
definition paragraph_separator :: string where "paragraph_separator = [CHR 0xE2, CHR 0x80, CHR 0xA9]"
definition replacement :: string where "replacement = [CHR 0xEF, CHR 0xBF, CHR 0xBD]"

function json_escape :: "string \<Rightarrow> string" where
  "json_escape [] = []"
| "json_escape (c # cs) =
     (if is_ascii c then json_byte c @ json_escape cs
      else let n = utf8_len (c # cs) in
        if n = 0 then CHR 0x5C # ''ufffd'' @ json_escape cs
        else (let u = take n (c # cs) in
              if u = line_separator then CHR 0x5C # ''u2028'' @ json_escape (drop n (c # cs))
              else if u = paragraph_separator then CHR 0x5C # ''u2029'' @ json_escape (drop n (c # cs))
              else u @ json_escape (drop n (c # cs))))"
  by pat_completeness auto
termination
  by (relation "measure length") auto

definition FormatJSONLine :: "string \<Rightarrow> string \<Rightarrow> string \<Rightarrow> string \<Rightarrow> string" where
  "FormatJSONLine now process_name stream line =
     (let q = [CHR 0x22]; key = (\<lambda>k. q @ k @ q @ '':'' @ q) in
      ''{'' @ key ''time'' @ json_escape now @ q @ '','' @ key ''process'' @ json_escape process_name @ q @ '','' @
      key ''stream'' @ json_escape stream @ q @ '','' @ key ''log'' @ json_escape line @ q @ ''}'' @ [CHR 0x0A])"

section \<open>A decoder\<close>

definition hex_val :: "char \<Rightarrow> nat option" where
  "hex_val c =
     (if is_digit c then Some (of_char c - 48)
      else if in_range 97 102 c then Some (of_char c - 87)
      else if in_range 65 70 c then Some (of_char c - 55)
      else None)"

text \<open>A code point of 16 bits; a lone surrogate becomes the replacement character.\<close>

definition utf8_encode :: "nat \<Rightarrow> string" where
  "utf8_encode n =
     (if n < 0x80 then [char_of n]
      else if n < 0x800 then [char_of (0xC0 + n div 64), char_of (0x80 + n mod 64)]
      else if 0xD800 \<le> n \<and> n \<le> 0xDFFF then replacement
      else [char_of (0xE0 + n div 4096), char_of (0x80 + n div 64 mod 64), char_of (0x80 + n mod 64)])"

definition short_escapes :: "(char \<times> char) list" where
  "short_escapes = [(CHR 0x22, CHR 0x22), (CHR 0x5C, CHR 0x5C), (CHR ''/'', CHR ''/''), (CHR ''b'', CHR 0x08), (CHR ''f'', CHR 0x0C),
     (CHR ''n'', CHR 0x0A), (CHR ''r'', CHR 0x0D), (CHR ''t'', CHR 0x09)]"

text \<open>The decoder reads a string up to its closing quote and returns the rest.\<close>

fun json_unquote :: "string \<Rightarrow> (string \<times> string) option" where
  "json_unquote [] = None"
| "json_unquote (c # cs) =
     (if c = CHR 0x22 then Some ([], cs)
      else if c = CHR 0x5C then
        (case cs of
           [] \<Rightarrow> None
         | e # es \<Rightarrow>
             if e = CHR ''u'' then
               (case es of
                  h1 # h2 # h3 # h4 # r \<Rightarrow>
                    (case (hex_val h1, hex_val h2, hex_val h3, hex_val h4) of
                       (Some d1, Some d2, Some d3, Some d4) \<Rightarrow>
                         map_option (\<lambda>(s, t). (utf8_encode (4096 * d1 + 256 * d2 + 16 * d3 + d4) @ s, t)) (json_unquote r)
                     | _ \<Rightarrow> None)
                | _ \<Rightarrow> None)
             else (case map_of short_escapes e of
                     None \<Rightarrow> None
                   | Some x \<Rightarrow> map_option (\<lambda>(s, t). (x # s, t)) (json_unquote es)))
      else if (of_char c :: nat) < 32 then None
      else map_option (\<lambda>(s, t). (c # s, t)) (json_unquote cs))"

text \<open>What the encoder keeps of a string: bytes that are no UTF-8 become the replacement character.\<close>

function utf8_clean :: "string \<Rightarrow> string" where
  "utf8_clean [] = []"
| "utf8_clean (c # cs) =
     (if is_ascii c then c # utf8_clean cs
      else let n = utf8_len (c # cs) in
        if n = 0 then replacement @ utf8_clean cs else take n (c # cs) @ utf8_clean (drop n (c # cs)))"
  by pat_completeness auto
termination
  by (relation "measure length") auto

declare json_escape.simps(2) [simp del] utf8_clean.simps(2) [simp del]

text \<open>The line as a reader of the daemon's output takes it apart: the four values in their order.\<close>

definition parse_field :: "string \<Rightarrow> string \<Rightarrow> (string \<times> string) option" where
  "parse_field k s = (if has_prefix s k then json_unquote (drop (length k) s) else None)"

definition json_key :: "string \<Rightarrow> string" where "json_key k = CHR 0x22 # k @ [CHR 0x22, CHR '':'', CHR 0x22]"

definition parse_line :: "string \<Rightarrow> (string \<times> string \<times> string \<times> string) option" where
  "parse_line s =
     (case parse_field (''{'' @ json_key ''time'') s of
        None \<Rightarrow> None
      | Some (now, s1) \<Rightarrow>
          (case parse_field ('','' @ json_key ''process'') s1 of
             None \<Rightarrow> None
           | Some (name, s2) \<Rightarrow>
               (case parse_field ('','' @ json_key ''stream'') s2 of
                  None \<Rightarrow> None
                | Some (stream, s3) \<Rightarrow>
                    (case parse_field ('','' @ json_key ''log'') s3 of
                       Some (line, s4) \<Rightarrow> if s4 = ''}'' @ [CHR 0x0A] then Some (now, name, stream, line) else None
                     | None \<Rightarrow> None))))"

section \<open>What a process can print\<close>

lemma hex_val_char: "d < 16 \<Longrightarrow> hex_val (hex_char d) = Some d"
  by (simp add: hex_val_def hex_char_def is_digit_def in_range_def)

lemma unquote_byte:
  assumes "is_ascii c"
  shows "json_unquote (json_byte c @ t) = map_option (\<lambda>(s, r). (c # s, r)) (json_unquote t)"
proof -
  let ?n = "of_char c :: nat"
  have n: "?n < 128" using assms by (simp add: is_ascii_def)
  have hex: "json_unquote ([CHR 0x5C, CHR ''u'', CHR ''0'', CHR ''0'', hex_char (?n div 16), hex_char (?n mod 16)] @ t) =
      map_option (\<lambda>(s, r). (c # s, r)) (json_unquote t)"
  proof -
    have "16 * (?n div 16) + ?n mod 16 = ?n" by simp
    moreover have "hex_val (CHR ''0'') = Some 0" by (simp add: hex_val_def is_digit_def in_range_def)
    ultimately show ?thesis using n by (simp add: hex_val_char utf8_encode_def)
  qed
  show ?thesis
  proof (cases "?n < 32 \<or> c = CHR ''<'' \<or> c = CHR ''>'' \<or> c = CHR ''&''")
    case True
    then show ?thesis using hex by (simp add: json_byte_def Let_def short_escapes_def)
  next
    case False
    then show ?thesis by (auto simp: json_byte_def Let_def short_escapes_def)
  qed
qed

lemma unquote_high:
  "list_all (\<lambda>c. \<not> is_ascii c) u \<Longrightarrow> json_unquote (u @ t) = map_option (\<lambda>(s, r). (u @ s, r)) (json_unquote t)"
proof (induction u)
  case Nil
  then show ?case by (simp add: map_option_case split: option.split)
next
  case (Cons c u)
  have "c \<noteq> CHR 0x22" "c \<noteq> CHR 0x5C" "\<not> (of_char c :: nat) < 32" using Cons.prems by (auto simp: is_ascii_def)
  then show ?case using Cons by (cases "json_unquote t") auto
qed

lemma unquote_code_point:
  "hex_val h1 = Some d1 \<Longrightarrow> hex_val h2 = Some d2 \<Longrightarrow> hex_val h3 = Some d3 \<Longrightarrow> hex_val h4 = Some d4 \<Longrightarrow>
   json_unquote (CHR 0x5C # CHR ''u'' # h1 # h2 # h3 # h4 # t) =
     map_option (\<lambda>(s, r). (utf8_encode (4096 * d1 + 256 * d2 + 16 * d3 + d4) @ s, r)) (json_unquote t)"
  by simp

lemma unquote_separators:
  "json_unquote (CHR 0x5C # ''u2028'' @ t) = map_option (\<lambda>(s, r). (line_separator @ s, r)) (json_unquote t)"
  "json_unquote (CHR 0x5C # ''u2029'' @ t) = map_option (\<lambda>(s, r). (paragraph_separator @ s, r)) (json_unquote t)"
  "json_unquote (CHR 0x5C # ''ufffd'' @ t) = map_option (\<lambda>(s, r). (replacement @ s, r)) (json_unquote t)"
proof -
  have h: "hex_val (CHR ''0'') = Some 0" "hex_val (CHR ''2'') = Some 2" "hex_val (CHR ''8'') = Some 8" "hex_val (CHR ''9'') = Some 9"
    "hex_val (CHR ''d'') = Some 13" "hex_val (CHR ''f'') = Some 15"
    by (simp_all add: hex_val_def is_digit_def in_range_def)
  have e: "utf8_encode (4096 * 2 + 256 * 0 + 16 * 2 + 8) = line_separator" "utf8_encode (4096 * 2 + 256 * 0 + 16 * 2 + 9) = paragraph_separator"
    "utf8_encode (4096 * 15 + 256 * 15 + 16 * 15 + 13) = replacement"
    by (simp_all add: utf8_encode_def line_separator_def paragraph_separator_def replacement_def) (code_simp)+
  show "json_unquote (CHR 0x5C # ''u2028'' @ t) = map_option (\<lambda>(s, r). (line_separator @ s, r)) (json_unquote t)"
    using unquote_code_point [OF h(2) h(1) h(2) h(3), of t] unfolding e by simp
  show "json_unquote (CHR 0x5C # ''u2029'' @ t) = map_option (\<lambda>(s, r). (paragraph_separator @ s, r)) (json_unquote t)"
    using unquote_code_point [OF h(2) h(1) h(2) h(4), of t] unfolding e by simp
  show "json_unquote (CHR 0x5C # ''ufffd'' @ t) = map_option (\<lambda>(s, r). (replacement @ s, r)) (json_unquote t)"
    using unquote_code_point [OF h(6) h(6) h(6) h(5), of t] unfolding e by simp
qed

lemma json_escape_roundtrip: "json_unquote (json_escape s @ CHR 0x22 # t) = Some (utf8_clean s, t)"
proof (induction s rule: json_escape.induct)
  case (2 c cs)
  show ?case
  proof (cases "is_ascii c")
    case True
    then have "json_escape (c # cs) = json_byte c @ json_escape cs" "utf8_clean (c # cs) = c # utf8_clean cs"
      by (simp_all add: json_escape.simps(2) utf8_clean.simps(2))
    then show ?thesis using 2(1) True unquote_byte [OF True, of "json_escape cs @ CHR 0x22 # t"] by simp
  next
    case False
    let ?n = "utf8_len (c # cs)"
    let ?u = "take ?n (c # cs)" and ?r = "drop ?n (c # cs)"
    show ?thesis
    proof (cases "?n = 0")
      case True
      then have e: "json_escape (c # cs) = (CHR 0x5C # ''ufffd'') @ json_escape cs" "utf8_clean (c # cs) = replacement @ utf8_clean cs"
        using False by (simp_all add: Let_def json_escape.simps(2) utf8_clean.simps(2))
      have ih: "json_unquote (json_escape cs @ CHR 0x22 # t) = Some (utf8_clean cs, t)"
        using 2(2) False True by simp
      have "json_unquote (json_escape (c # cs) @ CHR 0x22 # t) =
          map_option (\<lambda>(s, r). (replacement @ s, r)) (json_unquote (json_escape cs @ CHR 0x22 # t))"
        unfolding e(1) append_assoc append_Cons by (rule unquote_separators(3) [unfolded append_Cons])
      then show ?thesis unfolding ih e(2) by simp
    next
      case False': False
      then have u: "list_all (\<lambda>c. \<not> is_ascii c) ?u" using utf8_len_take [of "c # cs"] by simp
      have ih: "json_unquote (json_escape ?r @ CHR 0x22 # t) = Some (utf8_clean ?r, t)"
        using 2(3) [OF False refl False' refl] 2(4) [OF False refl False' refl] 2(5) [OF False refl False' refl] by blast
      have e: "json_escape (c # cs) = (if ?u = line_separator then CHR 0x5C # ''u2028'' @ json_escape ?r
          else if ?u = paragraph_separator then CHR 0x5C # ''u2029'' @ json_escape ?r else ?u @ json_escape ?r)"
        using False False' by (subst json_escape.simps) (simp only: Let_def if_False)
      have c: "utf8_clean (c # cs) = ?u @ utf8_clean ?r"
        using False False' by (subst utf8_clean.simps) (simp only: Let_def if_False)
      have "json_unquote (json_escape (c # cs) @ CHR 0x22 # t) = map_option (\<lambda>(s, r). (?u @ s, r)) (json_unquote (json_escape ?r @ CHR 0x22 # t))"
      proof -
        consider "?u = line_separator" | "?u = paragraph_separator" "?u \<noteq> line_separator" | "?u \<noteq> line_separator" "?u \<noteq> paragraph_separator"
          by blast
        then show ?thesis
        proof cases
          case 1
          then show ?thesis unfolding e append_assoc append_Cons
            using unquote_separators(1) [unfolded append_Cons, of "json_escape ?r @ CHR 0x22 # t"] by (simp only: simp_thms if_True append_Cons append_Nil)
        next
          case 2
          then show ?thesis unfolding e append_assoc append_Cons
            using unquote_separators(2) [unfolded append_Cons, of "json_escape ?r @ CHR 0x22 # t"] by (simp only: simp_thms if_True if_False append_Cons append_Nil)
        next
          case 3
          then show ?thesis unfolding e using unquote_high [OF u, of "json_escape ?r @ CHR 0x22 # t"]
            by (simp only: if_False append_assoc)
        qed
      qed
      then show ?thesis unfolding ih c by simp
    qed
  qed
qed simp

lemma list_all_if: "(b \<Longrightarrow> list_all P x) \<Longrightarrow> (\<not> b \<Longrightarrow> list_all P y) \<Longrightarrow> list_all P (if b then x else y)"
  by simp

lemma json_byte_visible: "list_all (\<lambda>x. 32 \<le> (of_char x :: nat)) (json_byte c)"
proof -
  have hex: "32 \<le> (of_char (hex_char d) :: nat)" if "d < 16" for d using that by (simp add: hex_char_def)
  have n: "(of_char c :: nat) < 256" by simp
  have "32 \<le> (of_char (hex_char (of_char c div 16)) :: nat)" "32 \<le> (of_char (hex_char (of_char c mod 16)) :: nat)"
    using n by (intro hex; linarith)+
  then show ?thesis unfolding json_byte_def Let_def by (intro list_all_if) simp_all
qed

lemma json_escape_visible: "x \<in> set (json_escape s) \<Longrightarrow> 32 \<le> (of_char x :: nat)"
proof (induction s rule: json_escape.induct)
  case (2 c cs)
  have "32 \<le> (of_char x :: nat)" if "x \<in> set (take (utf8_len (c # cs)) (c # cs))"
    using that utf8_len_take [of "c # cs"] by (cases "utf8_len (c # cs) = 0") (auto simp: list_all_iff is_ascii_def)
  then show ?case using 2 json_byte_visible [of c] by (auto simp: list_all_iff Let_def json_escape.simps(2) [of c cs] split: if_splits)
qed simp

lemma utf8_clean_ascii: "list_all is_ascii s \<Longrightarrow> utf8_clean s = s"
  by (induction s) (simp_all add: utf8_clean.simps(2))

lemma parse_field_written:
  "parse_field k (k @ json_escape s @ CHR 0x22 # t) = Some (utf8_clean s, t)"
  by (simp add: parse_field_def json_escape_roundtrip)

lemma line_form:
  "FormatJSONLine now name stream line =
     (''{'' @ json_key ''time'') @ json_escape now @ CHR 0x22 #
     (('','' @ json_key ''process'') @ json_escape name @ CHR 0x22 #
     (('','' @ json_key ''stream'') @ json_escape stream @ CHR 0x22 #
     (('','' @ json_key ''log'') @ json_escape line @ CHR 0x22 # (''}'' @ [CHR 0x0A]))))"
  by (simp add: FormatJSONLine_def Let_def json_key_def)

text \<open>
  C27 (roundtrip).  A process cannot forge the daemon's own output: whatever bytes it prints, its name contains or the
  clock shows, a forwarded line is one line, ended by its only newline, and a JSON decoder reads exactly
  the time, the name, the stream and the output back from it, up to bytes that are no UTF-8, which become
  the replacement character.
\<close>

theorem json_line_roundtrip:
  "let s = FormatJSONLine now name stream line in
     last s = CHR 0x0A \<and> CHR 0x0A \<notin> set (butlast s) \<and>
     parse_line s = Some (utf8_clean now, utf8_clean name, utf8_clean stream, utf8_clean line)"
proof -
  let ?s = "FormatJSONLine now name stream line"
  have no_lf: "CHR 0x0A \<notin> set (json_escape x)" for x
    using json_escape_visible [of "CHR 0x0A" x] by auto
  have body: "?s = ((''{'' @ json_key ''time'') @ json_escape now @ CHR 0x22 # ('','' @ json_key ''process'') @ json_escape name @
      CHR 0x22 # ('','' @ json_key ''stream'') @ json_escape stream @ CHR 0x22 # ('','' @ json_key ''log'') @ json_escape line @
      CHR 0x22 # ''}'') @ [CHR 0x0A]" (is "_ = ?b @ _")
    unfolding line_form by simp
  have "CHR 0x0A \<notin> set ?b" using no_lf by (simp add: json_key_def)
  then have "last ?s = CHR 0x0A \<and> CHR 0x0A \<notin> set (butlast ?s)" unfolding body by (simp only: last_snoc butlast_snoc simp_thms)
  moreover have "parse_line ?s = Some (utf8_clean now, utf8_clean name, utf8_clean stream, utf8_clean line)"
    unfolding line_form parse_line_def parse_field_written option.case prod.case by simp
  ultimately show ?thesis unfolding Let_def by blast
qed

end
