(* ===== verification/Test_Comment.thy ===== *)
theory Test_Comment
  imports Kahi_Prelude
begin

text \<open>
  \<open>.github/scripts/build-test-comment.go\<close>: the report that continuous integration posts under a change.  The XML
  decoder, the addition and the printing of floating-point numbers, and the file operations are arguments; a
  \<open>float64\<close> is its bit pattern, text is UTF-8 bytes, and the builder is the text written so far.
\<close>

section \<open>Data\<close>

type_synonym float64 = "64 word"

definition float_zero :: "float64 \<Rightarrow> bool" where
  "float_zero f \<longleftrightarrow> f = 0 \<or> f = push_bit 63 1"

record problem =
  pb_Message :: string
  pb_Body :: string

record skip =
  sk_Message :: string

record testcase =
  tc_Name :: string
  tc_Classname :: string
  tc_Time :: float64
  tc_Failure :: "problem option"
  tc_Error :: "problem option"
  tc_Skipped :: "skip option"

record testsuite =
  ts_Name :: string
  ts_Tests :: int
  ts_Failures :: int
  ts_Errors :: int
  ts_Skipped :: int
  ts_Time :: float64
  ts_Cases :: "testcase list"

record testsuites =
  tss_Time :: float64
  tss_Suites :: "testsuite list"

text \<open>What the program uses of the system and of the standard library.\<close>

record ci_env =
  ci_read :: "string \<Rightarrow> string option"
  ci_multi :: "string \<Rightarrow> testsuites option"
  ci_single :: "string \<Rightarrow> string + testsuite"
  ci_add :: "float64 \<Rightarrow> float64 \<Rightarrow> float64"
  ci_fmt :: "nat \<Rightarrow> float64 \<Rightarrow> string"
  ci_write :: "string \<Rightarrow> string \<Rightarrow> string option"

definition tick :: char where "tick = CHR 0x60"
definition lf :: char where "lf = CHR 0x0A"
definition dash :: string where "dash = [CHR 0xE2, CHR 0x80, CHR 0x94]"
definition check_mark :: string where "check_mark = [CHR 0xE2, CHR 0x9C, CHR 0x85]"
definition cross :: string where "cross = [CHR 0xE2, CHR 0x9D, CHR 0x8C]"
definition warn_sign :: string where "warn_sign = [CHR 0xE2, CHR 0x9A, CHR 0xA0, CHR 0xEF, CHR 0xB8, CHR 0x8F]"

definition modulePrefix :: string where "modulePrefix = ''github.com/kahiteam/kahi/''"

definition maxCommentBytes :: int where "maxCommentBytes = 65536"

section \<open>Test cases\<close>

definition failedCases :: "testcase list \<Rightarrow> testcase list" where
  "failedCases cases = filter (\<lambda>tc. tc_Failure tc \<noteq> None \<or> tc_Error tc \<noteq> None) cases"

definition skippedCases :: "testcase list \<Rightarrow> testcase list" where
  "skippedCases cases = filter (\<lambda>tc. tc_Skipped tc \<noteq> None \<and> tc_Failure tc = None \<and> tc_Error tc = None) cases"

definition passedCases :: "testcase list \<Rightarrow> testcase list" where
  "passedCases cases = filter (\<lambda>tc. tc_Failure tc = None \<and> tc_Error tc = None \<and> tc_Skipped tc = None) cases"

definition case_name :: "testcase \<Rightarrow> string" where
  "case_name tc =
     (let class = trim_prefix (tc_Classname tc) modulePrefix in
      if class = [] then tc_Name tc else class @ ''.'' @ tc_Name tc)"

text \<open>The loop of \<open>cell\<close> over the runes; a multi-byte rune resets the run as its bytes do.\<close>

fun longest_run :: "nat \<Rightarrow> nat \<Rightarrow> string \<Rightarrow> nat" where
  "longest_run longest run [] = longest"
| "longest_run longest run (c # cs) =
     (if c = tick then longest_run (if longest < run + 1 then run + 1 else longest) (run + 1) cs
      else longest_run longest 0 cs)"

definition cell_text :: "string \<Rightarrow> string" where
  "cell_text s =
     (let s = replace_all [CHR 0x0D, lf] '' '' s;
          s = replace_all [lf] '' '' s;
          s = replace_all [CHR 0x0D] '' '' s in
      replace_all ''|'' [CHR 0x5C, CHR ''|''] s)"

definition cell :: "string \<Rightarrow> string" where
  "cell s0 =
     (let s = cell_text s0; longest = longest_run 0 0 s in
      if longest = 0 then [tick] @ s @ [tick]
      else let fence = replicate (longest + 1) tick in fence @ '' '' @ s @ '' '' @ fence)"

definition fullRow :: "ci_env \<Rightarrow> testcase \<Rightarrow> string \<Rightarrow> string" where
  "fullRow e tc result =
     ''| '' @ cell (case_name tc) @ '' | '' @ result @ '' | '' @ ci_fmt e 3 (tc_Time tc) @ ''s |'' @ [lf]"

definition omissionNote :: "nat \<Rightarrow> string" where
  "omissionNote n =
     [lf] @ ''> '' @ warn_sign @ '' '' @ itoa (int n) @ '' passed rows omitted '' @ dash @ '' see run log for the full list.'' @ [lf]"

section \<open>The full table\<close>

definition passed_row :: "ci_env \<Rightarrow> testcase \<Rightarrow> string" where
  "passed_row e tc = fullRow e tc (check_mark @ '' Passed'')"

definition failed_row :: "ci_env \<Rightarrow> testcase \<Rightarrow> string" where
  "failed_row e tc = fullRow e tc (cross @ '' Failed'')"

definition skipped_row :: "ci_env \<Rightarrow> testcase \<Rightarrow> string" where
  "skipped_row e tc = fullRow e tc (warn_sign @ '' Skipped'')"

fun countRows_from :: "ci_env \<Rightarrow> nat \<Rightarrow> nat \<Rightarrow> nat \<Rightarrow> testcase list \<Rightarrow> nat" where
  "countRows_from e writtenBytes used n [] = n"
| "countRows_from e writtenBytes used n (tc # tcs) =
     (let row = passed_row e tc in
      if used + length row > writtenBytes then n
      else countRows_from e writtenBytes (used + length row) (n + 1) tcs)"

definition countRows :: "ci_env \<Rightarrow> testcase list \<Rightarrow> nat \<Rightarrow> nat" where
  "countRows e passed writtenBytes = countRows_from e writtenBytes 0 0 passed"

fun passed_rows :: "ci_env \<Rightarrow> int \<Rightarrow> int \<Rightarrow> string \<Rightarrow> nat \<Rightarrow> testcase list \<Rightarrow> string \<times> nat" where
  "passed_rows e remaining noteReserve b included [] = (b, included)"
| "passed_rows e remaining noteReserve b included (tc # tcs) =
     (let row = passed_row e tc in
      if int included + int (length row) + noteReserve > remaining then (b, included)
      else passed_rows e remaining noteReserve (b @ row) (included + length row) tcs)"

definition table_head :: string where
  "table_head = ''| Test | Result | Duration |'' @ [lf] @ ''| --- | --- | --- |'' @ [lf]"

definition writeFullTable :: "ci_env \<Rightarrow> string \<Rightarrow> testcase list \<Rightarrow> int \<Rightarrow> string" where
  "writeFullTable e b cases budget =
     (let failed = failedCases cases; skips = skippedCases cases; passed = passedCases cases;
          b = b @ table_head;
          b = b @ concat (map (failed_row e) failed);
          b = b @ concat (map (skipped_row e) skips);
          noteReserve = int (length (omissionNote (length passed)));
          remaining = budget - int (length b);
          (b, included) = passed_rows e remaining noteReserve b 0 passed;
          omitted = length passed - countRows e passed included in
      if omitted > 0 then b @ omissionNote omitted else b)"

section \<open>The compact report\<close>

text \<open>\<open>truncate\<close>, whose only caller passes 30: more than 30 lines have 15 at either end.\<close>

definition truncate_body :: "string \<Rightarrow> nat \<Rightarrow> string" where
  "truncate_body body limit =
     (let lines = split_on lf body in
      if length lines \<le> limit then body
      else join [lf] (take 15 lines @ [''... [truncated] ...''] @ drop (length lines - 15) lines))"

definition writeFailure :: "string \<Rightarrow> testcase \<Rightarrow> string" where
  "writeFailure b tc =
     (let p = (case tc_Failure tc of None \<Rightarrow> tc_Error tc | Some f \<Rightarrow> Some f);
          b = b @ ''**'' @ [tick] @ case_name tc @ [tick] @ ''**'' @ [lf, lf] in
      case p of
        None \<Rightarrow> b
      | Some p \<Rightarrow>
          let b = (if TrimSpace (pb_Message p) \<noteq> [] then b @ ''_'' @ TrimSpace (pb_Message p) @ ''_'' @ [lf, lf] else b);
              body = TrimSpace (pb_Body p) in
          if body \<noteq> [] then b @ [tick, tick, tick, lf] @ truncate_body body 30 @ [lf, tick, tick, tick, lf, lf] else b)"

definition skip_reason :: "testcase \<Rightarrow> string" where
  "skip_reason tc =
     (case tc_Skipped tc of
        None \<Rightarrow> ''(no reason given)''
      | Some s \<Rightarrow> if sk_Message s \<noteq> [] then sk_Message s else ''(no reason given)'')"

definition skip_item :: "testcase \<Rightarrow> string" where
  "skip_item tc = ''- '' @ [tick] @ case_name tc @ [tick] @ '' '' @ dash @ '' '' @ skip_reason tc @ [lf]"

definition writeCompactBody :: "string \<Rightarrow> testcase list \<Rightarrow> int \<Rightarrow> string" where
  "writeCompactBody b cases tests =
     (let failed = failedCases cases; skips = skippedCases cases;
          b = (if failed \<noteq> [] then foldl writeFailure (b @ ''#### '' @ cross @ '' Failures'' @ [lf, lf]) failed else b);
          b = (if skips \<noteq> [] then b @ ''#### '' @ warn_sign @ '' Skipped'' @ [lf, lf] @ concat (map skip_item skips) @ [lf] else b) in
      if failed = [] \<and> skips = [] then b @ ''All '' @ itoa tests @ '' tests passed.'' @ [lf, lf] else b)"

section \<open>The report\<close>

definition noResults :: "string \<Rightarrow> string \<Rightarrow> string" where
  "noResults title detail =
     ''### '' @ title @ '' '' @ dash @ '' '' @ warn_sign @ '' no results'' @ [lf, lf] @ detail @ [lf]"

text \<open>\<open>parse\<close>: a root with suites, or a single suite.\<close>

definition parse_report :: "ci_env \<Rightarrow> string \<Rightarrow> string + testsuite list \<times> float64" where
  "parse_report e data =
     (let single = (case ci_single e data of Inl err \<Rightarrow> Inl err | Inr s \<Rightarrow> Inr ([s], ts_Time s)) in
      case ci_multi e data of
        None \<Rightarrow> single
      | Some m \<Rightarrow> if tss_Suites m \<noteq> [] then Inr (tss_Suites m, tss_Time m) else single)"

record totals =
  to_tests :: int
  to_failures :: int
  to_errors :: int
  to_skipped :: int
  to_summed :: float64
  to_cases :: "testcase list"

definition add_suite :: "ci_env \<Rightarrow> totals \<Rightarrow> testsuite \<Rightarrow> totals" where
  "add_suite e t s =
     \<lparr>to_tests = i64 (to_tests t + ts_Tests s), to_failures = i64 (to_failures t + ts_Failures s),
      to_errors = i64 (to_errors t + ts_Errors s), to_skipped = i64 (to_skipped t + ts_Skipped s),
      to_summed = ci_add e (to_summed t) (ts_Time s), to_cases = to_cases t @ ts_Cases s\<rparr>"

definition totals0 :: totals where
  "totals0 = \<lparr>to_tests = 0, to_failures = 0, to_errors = 0, to_skipped = 0, to_summed = 0, to_cases = []\<rparr>"

text \<open>The summary table and the opening of the details, up to the test cases.\<close>

definition green :: "totals \<Rightarrow> bool" where
  "green t \<longleftrightarrow> i64 (to_failures t + to_errors t) = 0"

definition report_head :: "ci_env \<Rightarrow> string \<Rightarrow> string \<Rightarrow> totals \<Rightarrow> float64 \<Rightarrow> string" where
  "report_head e title label t rootTime =
     (let elapsed = (if float_zero rootTime then to_summed t else rootTime);
          passed = i64 (to_tests t - to_failures t - to_errors t - to_skipped t);
          status = (if green t then check_mark @ '' pass'' else cross @ '' fail'') in
      ''### '' @ title @ '' '' @ dash @ '' '' @ status @ [lf, lf] @
      ''| Suite | Tests | Passed | Skipped | Failed |'' @ [lf] @
      ''| --- | --- | --- | --- | --- |'' @ [lf] @
      ''| '' @ label @ '' | '' @ itoa (to_tests t) @ '' ran | '' @ itoa passed @ '' '' @ check_mark @ '' | '' @
      itoa (to_skipped t) @ '' '' @ warn_sign @ '' | '' @ itoa (i64 (to_failures t + to_errors t)) @ '' '' @ cross @ '' |'' @ [lf, lf] @
      ''<details'' @ (if green t then [] else '' open'') @ ''>'' @ [lf] @
      ''<summary><strong>Details '' @ dash @ '' '' @ itoa (to_tests t) @ '' tests in '' @ ci_fmt e 2 elapsed @
      ''s</strong></summary>'' @ [lf, lf])"

definition closer :: string where "closer = ''</details>'' @ [lf]"

definition render_report :: "ci_env \<Rightarrow> string \<Rightarrow> string \<Rightarrow> string \<Rightarrow> bool \<Rightarrow> string" where
  "render_report e title label junitPath full =
     (case ci_read e junitPath of
        None \<Rightarrow> noResults title (''Test runner produced no JUnit XML '' @ dash @ '' see the run log for the underlying error.'')
      | Some data \<Rightarrow>
          (case parse_report e data of
             Inl err \<Rightarrow> noResults title (''Could not parse '' @ junitPath @ '': '' @ err)
           | Inr (suites, rootTime) \<Rightarrow>
               let t = foldl (add_suite e) totals0 suites;
                   b = report_head e title label t rootTime;
                   b = (if full then writeFullTable e b (to_cases t) (maxCommentBytes - int (length b) - int (length closer))
                        else writeCompactBody b (to_cases t) (to_tests t)) in
               b @ closer))"

text \<open>\<open>main\<close> over the parsed flags: what it prints on its error output, its exit code, and the file it asks to write.\<close>

record ci_flags =
  fl_junit :: string
  fl_title :: string
  fl_label :: string
  fl_output :: string
  fl_full :: bool

definition comment_main :: "ci_env \<Rightarrow> ci_flags \<Rightarrow> string \<times> nat \<times> (string \<times> string) option" where
  "comment_main e f =
     (if fl_junit f = [] \<or> fl_output f = [] then (''build-test-comment: -junit and -output are required'' @ [lf], 2, None)
      else
        let row = (if fl_label f = [] then fl_title f else fl_label f);
            md = render_report e (fl_title f) row (fl_junit f) (fl_full f) in
        case ci_write e (fl_output f) md of
          None \<Rightarrow> ([], 0, Some (fl_output f, md))
        | Some err \<Rightarrow> (''build-test-comment: writing '' @ fl_output f @ '': '' @ err @ [lf], 1, Some (fl_output f, md)))"


section \<open>Rows and notes\<close>

lemma fullRow_length: "0 < length (fullRow e tc r)"
  by (simp add: fullRow_def)

lemma passed_row_length: "0 < length (passed_row e tc)"
  using fullRow_length by (simp only: passed_row_def)

lemma nat_digits_mono: "m \<le> n \<Longrightarrow> length (nat_digits m) \<le> length (nat_digits n)"
proof (induction n arbitrary: m rule: nat_digits.induct)
  case (1 n)
  show ?case
  proof (cases "n < 10")
    case True
    then show ?thesis using "1.prems" by (simp add: nat_digits.simps [of m] nat_digits.simps [of n])
  next
    case False
    have "length (nat_digits (m div 10)) \<le> length (nat_digits (n div 10))"
      using "1.IH" [OF False] "1.prems" by (simp add: div_le_mono)
    then show ?thesis
      using False by (cases "m < 10") (simp_all add: nat_digits.simps [of m] nat_digits.simps [of n])
  qed
qed

lemma omissionNote_mono: "m \<le> n \<Longrightarrow> length (omissionNote m) \<le> length (omissionNote n)"
  using nat_digits_mono by (simp add: omissionNote_def itoa_def)

text \<open>The loop keeps a prefix of the passed cases, whose rows fit.\<close>

lemma passed_rows_prefix:
  "\<exists>k\<le>length tcs. passed_rows e remaining reserve b included tcs =
     (b @ concat (map (passed_row e) (take k tcs)), included + length (concat (map (passed_row e) (take k tcs)))) \<and>
     (0 < k \<longrightarrow> int (included + length (concat (map (passed_row e) (take k tcs)))) + reserve \<le> remaining) \<and>
     (k < length tcs \<longrightarrow>
        remaining < int (included + length (concat (map (passed_row e) (take (Suc k) tcs)))) + reserve)"
    (is "\<exists>k\<le>length tcs. ?P k b included tcs")
proof (induction tcs arbitrary: b included)
  case (Cons tc tcs)
  let ?r = "passed_row e tc"
  show ?case
  proof (cases "int included + int (length ?r) + reserve > remaining")
    case True
    then have "?P 0 b included (tc # tcs)" by (simp add: Let_def)
    then show ?thesis by blast
  next
    case False
    obtain k where k: "k \<le> length tcs" "?P k (b @ ?r) (included + length ?r) tcs"
      using Cons.IH [of "b @ ?r" "included + length ?r"] by blast
    have "?P (Suc k) b included (tc # tcs)"
      using False k by (cases k) (simp_all add: Let_def add.assoc)
    then show ?thesis using k(1) by (metis Suc_le_mono length_Cons)
  qed
qed simp

lemma countRows_from_exact:
  "k \<le> length tcs \<Longrightarrow> countRows_from e (used + length (concat (map (passed_row e) (take k tcs)))) used n tcs = n + k"
proof (induction tcs arbitrary: k used n)
  case (Cons tc tcs)
  show ?case
  proof (cases k)
    case 0
    then show ?thesis using passed_row_length [of e tc] by (simp add: Let_def)
  next
    case (Suc j)
    then show ?thesis
      using Cons.IH [of j "used + length (passed_row e tc)" "n + 1"] Cons.prems by (simp add: Let_def add.assoc)
  qed
qed simp

lemma countRows_exact:
  "k \<le> length tcs \<Longrightarrow> countRows e tcs (length (concat (map (passed_row e) (take k tcs)))) = k"
  using countRows_from_exact [of k tcs e 0 0] by (simp add: countRows_def)

text \<open>The rows that are never dropped.\<close>

definition kept_rows :: "ci_env \<Rightarrow> testcase list \<Rightarrow> string" where
  "kept_rows e cases =
     table_head @ concat (map (failed_row e) (failedCases cases)) @ concat (map (skipped_row e) (skippedCases cases))"

lemma writeFullTable_shape:
  "\<exists>k\<le>length (passedCases cases).
     writeFullTable e b cases budget = b @ kept_rows e cases @ concat (map (passed_row e) (take k (passedCases cases))) @
       (if k < length (passedCases cases) then omissionNote (length (passedCases cases) - k) else []) \<and>
     (0 < k \<longrightarrow> int (length (b @ kept_rows e cases @ concat (map (passed_row e) (take k (passedCases cases))))) +
        int (length (omissionNote (length (passedCases cases)))) \<le> budget)"
proof -
  let ?p = "passedCases cases" and ?b = "b @ kept_rows e cases"
  let ?n = "int (length (omissionNote (length ?p)))"
  obtain k where k: "k \<le> length ?p"
    "passed_rows e (budget - int (length ?b)) ?n ?b 0 ?p =
      (?b @ concat (map (passed_row e) (take k ?p)), length (concat (map (passed_row e) (take k ?p))))"
    "0 < k \<Longrightarrow> int (length (concat (map (passed_row e) (take k ?p)))) + ?n \<le> budget - int (length ?b)"
    using passed_rows_prefix [of ?p e "budget - int (length ?b)" ?n ?b 0] by auto
  have "writeFullTable e b cases budget = ?b @ concat (map (passed_row e) (take k ?p)) @
       (if k < length ?p then omissionNote (length ?p - k) else [])"
    using k(2) countRows_exact [OF k(1), of e] k(1)
    unfolding writeFullTable_def Let_def kept_rows_def by (auto simp: split_beta)
  then show ?thesis using k(1,3) by (intro exI [of _ k]) auto
qed

text \<open>
  C39 (bounds).  The full report shows, after its summary, a row for every failed and every skipped test, then the
  passed tests up to some point, and says exactly how many it leaves out.  It is within the limit of a comment
  whenever the rows that are never dropped leave room for the note; and a report that shows a passed test stays below
  the limit by the length of its summary, which the code subtracts from the budget twice.
\<close>

theorem full_report_fits:
  assumes "ci_read e path = Some data" and "parse_report e data = Inr (suites, root)"
  shows "let t = foldl (add_suite e) totals0 suites; h = report_head e title label t root; cs = to_cases t;
             p = passedCases cs; r = render_report e title label path True in
     \<exists>k\<le>length p.
       r = h @ kept_rows e cs @ concat (map (passed_row e) (take k p)) @
           (if k < length p then omissionNote (length p - k) else []) @ closer \<and>
       (length (h @ kept_rows e cs @ omissionNote (length p) @ closer) \<le> 65536 \<longrightarrow> length r \<le> 65536) \<and>
       (0 < k \<longrightarrow> length r + length h \<le> 65536)"
proof -
  define t h bud where "t = foldl (add_suite e) totals0 suites" and "h = report_head e title label t root" and
    "bud = maxCommentBytes - int (length h) - int (length closer)"
  let ?p = "passedCases (to_cases t)" and ?r = "render_report e title label path True"
  obtain k where k: "k \<le> length ?p"
    "writeFullTable e h (to_cases t) bud = h @ kept_rows e (to_cases t) @ concat (map (passed_row e) (take k ?p)) @
       (if k < length ?p then omissionNote (length ?p - k) else [])"
    "0 < k \<Longrightarrow> int (length (h @ kept_rows e (to_cases t) @ concat (map (passed_row e) (take k ?p)))) +
       int (length (omissionNote (length ?p))) \<le> bud"
    using writeFullTable_shape [of "to_cases t" e h bud] by blast
  have r: "?r = writeFullTable e h (to_cases t) bud @ closer"
    using assms by (simp add: render_report_def t_def h_def bud_def Let_def)
  have short: "length (omissionNote (length ?p - k)) \<le> length (omissionNote (length ?p))"
    by (rule omissionNote_mono) simp
  have len: "length ?r = length h + length (kept_rows e (to_cases t)) +
      length (concat (map (passed_row e) (take k ?p))) +
      (if k < length ?p then length (omissionNote (length ?p - k)) else 0) + length closer"
    by (simp add: r k(2))
  have "0 < k \<longrightarrow> length ?r + length h \<le> 65536"
    using k(3) short unfolding len bud_def maxCommentBytes_def by auto
  moreover have "length ?r \<le> 65536"
    if "length (h @ kept_rows e (to_cases t) @ omissionNote (length ?p) @ closer) \<le> 65536"
    using that short calculation unfolding len by (cases "k = 0") auto
  ultimately show ?thesis
    using k(1,2) by (auto simp: Let_def r t_def [symmetric] h_def [symmetric] intro!: exI [of _ k])
qed

text \<open>A suite with a failed test, a skipped test and a passed one.\<close>

definition ok_case :: testcase where
  "ok_case = \<lparr>tc_Name = ''TestA'', tc_Classname = ''github.com/kahiteam/kahi/e2e'', tc_Time = 0, tc_Failure = None, tc_Error = None,
     tc_Skipped = None\<rparr>"

definition sample_suite :: testsuite where
  "sample_suite = \<lparr>ts_Name = ''e2e'', ts_Tests = 3, ts_Failures = 1, ts_Errors = 0, ts_Skipped = 1, ts_Time = 0,
     ts_Cases = [ok_case,
       ok_case\<lparr>tc_Name := ''TestB'', tc_Failure := Some \<lparr>pb_Message = ''boom'', pb_Body = []\<rparr>\<rparr>,
       ok_case\<lparr>tc_Name := ''TestC'', tc_Skipped := Some \<lparr>sk_Message = []\<rparr>\<rparr>]\<rparr>"

definition sample_ci :: ci_env where
  "sample_ci = \<lparr>ci_read = (\<lambda>_. Some []), ci_multi = (\<lambda>_. Some \<lparr>tss_Time = 0, tss_Suites = [sample_suite]\<rparr>),
     ci_single = (\<lambda>_. Inl ''EOF''), ci_add = (\<lambda>x y. x + y), ci_fmt = (\<lambda>_ _. ''0.0''), ci_write = (\<lambda>_ _. None)\<rparr>"

lemma sample_parse: "parse_report sample_ci [] = Inr ([sample_suite], 0)"
  by (simp add: parse_report_def sample_ci_def)

lemma sample_rows:
  "kept_rows sample_ci (to_cases (foldl (add_suite sample_ci) totals0 [sample_suite])) =
     table_head @ ''| '' @ [tick] @ ''e2e.TestB'' @ [tick] @ '' | '' @ cross @ '' Failed | 0.0s |'' @ [lf] @
     ''| '' @ [tick] @ ''e2e.TestC'' @ [tick] @ '' | '' @ warn_sign @ '' Skipped | 0.0s |'' @ [lf]"
  by code_simp

theorem full_report_fits_witness:
  "length (render_report sample_ci ''E2E'' ''e2e'' ''r.xml'' True) \<le> 65536"
proof -
  have r: "ci_read sample_ci ''r.xml'' = Some []" by (simp add: sample_ci_def)
  have s: "length (report_head sample_ci ''E2E'' ''e2e'' (foldl (add_suite sample_ci) totals0 [sample_suite]) 0 @
      kept_rows sample_ci (to_cases (foldl (add_suite sample_ci) totals0 [sample_suite])) @
      omissionNote (length (passedCases (to_cases (foldl (add_suite sample_ci) totals0 [sample_suite])))) @ closer) \<le> 1000"
    by code_simp
  show ?thesis
    using full_report_fits [OF r sample_parse, of "''E2E''" "''e2e''"] s unfolding Let_def by fastforce
qed

section \<open>Names in a table\<close>

text \<open>
  The lengths of the maximal runs of backticks: a code span that opens with a run of \<open>n\<close> ends at the next run of
  exactly \<open>n\<close>.
\<close>

fun tick_runs :: "nat \<Rightarrow> string \<Rightarrow> nat list" where
  "tick_runs run [] = (if run = 0 then [] else [run])"
| "tick_runs run (c # cs) =
     (if c = tick then tick_runs (run + 1) cs else (if run = 0 then [] else [run]) @ tick_runs 0 cs)"

lemma longest_run_ge: "longest \<le> longest_run longest run s"
  by (induction longest run s rule: longest_run.induct) (auto split: if_splits)

lemma tick_runs_bounded:
  "n \<in> set (tick_runs run s) \<Longrightarrow> run \<le> longest \<Longrightarrow> n \<le> longest_run longest run s"
proof (induction longest run s rule: longest_run.induct)
  case (2 longest run c cs)
  then show ?case using longest_run_ge [of longest 0 cs] by (auto split: if_splits)
qed (auto split: if_splits)

lemma longest_run_0: "longest_run longest run s = 0 \<Longrightarrow> longest = 0 \<and> tick \<notin> set s"
  by (induction longest run s rule: longest_run.induct) (auto split: if_splits)

text \<open>The line breaks are gone and every bar has its backslash.\<close>

fun bars_escaped :: "bool \<Rightarrow> string \<Rightarrow> bool" where
  "bars_escaped esc [] = True"
| "bars_escaped esc (c # cs) \<longleftrightarrow> (c = CHR ''|'' \<longrightarrow> esc) \<and> bars_escaped (c = CHR 0x5C) cs"

lemma replace_one: "replace_all [c] new s = concat (map (\<lambda>x. if x = c then new else [x]) s)"
  by (induction s) (auto simp: has_prefix_def)

lemma cell_text_lines: "lf \<notin> set (cell_text s)" "CHR 0x0D \<notin> set (cell_text s)"
  by (auto simp: cell_text_def Let_def replace_one lf_def split: if_splits)

lemma bars_escaped_replaced:
  "bars_escaped esc (concat (map (\<lambda>x. if x = CHR ''|'' then [CHR 0x5C, CHR ''|''] else [x]) s))"
  by (induction s arbitrary: esc) auto

lemma cell_text_bars: "bars_escaped esc (cell_text s)"
  using bars_escaped_replaced by (simp only: cell_text_def Let_def replace_one)

lemma replace_all_not_Nil: "s \<noteq> [] \<Longrightarrow> new \<noteq> [] \<Longrightarrow> replace_all old new s \<noteq> []"
  by (cases s) auto

lemma cell_text_not_Nil: "s \<noteq> [] \<Longrightarrow> cell_text s \<noteq> []"
  by (simp add: cell_text_def Let_def replace_all_not_Nil)

lemma bars_escaped_append:
  "bars_escaped esc s \<Longrightarrow> CHR ''|'' \<notin> set t \<Longrightarrow> bars_escaped esc (s @ t)"
proof (induction esc s rule: bars_escaped.induct)
  case (1 esc)
  then show ?case by (induction t arbitrary: esc) auto
qed auto

lemma bars_escaped_prepend: "CHR ''|'' \<notin> set t \<Longrightarrow> (\<And>esc. bars_escaped esc s) \<Longrightarrow> bars_escaped esc (t @ s)"
  by (induction t arbitrary: esc) auto

lemma tick_runs_snoc_space: "tick_runs run (s @ '' '') = tick_runs run s"
  by (induction run s rule: tick_runs.induct) (auto simp: tick_def)

lemma tick_runs_free: "tick \<notin> set s \<Longrightarrow> tick_runs 0 s = []"
  by (induction s) auto

text \<open>
  A test name cannot break the table it is printed in.  The cell is one code span: its fence is longer
  than every run of backticks inside, the text inside neither begins nor ends with one, there is no line break, and
  every bar has a backslash before it.  The empty name is the exception: its two backticks are no span.
\<close>

theorem cell_is_one_code_span:
  assumes "s \<noteq> []"
  shows "\<exists>n body. 0 < n \<and> cell s = replicate n tick @ body @ replicate n tick \<and>
     (body = cell_text s \<or> body = '' '' @ cell_text s @ '' '') \<and>
     list_all (\<lambda>run. run < n) (tick_runs 0 body) \<and> hd body \<noteq> tick \<and> last body \<noteq> tick"
    and "lf \<notin> set (cell s)" and "CHR 0x0D \<notin> set (cell s)" and "bars_escaped False (cell s)"
proof -
  let ?t = "cell_text s" and ?l = "longest_run 0 0 (cell_text s)"
  have ne: "?t \<noteq> []" by (rule cell_text_not_Nil [OF assms])
  have nobar: "CHR ''|'' \<notin> set (replicate k tick)" for k by (simp add: tick_def)
  show "\<exists>n body. 0 < n \<and> cell s = replicate n tick @ body @ replicate n tick \<and>
     (body = cell_text s \<or> body = '' '' @ cell_text s @ '' '') \<and>
     list_all (\<lambda>run. run < n) (tick_runs 0 body) \<and> hd body \<noteq> tick \<and> last body \<noteq> tick"
  proof (cases "?l = 0")
    case True
    then have "tick \<notin> set ?t" using longest_run_0 by blast
    then have "hd ?t \<noteq> tick" "last ?t \<noteq> tick" "tick_runs 0 ?t = []"
      using ne hd_in_set [OF ne] last_in_set [OF ne] tick_runs_free by metis+
    then show ?thesis
      using True by (intro exI [of _ 1] exI [of _ ?t]) (simp add: cell_def)
  next
    case False
    let ?b = "'' '' @ ?t @ '' ''"
    have "tick_runs 0 ?b = tick_runs 0 ?t" by (simp add: tick_runs_snoc_space) (simp add: tick_def)
    then have "list_all (\<lambda>run. run < ?l + 1) (tick_runs 0 ?b)"
      using tick_runs_bounded [of _ 0 ?t 0] by (auto simp: list_all_iff less_Suc_eq_le)
    then show ?thesis
      using False by (intro exI [of _ "?l + 1"] exI [of _ ?b]) (simp add: cell_def Let_def tick_def)
  qed
  show "lf \<notin> set (cell s)" "CHR 0x0D \<notin> set (cell s)"
    using cell_text_lines [of s] by (auto simp: cell_def Let_def tick_def lf_def)
  have "bars_escaped False (replicate k tick @ (sp @ ?t @ sp) @ replicate k tick)" if "CHR ''|'' \<notin> set sp" for k sp
    using that nobar by (intro bars_escaped_prepend bars_escaped_append cell_text_bars) auto
  from this [of "[]" 1] this [of "'' ''" "?l + 1"] show "bars_escaped False (cell s)"
    by (simp add: cell_def Let_def)
qed

theorem cell_is_one_code_span_witness:
  "cell [CHR ''a'', tick, CHR ''|'', lf] = [tick, tick] @ '' a'' @ [tick, CHR 0x5C] @ ''|  '' @ [tick, tick] \<and>
   bars_escaped False (cell [CHR ''a'', tick, CHR ''|'', lf])"
  using cell_is_one_code_span(4) [of "[CHR ''a'', tick, CHR ''|'', lf]"] by code_simp

section \<open>Failures\<close>

lemma truncate_body_id: "length (split_on lf body) \<le> limit \<Longrightarrow> truncate_body body limit = body"
  by (simp add: truncate_body_def)

text \<open>The cut keeps 31 lines, one more than the limit, and a body of 31 lines is as long as before.\<close>

lemma truncate_body_lines:
  assumes "30 < length (split_on lf body)"
  shows "length (split_on lf (truncate_body body 30)) = 31"
proof -
  let ?l = "split_on lf body"
  let ?k = "take 15 ?l @ [''... [truncated] ...''] @ drop (length ?l - 15) ?l"
  have "split_on lf (join [lf] ?k) = ?k"
    by (rule split_on_join) (auto simp: lf_def dest!: in_set_takeD in_set_dropD split_on_parts)
  then show ?thesis using assms by (simp add: truncate_body_def Let_def)
qed

text \<open>The body of a failure is printed as it is, so that a line of three backticks in it closes its block.\<close>

lemma failure_body_closes_its_block:
  "length (filter (\<lambda>l. has_prefix l [tick, tick, tick]) (split_on lf (writeFailure []
     (ok_case\<lparr>tc_Failure := Some \<lparr>pb_Message = [], pb_Body = ''a'' @ [lf, tick, tick, tick, lf] @ ''b''\<rparr>\<rparr>)))) = 3"
  by code_simp

text \<open>A report with no suite is read as a single empty suite, and counts as a pass.\<close>

definition empty_suite :: testsuite where
  "empty_suite = \<lparr>ts_Name = [], ts_Tests = 0, ts_Failures = 0, ts_Errors = 0, ts_Skipped = 0, ts_Time = 0, ts_Cases = []\<rparr>"

lemma empty_report_passes:
  assumes "ci_multi e data = Some \<lparr>tss_Time = root, tss_Suites = []\<rparr>" and "ci_single e data = Inr empty_suite"
  shows "parse_report e data = Inr ([empty_suite], 0) \<and> green (foldl (add_suite e) totals0 [empty_suite])"
  using assms by (simp add: parse_report_def add_suite_def green_def empty_suite_def totals0_def i64_def)

end
