(* ===== verification/Verified_By.thy ===== *)
theory Verified_By
  imports Kahi_Prelude
begin

text \<open>
  \<open>scripts/verifiedby/main.go\<close>: the check that every feature said to work names the end-to-end tests that show it.
  Reading and decoding the files, globbing and the Go parser are arguments.
\<close>

section \<open>Data\<close>

record feature =
  ft_ID :: string
  ft_Category :: string
  ft_Passes :: bool
  ft_VerifiedBy :: "string list"

datatype kind = Missing | Unknown

record finding =
  fi_Kind :: kind
  fi_ID :: string
  fi_Test :: string

text \<open>A declaration of a parsed file: a function with its name and whether it has a receiver, or something else.\<close>

datatype decl = FuncDecl (fd_recv: bool) (fd_name: string) | OtherDecl

record vb_env =
  vb_features :: "string \<Rightarrow> string + feature list"
  vb_schema :: "string \<Rightarrow> string + string list"
  vb_glob :: "string \<Rightarrow> string + string list"
  vb_parse :: "string \<Rightarrow> string + decl list"
  vb_join :: "string list \<Rightarrow> string"

definition tab :: string where "tab = [CHR 0x09]"

definition kind_name :: "kind \<Rightarrow> string" where
  "kind_name k = (case k of Missing \<Rightarrow> ''missing'' | Unknown \<Rightarrow> ''unknown'')"

text \<open>\<open>finding.String\<close>\<close>

definition finding_String :: "finding \<Rightarrow> string" where
  "finding_String f =
     (if fi_Test f = [] then kind_name (fi_Kind f) @ tab @ fi_ID f
      else kind_name (fi_Kind f) @ tab @ fi_ID f @ tab @ fi_Test f)"

section \<open>The check\<close>

definition missing_finding :: "feature \<Rightarrow> finding list" where
  "missing_finding f =
     (if ft_Passes f \<and> ft_Category f = ''functional'' \<and> ft_VerifiedBy f = []
      then [\<lparr>fi_Kind = Missing, fi_ID = ft_ID f, fi_Test = []\<rparr>] else [])"

fun unknown_findings :: "string list \<Rightarrow> string \<Rightarrow> string list \<Rightarrow> finding list" where
  "unknown_findings tests i [] = []"
| "unknown_findings tests i (n # ns) =
     (if n \<notin> set tests then [\<lparr>fi_Kind = Unknown, fi_ID = i, fi_Test = n\<rparr>] else []) @ unknown_findings tests i ns"

fun evaluate :: "feature list \<Rightarrow> string list \<Rightarrow> finding list" where
  "evaluate [] tests = []"
| "evaluate (f # fs) tests =
     missing_finding f @ unknown_findings tests (ft_ID f) (ft_VerifiedBy f) @ evaluate fs tests"

definition loadFeatures :: "vb_env \<Rightarrow> string \<Rightarrow> string + feature list" where
  "loadFeatures e path =
     (case vb_features e path of
        Inl err \<Rightarrow> Inl err
      | Inr fs \<Rightarrow> if fs = [] then Inl (path @ '': no features'') else Inr fs)"

text \<open>\<open>vb_schema\<close> gives the names of the properties the schema declares for a feature.\<close>

definition schemaDeclaresVerifiedBy :: "vb_env \<Rightarrow> string \<Rightarrow> string option" where
  "schemaDeclaresVerifiedBy e path =
     (case vb_schema e path of
        Inl err \<Rightarrow> Some err
      | Inr ps \<Rightarrow>
          if ''verified_by'' \<in> set ps then None
          else Some (path @ '' does not declare verified_by; restore it (a specforge upgrade may have overwritten the template)''))"

definition isTestName :: "string \<Rightarrow> bool" where
  "isTestName name =
     (if name = ''TestMain'' then False
      else if \<not> has_prefix name ''Test'' then False
      else let rest = drop 4 name in rest = [] \<or> \<not> is_lower (hd rest))"

fun test_decls :: "decl list \<Rightarrow> string list" where
  "test_decls [] = []"
| "test_decls (FuncDecl recv n # ds) = (if \<not> recv \<and> isTestName n then [n] else []) @ test_decls ds"
| "test_decls (OtherDecl # ds) = test_decls ds"

text \<open>The loop over the files; the first file that does not parse ends it.\<close>

fun parse_tests :: "vb_env \<Rightarrow> string list \<Rightarrow> string + string list" where
  "parse_tests e [] = Inr []"
| "parse_tests e (f # fs) =
     (case vb_parse e f of
        Inl err \<Rightarrow> Inl err
      | Inr ds \<Rightarrow> (case parse_tests e fs of Inl err \<Rightarrow> Inl err | Inr ts \<Rightarrow> Inr (test_decls ds @ ts)))"

definition e2eTests :: "vb_env \<Rightarrow> string \<Rightarrow> string + string list" where
  "e2eTests e dir =
     (case vb_glob e (vb_join e [dir, ''*_test.go'']) of
        Inl err \<Rightarrow> Inl err
      | Inr files \<Rightarrow>
          if files = [] then Inl (dir @ '': no test files'')
          else (case parse_tests e (sort_strings files) of
             Inl err \<Rightarrow> Inl err
           | Inr tests \<Rightarrow> if tests = [] then Inl (dir @ '': no test functions'') else Inr tests))"

definition check :: "vb_env \<Rightarrow> string \<Rightarrow> string + finding list" where
  "check e root =
     (case schemaDeclaresVerifiedBy e (vb_join e [root, ''.specify'', ''templates'', ''feature-list-schema.json'']) of
        Some err \<Rightarrow> Inl err
      | None \<Rightarrow>
          (case loadFeatures e (vb_join e [root, ''feature_list.json'']) of
             Inl err \<Rightarrow> Inl err
           | Inr fs \<Rightarrow>
               (case e2eTests e (vb_join e [root, ''e2e'']) of
                  Inl err \<Rightarrow> Inl err
                | Inr tests \<Rightarrow> Inr (evaluate fs tests))))"

text \<open>\<open>main\<close>: the lines it prints, those of its error output, and the exit code.\<close>

definition verifiedby_main :: "vb_env \<Rightarrow> string \<Rightarrow> string list \<times> string list \<times> nat" where
  "verifiedby_main e root =
     (case check e root of
        Inl err \<Rightarrow> ([], [''verifiedby: '' @ err], 1)
      | Inr fs \<Rightarrow> (map finding_String fs, [], 0))"

section \<open>What silence means\<close>

lemma unknown_findings_Nil [simp]: "unknown_findings tests i ns = [] \<longleftrightarrow> set ns \<subseteq> set tests"
  by (induction ns) auto

definition backed :: "string list \<Rightarrow> feature \<Rightarrow> bool" where
  "backed tests f \<longleftrightarrow> set (ft_VerifiedBy f) \<subseteq> set tests \<and>
     (ft_Passes f \<and> ft_Category f = ''functional'' \<longrightarrow> ft_VerifiedBy f \<noteq> [])"

lemma evaluate_Nil: "evaluate fs tests = [] \<longleftrightarrow> list_all (backed tests) fs"
  by (induction fs) (auto simp: backed_def missing_finding_def)

lemma test_decls_set: "set (test_decls ds) = {n. FuncDecl False n \<in> set ds \<and> isTestName n}"
  by (induction ds rule: test_decls.induct) auto

lemma parse_tests_Inl: "f \<in> set files \<Longrightarrow> vb_parse e f = Inl err \<Longrightarrow> \<exists>x. parse_tests e files = Inl x"
  by (induction files) (auto split: sum.splits)

lemma parse_tests_set:
  "parse_tests e files = Inr tests \<Longrightarrow>
     n \<in> set tests \<longleftrightarrow> (\<exists>f\<in>set files. \<exists>ds. vb_parse e f = Inr ds \<and> FuncDecl False n \<in> set ds \<and> isTestName n)"
proof (induction files arbitrary: tests)
  case (Cons f fs)
  then show ?case by (auto simp: test_decls_set split: sum.splits)
qed simp

text \<open>Every finding is one a line of its kind tells apart.\<close>

lemma evaluate_findings:
  "x \<in> set (evaluate fs tests) \<longleftrightarrow>
     (\<exists>f\<in>set fs. fi_ID x = ft_ID f \<and>
        (case fi_Kind x of
           Missing \<Rightarrow> fi_Test x = [] \<and> ft_Passes f \<and> ft_Category f = ''functional'' \<and> ft_VerifiedBy f = []
         | Unknown \<Rightarrow> fi_Test x \<in> set (ft_VerifiedBy f) - set tests))"
proof -
  have unknown: "x \<in> set (unknown_findings tests i ns) \<longleftrightarrow>
      fi_Kind x = Unknown \<and> fi_ID x = i \<and> fi_Test x \<in> set ns - set tests" for i ns
    by (induction ns) (auto simp: finding.splits)
  have missing: "x \<in> set (missing_finding f) \<longleftrightarrow> fi_Kind x = Missing \<and> fi_ID x = ft_ID f \<and> fi_Test x = [] \<and>
      ft_Passes f \<and> ft_Category f = ''functional'' \<and> ft_VerifiedBy f = []" for f
    by (cases x) (auto simp: missing_finding_def)
  show ?thesis
    by (induction fs) (auto simp: unknown missing split: kind.splits)
qed

text \<open>
  The program ends with code 0 and prints nothing exactly when it could read everything and
  the features are backed: each test a feature names is a top-level test function of some file of \<open>e2e\<close>, and a
  functional feature said to pass names at least one.
\<close>

theorem silence_means_backed:
  "verifiedby_main e root = ([], [], 0) \<longleftrightarrow>
     (\<exists>fs tests. schemaDeclaresVerifiedBy e (vb_join e [root, ''.specify'', ''templates'', ''feature-list-schema.json'']) = None \<and>
        loadFeatures e (vb_join e [root, ''feature_list.json'']) = Inr fs \<and> fs \<noteq> [] \<and>
        e2eTests e (vb_join e [root, ''e2e'']) = Inr tests \<and> list_all (backed tests) fs)"
proof -
  have "loadFeatures e p = Inr fs \<Longrightarrow> fs \<noteq> []" for p fs
    by (auto simp: loadFeatures_def split: sum.splits if_splits)
  then show ?thesis
    by (auto simp: verifiedby_main_def check_def evaluate_Nil split: sum.splits option.splits)
qed

lemma e2eTests_set:
  assumes "e2eTests e dir = Inr tests"
  obtains files where "vb_glob e (vb_join e [dir, ''*_test.go'']) = Inr files"
    and "\<And>n. n \<in> set tests \<longleftrightarrow>
       (\<exists>f\<in>set files. \<exists>ds. vb_parse e f = Inr ds \<and> FuncDecl False n \<in> set ds \<and> isTestName n)"
proof -
  obtain files where f: "vb_glob e (vb_join e [dir, ''*_test.go'']) = Inr files"
    "parse_tests e (sort_strings files) = Inr tests"
    using assms by (auto simp: e2eTests_def split: sum.splits if_splits)
  show ?thesis by (rule that [OF f(1)]) (use parse_tests_set [OF f(2)] in simp)
qed

text \<open>A method, a helper and \<open>TestMain\<close> are no tests; \<open>Test1\<close> and \<open>Test_x\<close> are.\<close>

lemma test_names:
  "map isTestName [''TestMain'', ''Test'', ''Testing'', ''Test1'', ''Test_x'', ''TestA'', ''helper''] =
     [False, True, False, True, True, True, False]"
  by code_simp

lemma is_test_name_spelling:
  "isTestName n \<longleftrightarrow> n \<noteq> ''TestMain'' \<and> (\<exists>rest. n = ''Test'' @ rest \<and> (\<forall>c cs. rest = c # cs \<longrightarrow> \<not> is_lower c))"
  by (auto simp: isTestName_def has_prefix_prefix prefix_def Let_def neq_Nil_conv)

end
