(* ===== verification/Spec2Isabelle.thy ===== *)
theory Spec2Isabelle
  imports Ctl_Safety Api_Listener Umask_Section Signal_Queue Event_Listener Webhook Migrate_Safety Daemon_Log Metrics Web_Ui Log_Open
    Spawn_Exec Background Cli_Commands Json_Line Test_Comment Verified_By
begin

text \<open>
  A verification library for kahi, a process supervisor: a daemon that starts programs from a TOML
  configuration, restarts them by policy, captures and rotates their output, stops them in order, and is
  controlled over an HTTP API on a Unix socket or TCP.  Names of definitions are those of the Go code.

  \<^bold>\<open>The program and its model\<close>

  A configuration file is found, decoded, defaulted, validated, expanded and merged with its includes
  (\<open>internal/config\<close>: theories \<open>Config_Types\<close>, \<open>Config_Validate\<close>,
  \<open>Config_Expand\<close>, \<open>Config_Load\<close>).  The daemon command checks the socket directory and
  the PID file, binds its listeners, drops privileges and runs (\<open>cmd/kahi/daemon.go\<close>,
  \<open>internal/supervisor/daemon.go\<close>, \<open>internal/sockutil\<close>: \<open>Daemon_Start\<close>, and
  \<open>Umask_Section\<close> for binds that run at once),
  in the background when asked to (\<open>cmd/kahi/daemonize.go\<close>: \<open>Background\<close>).  The run
  loop reacts to signals and reaps children (\<open>internal/supervisor/runloop.go\<close>:
  \<open>Supervisor_Model\<close>), which come through a bounded queue (\<open>supervisor.go\<close>: \<open>Signal_Queue\<close>).  The manager holds the processes and groups
  (\<open>internal/process/manager.go\<close>: \<open>Manager_Model\<close>; \<open>bulk.go\<close>,
  \<open>reload.go\<close> and \<open>group.go\<close>: \<open>Manager_Bulk\<close>).  Each process is a state
  machine (\<open>state.go\<close>: \<open>Proc_State\<close>) with a child, its timers and its goroutines
  (\<open>process.go\<close>: \<open>Process_Model\<close>), spawned through a trampoline that applies its
  limits (\<open>childinit.go\<close>, \<open>rlimit.go\<close>, \<open>umask.go\<close>,
  \<open>credential.go\<close>, \<open>spawner.go\<close>: \<open>Spawn_Params\<close>,
  \<open>Spawn_Exec\<close>).  Output goes through escape stripping, line splitting, a ring buffer and a rotated
  file (\<open>internal/logging\<close>: \<open>Ansi_Strip\<close>, \<open>Line_Splitter\<close>,
  \<open>Ring_Buffer\<close>, \<open>Log_Files\<close>, \<open>Log_Capture\<close>; \<open>Log_Open\<close> is
  how a log file is opened, \<open>Json_Line\<close> the line that goes to the daemon's own output) and as events
  over the bus (\<open>internal/events/events.go\<close>:
  \<open>Event_Bus\<close>), which pools of listeners and webhooks may subscribe to (\<open>listener.go\<close>:
  \<open>Event_Listener\<close>; \<open>webhook.go\<close>: \<open>Webhook\<close>).  The API serves all of it
  (\<open>internal/api/api.go\<close>: \<open>Api_Server\<close>, and \<open>Api_Listener\<close> for its two HTTP
  servers, their connections and their stop) and streams logs and events
  (\<open>Log_Stream\<close>) to its client (\<open>internal/ctl/ctl.go\<close>: \<open>Ctl_Client\<close>,
  \<open>Ctl_Status\<close>), which the commands of \<open>cmd/kahi/ctl.go\<close> call
  (\<open>Ctl_Commands\<close>).  The web pages (\<open>internal/web/web.go\<close>,
  \<open>cmd/kahi/webui.go\<close>: \<open>Web_Ui\<close>), the daemon's own log
  (\<open>internal/logging/logging.go\<close>: \<open>Daemon_Log\<close>) and the collector of metrics, which
  nothing calls (\<open>internal/metrics/metrics.go\<close>: \<open>Metrics\<close>), stand beside it.  A
  command of its own converts a supervisord configuration (\<open>internal/migrate\<close>,
  \<open>cmd/kahi/migrate.go\<close>: \<open>Migrate\<close>); the other commands that need no daemon, and the
  syslog forwarder, are in \<open>Cli_Commands\<close>.  Two programs of continuous integration are modelled as well: the
  comment with the test results (\<open>.github/scripts/build-test-comment.go\<close>: \<open>Test_Comment\<close>) and the check
  that every feature is backed by a test (\<open>scripts/verifiedby\<close>: \<open>Verified_By\<close>).

  \<^bold>\<open>How state and effects are modelled\<close>

  \<^item> A Go struct is a record, an enumeration a datatype, a map an association list where its order is
    observable, \<open>int\<close> and \<open>time.Duration\<close> integers wrapped to 64 bits where the code computes with them.
  \<^item> An error is a value, and its text is kept where the code inspects it: the API decides the status of
    a response by substrings.
  \<^item> A process carries the list of its goroutines that wait and the list of its effects.  One step is a
    whole critical section, so every interleaving of the goroutines is a run of \<open>pstep\<close>; the unlocked
    read at the end of \<open>watchStart\<close> is three steps.
  \<^item> The operating system, the clock and what other goroutines do during a wait are arguments: \<open>penv\<close> for
    one step of a process, \<open>world\<close> for the polls of a wait, a list of inputs for a \<open>select\<close> loop.  A list
    that ends before the loop does gives \<open>None\<close>: the loop still waits.
  \<^item> The file system is an explicit store of files and handles (\<open>FS\<close>), so that rotation under an open
    handle behaves as it does on disk.
  \<^item> Include resolution takes fuel, the depth of nested files; \<open>includes_terminate\<close> shows how much is
    enough.  Everything else ends by structure or by a measure.
  \<^item> Where links matter, in \<open>Log_Open\<close>, the file system is a tree with symbolic links, and the number of links
    a walk follows is an argument.
  \<^item> What several goroutines do at once outside one process is a step relation of its own: the kernel, the queue and the
    loop in \<open>Signal_Queue\<close>, the calls that share the umask in \<open>Umask_Section\<close>.  The clients of the HTTP servers in
    \<open>Api_Listener\<close> are a schedule of times.

  \<^bold>\<open>Interfaces\<close>

  \<open>pubsub\<close> (\<open>Event_Bus\<close>) is what a client of the bus may rely on, and what tears down listeners and webhooks,
  \<open>tail_store\<close> (\<open>Ring_Buffer\<close>) what the capture needs of the buffer it writes to, and
  \<open>sep_codec\<close> (\<open>Spawn_Params\<close>) the round trip of a list of fields behind a separator,
  used for the resource limits a child receives.  \<open>proc_table\<close> (\<open>Manager_Safety\<close>) is
  what the passes over the processes need of the table that holds them; \<open>manager_inv\<close>
  (\<open>Manager_Reload\<close>) carries an invariant of single processes through every operation of the
  manager, and is interpreted for the processes a reload spares and, in \<open>Manager_Invariant\<close>, for
  the well-formedness \<open>mg_ok\<close> that holds in every reachable manager.

  \<^bold>\<open>What the theorems show\<close>

  \<open>Process_Safety\<close> proves one invariant of every run of a process and takes from it that it has at
  most one child, that a stop is escalated, and that nothing starts a stopped, removed or shut-down process.
  \<open>Manager_Safety\<close>, \<open>Manager_Reload\<close>, \<open>Manager_Invariant\<close> and
  \<open>Manager_Loading\<close> lift this to all processes.  \<open>Supervisor_Safety\<close> shows that exits
  are reaped and that shutdown ends with no child left alive and unkilled.  \<open>Daemon_Safety\<close> is
  about the start, \<open>Api_Safety\<close> about the API, and this theory about the way from a configuration
  to the processes and to the credentials that guard them.  \<open>Event_Listener\<close> and
  \<open>Webhook\<close> prove how events reach their receivers, \<open>Migrate_Safety\<close> what a migration
  keeps and when it succeeds.  \<open>Ctl_Safety\<close> puts the client and the server together: the answers
  are typed, a command at the command line is the operation of the manager, and what the client's timeout and
  its reading of the configuration break.  \<open>Daemon_Log\<close> shows that rotation loses no record,
  \<open>Web_Ui\<close> what a browser may run, \<open>Log_Open\<close> which links a log path is safe against
  and which not, \<open>Spawn_Exec\<close> that a child runs only as configured, \<open>Background\<close>
  that a background start reports the truth, and \<open>Json_Line\<close> that no process forges a line of another.
  \<open>Signal_Queue\<close> shows that the loop with its queue is the loop of \<open>Supervisor_Model\<close>, that no exit is forgotten
  while fewer than sixteen other signals wait, and what is lost when more do; \<open>Api_Listener\<close> that the daemon
  leaves at most five seconds after its loop; \<open>Umask_Section\<close> that concurrent binds are as private as one.
  \<open>Process_Runs\<close> and \<open>Manager_Runs\<close> hold
  the concrete runs that show the hypotheses can be met.  Several theorems prove that the code does what its
  authors did not intend; their text says so.

  \<^bold>\<open>Not modelled\<close>

  The TOML decoder, bcrypt, JSON but for the strings of forwarded lines, XML, \<open>net/http\<close> but for serving and stopping,
  the syslog and command-line libraries, globbing and most path functions are parameters.  Left out are the
  templates of the web pages, the texts of the sample configuration and of the completion scripts, the fork and exec of
  the system, the fallbacks for platforms that no release targets, the mock spawner, and the helpers of the tests.
\<close>

section \<open>From the configuration to the processes\<close>

lemma loaded_names_valid:
  "LoadWithIncludes e fuel path = Some (w, Inr cfg) \<Longrightarrow> validateProcessNames cfg = []"
  by (auto simp: LoadWithIncludes_def Let_def split: sum.splits prod.splits include_result.splits if_splits)

text \<open>
  C6 (functional).  What the daemon runs is what the configuration lists: after a configuration that was
  accepted is loaded, the processes are exactly the instances of its programs, in order and under
  pairwise distinct names, each STOPPED, without a child, and in the group of its program.
\<close>

theorem loaded_config_runs_what_it_lists:
  assumes "LoadWithIncludes e fuel path = Some (w, Inr cfg)" and "distinct (map fst (cf_Programs cfg))"
  shows "let ps = mg_processes (LoadConfig os cfg (NewManager fs)) in
     map fst ps = concat (map (\<lambda>(prog, p). InstanceNames prog p) (cf_Programs cfg)) \<and> distinct (map fst ps) \<and>
     (\<forall>(n, p)\<in>set ps. pr_name p = n \<and> pr_state p = Stopped \<and> pr_spawned p = None \<and>
        (\<exists>cf. (pr_group p, cf) \<in> set (cf_Programs cfg) \<and> n \<in> set (InstanceNames (pr_group p) cf)))"
proof -
  let ?is = "config_instances (cf_Programs cfg)"
  have d: "distinct (map pi_Name ?is)" by (rule validated_names_list [OF loaded_names_valid [OF assms(1)] assms(2)])
  note ps = LoadConfig_processes [OF d, of os fs]
  have names: "map fst (map (loaded_process False) ?is) = map pi_Name ?is" by (simp add: loaded_process_def)
  have "pi_Name i \<in> set (InstanceNames (pi_Group i) cf) \<and> pi_Group i = prog"
    if "(prog, cf) \<in> set (cf_Programs cfg)" "i \<in> set (ExpandNumprocs prog cf)" for i prog cf
    using that(2) ExpandNumprocs_names [of prog cf] ExpandNumprocs_group by (metis image_eqI set_map)
  then have "\<exists>cf. (pi_Group i, cf) \<in> set (cf_Programs cfg) \<and> pi_Name i \<in> set (InstanceNames (pi_Group i) cf)"
    if "i \<in> set ?is" for i
    using that unfolding config_instances_def by fastforce
  then have "\<forall>(n, p)\<in>set (map (loaded_process False) ?is). pr_name p = n \<and> pr_state p = Stopped \<and> pr_spawned p = None \<and>
      (\<exists>cf. (pr_group p, cf) \<in> set (cf_Programs cfg) \<and> n \<in> set (InstanceNames (pr_group p) cf))"
    by (simp add: loaded_process_def NewProcess_def NewStateMachine_def)
  then show ?thesis
    unfolding ps Let_def names config_instances_names [symmetric] using d by blast
qed

text \<open>A configuration file with one program.\<close>

definition web_file :: cfg_env where
  "web_file = no_files\<lparr>ce_decode := (\<lambda>_. Some (sample_config, (\<lambda>_. False), []))\<rparr>"

definition web_loaded :: Config where
  "web_loaded = bare_config\<lparr>cf_Programs := [(''web'', valid_config)]\<rparr>"

lemma web_loaded_defaults: "ApplyDefaults (\<lambda>_. False) RootSocketPath sample_config = web_loaded"
  by (simp add: web_loaded_def bare_config_def ApplyDefaults_def valid_config_def sample_config_def)

lemma web_loaded_fields:
  "cf_Programs web_loaded = [(''web'', valid_config)]" "cf_Groups web_loaded = []" "cf_Include web_loaded = []"
  "sv_Logfile (cf_Supervisor web_loaded) = []" "sv_Directory (cf_Supervisor web_loaded) = []"
  "ux_File (sc_Unix (cf_Server web_loaded)) = RootSocketPath"
  by (simp_all add: web_loaded_def bare_config_def ApplyDefaults_def sample_config_def default_supervisor_def
      default_unix_def or_default_def)

lemma web_loaded_valid: "Validate (\<lambda>_. None) (\<lambda>_. True) ''linux'' web_loaded = []"
proof -
  have "Validate (\<lambda>_. None) (\<lambda>_. True) ''linux'' web_loaded =
      validate_program ''web'' valid_config @ Validate (\<lambda>_. None) (\<lambda>_. True) ''linux'' bare_config"
    by (simp add: Validate_def Let_def web_loaded_def) (simp add: bare_config_def ApplyDefaults_def)
  then show ?thesis using bare_config_valid valid_config_valid by simp
qed

lemma web_loaded_expands: "ExpandVariables d env p web_loaded = Inr web_loaded"
proof -
  have p: "cf_Server web_loaded = (cf_Server web_loaded)\<lparr>sc_Unix := (sc_Unix (cf_Server web_loaded))\<lparr>ux_File := RootSocketPath\<rparr>\<rparr>"
    using web_loaded_fields(6) by simp
  have "expandString env ctx RootSocketPath = Inr RootSocketPath" "expandString env ctx ''/bin/web -v'' = Inr ''/bin/web -v''"
    for env ctx by (simp_all add: RootSocketPath_def expandString_def has_prefix_def)
  then have "expand_program env ctx ''web'' valid_config = Inr valid_config" for ctx
    by (simp add: expand_program_def Let_def valid_config_def default_program_def sample_program_def zero_program_def
        expandString_def unset_def)
  then show ?thesis
    using p by (simp add: ExpandVariables_def Let_def web_loaded_fields expandString_def has_prefix_def RootSocketPath_def)
qed

lemma web_file_loads: "\<exists>w. LoadWithIncludes web_file 0 ''a'' = Some (w, Inr web_loaded)"
proof -
  have "Load web_file ''a'' = (listenWarnings (\<lambda>_. None) web_loaded, Inr web_loaded)"
    using web_loaded_valid
    by (simp add: Load_def LoadBytes_def web_file_def no_files_def web_loaded_defaults Let_def)
  moreover have "validateGroupReferences web_loaded = []" "validateProcessNames web_loaded = []"
    by (simp_all add: validateGroupReferences_def validateProcessNames_def web_loaded_fields sort_strings_def
        InstanceNames_def web_config_fields)
  ultimately show ?thesis
    using web_loaded_fields(3) web_loaded_expands
    by (simp add: LoadWithIncludes_def Let_def web_file_def no_files_def resolveIncludes_def)
qed

theorem loaded_config_runs_what_it_lists_witness:
  "map fst (mg_processes (LoadConfig open_os web_loaded (NewManager sample_fs))) = [''web'']"
proof -
  obtain w where "LoadWithIncludes web_file 0 ''a'' = Some (w, Inr web_loaded)" using web_file_loads by blast
  from loaded_config_runs_what_it_lists [OF this, of open_os sample_fs] show ?thesis
    by (simp add: Let_def web_loaded_fields InstanceNames_def web_config_fields)
qed

section \<open>From the configuration to the API\<close>

text \<open>
  C1 (safety).  Over TCP only the configured user changes anything: in every state a daemon that listens
  on TCP gets into, a request over TCP that changes the state of the daemon is a POST that no browser
  sent across origins, and it carried the configured user name, which is not empty, and a password that
  matches the configured bcrypt hash.
\<close>

theorem only_the_configured_user_changes_state:
  assumes "daemonRun e fl = Some (t, Inr (Ready s0))" and "BindTCP a \<in> set t" and "serves s0 s"
    and "\<not> isUnixConn rq" and "serve ae rq s = (s', r)" and "s' \<noteq> s"
  shows "rq_method rq = POST \<and> \<not> cross_origin ae rq \<and>
     (\<exists>pass. rq_auth rq = Some (as_user s0, pass) \<and> as_user s0 \<noteq> [] \<and>
        has_prefix (as_pass s0) ''$2'' \<and> ae_bcrypt ae (as_pass s0) pass)"
proof -
  note cred = tcp_has_credentials [OF assms(1,2)] and same = serves_credentials [OF assms(3)]
  have p: "rq_method rq = POST" "\<not> cross_origin ae rq" "authorized ae rq s"
    using changes_need_authorization [OF assms(5,6)] by simp_all
  then obtain pass where "rq_auth rq = Some (as_user s0, pass)" "checkPassword ae pass (as_pass s0)"
    using assms(4) cred(1) same by (auto simp: authorized_def)
  moreover have "as_pass s0 \<noteq> []" using cred(2) by (auto simp: has_prefix_def)
  ultimately show ?thesis using p cred by (simp add: checkPassword_def)
qed

text \<open>A configuration with a TCP listener.\<close>

definition http_server :: HTTPServerConfig where
  "http_server = \<lparr>ht_Enabled = True, ht_Listen = '':9876'', ht_Username = ''admin'', ht_Password = ''$2y$10$abc''\<rparr>"

definition tcp_file :: cfg_env where
  "tcp_file = no_files\<lparr>ce_decode := (\<lambda>_. Some (sample_config\<lparr>cf_Programs := [],
       cf_Server := (cf_Server sample_config)\<lparr>sc_HTTP := http_server\<rparr>\<rparr>, (\<lambda>_. False), [])),
     ce_split_host := (\<lambda>_. Some ([], ''9876''))\<rparr>"

definition tcp_config :: Config where
  "tcp_config = bare_config\<lparr>cf_Server := (cf_Server bare_config)\<lparr>sc_HTTP := http_server\<rparr>\<rparr>"

lemma tcp_file_loads: "\<exists>w. LoadWithIncludes tcp_file 0 ''a'' = Some (w, Inr tcp_config)"
proof -
  have d: "ApplyDefaults (\<lambda>_. False) RootSocketPath (sample_config\<lparr>cf_Programs := [],
      cf_Server := (cf_Server sample_config)\<lparr>sc_HTTP := http_server\<rparr>\<rparr>) = tcp_config"
    by (simp add: tcp_config_def bare_config_def ApplyDefaults_def sample_config_def)
  have b: "cf_Programs tcp_config = []" "cf_Groups tcp_config = []" "cf_Include tcp_config = []"
    "sv_Logfile (cf_Supervisor tcp_config) = []" "sv_Directory (cf_Supervisor tcp_config) = []"
    "ux_File (sc_Unix (cf_Server tcp_config)) = RootSocketPath"
    by (simp_all add: tcp_config_def bare_config_def ApplyDefaults_def sample_config_def default_supervisor_def
        default_unix_def or_default_def)
  have "TrimSpace ''admin'' \<noteq> []" by code_simp
  then have "Validate (\<lambda>_. Some ([], ''9876'')) (\<lambda>_. True) ''linux'' tcp_config = []"
    using bare_config_valid
    by (simp add: Validate_def Let_def tcp_config_def http_server_def validateListen_def has_prefix_def)
  then have "Load tcp_file ''a'' = (listenWarnings (\<lambda>_. Some ([], ''9876'')) tcp_config, Inr tcp_config)"
    by (simp add: Load_def LoadBytes_def tcp_file_def no_files_def d Let_def)
  moreover have "ExpandVariables d env p tcp_config = Inr tcp_config" for d env p
  proof -
    have "expandString env ctx RootSocketPath = Inr RootSocketPath" for env ctx
      by (simp add: RootSocketPath_def expandString_def has_prefix_def)
    then show ?thesis by (simp add: ExpandVariables_def Let_def b expandString_def)
  qed
  ultimately show ?thesis
    by (simp add: LoadWithIncludes_def Let_def tcp_file_def no_files_def resolveIncludes_def b
        validateGroupReferences_def validateProcessNames_def sort_strings_def)
qed

lemma tcp_run:
  "\<exists>t s. daemonRun (calm_system\<lparr>se_cfg := tcp_file\<rparr>) (run_flags\<lparr>fl_user := []\<rparr>) = Some (t, Inr (Ready s)) \<and>
     BindTCP '':9876'' \<in> set t \<and> as_user s = ''admin'' \<and> as_pass s = ''$2y$10$abc''"
proof -
  let ?e = "calm_system\<lparr>se_cfg := tcp_file\<rparr>" and ?fl = "run_flags\<lparr>fl_user := []\<rparr>"
  obtain w where l: "LoadWithIncludes tcp_file 0 ''a'' = Some (w, Inr tcp_config)" using tcp_file_loads by blast
  have d: "ResolveDaemon (\<lambda>_. True) [] ''a'' = Inr ''a''" by (simp add: ResolveDaemon_def resolve_def)
  have h: "sc_HTTP (cf_Server tcp_config) = http_server" by (simp add: tcp_config_def)
  have f: "ux_File (sc_Unix (cf_Server tcp_config)) = RootSocketPath"
    by (simp add: tcp_config_def bare_config_def ApplyDefaults_def sample_config_def default_unix_def or_default_def)
  have "PrivateSocketDir ?e \<noteq> ''/''"
    by (simp add: PrivateSocketDir_def calm_system_def privateSocketDir_def tcp_file_def no_files_def path_join_def)
  then have "\<exists>t s. start_configured ?e ?fl tcp_config = (t @ [BindTCP '':9876''], Inr (Ready s))"
    by (simp add: start_configured_def Let_def calm_system_def run_flags_def f RootSocketPath_def
        ValidateSocketPermissions_def tcp_file_def no_files_def effect_def skip_def RootWarning_def CheckPIDFile_def
        StartUnix_def removeStaleSocket_def ListenUnix_def h DropPrivileges_def StartTCP_def NewServer_def http_server_def)
  then obtain t s where st: "start_configured ?e ?fl tcp_config = (t @ [BindTCP '':9876''], Inr (Ready s))" by blast
  then have "as_user s = ''admin''" "as_pass s = ''$2y$10$abc''"
    using ready_server [of ?e ?fl tcp_config s] h by (simp_all add: http_server_def)
  moreover have "daemonRun ?e ?fl = Some (map Warning w @ t @ [BindTCP '':9876''], Inr (Ready s))"
    using l d st by (simp add: daemonRun_def calm_system_def run_flags_def)
  ultimately show ?thesis by auto
qed

theorem only_the_configured_user_changes_state_witness:
  "let rq = tcp_request POST [''api'', ''v1'', ''shutdown''] (Some (''admin'', ''secret''));
       ae = sample_env\<lparr>ae_bcrypt := (\<lambda>h p. p = ''secret'')\<rparr>
    in \<exists>s. fst (serve ae rq s) \<noteq> s \<and> rq_auth rq = Some (as_user s, ''secret'')"
proof -
  let ?rq = "tcp_request POST [''api'', ''v1'', ''shutdown''] (Some (''admin'', ''secret''))"
  let ?ae = "sample_env\<lparr>ae_bcrypt := (\<lambda>h p. p = ''secret'')\<rparr>"
  obtain t s where r: "daemonRun (calm_system\<lparr>se_cfg := tcp_file\<rparr>) (run_flags\<lparr>fl_user := []\<rparr>) = Some (t, Inr (Ready s))"
    and b: "BindTCP '':9876'' \<in> set t" and c: "as_user s = ''admin''" "as_pass s = ''$2y$10$abc''"
    using tcp_run by blast
  let ?s = "s\<lparr>as_sup := daemon web0, as_bulk := False\<rparr>"
  have sv: "serves s ?s" by (rule serves_daemon [OF serves_refl])
  have "\<not> su_shutting (as_sup ?s)" by (simp add: daemon_def New_def)
  moreover have "su_shutting (as_sup (fst (serve ?ae ?rq ?s)))"
    by (simp add: serve_def cross_origin_def tcp_request_def mux_find_def buildMux_def v1_route_def is_open_def
        requireAuth_def isUnixConn_def c checkPassword_def handleShutdown_def Shutdown_def)
  ultimately have ne: "fst (serve ?ae ?rq ?s) \<noteq> ?s" by metis
  have "\<not> isUnixConn ?rq" by (simp add: isUnixConn_def tcp_request_def)
  from only_the_configured_user_changes_state [OF r b sv this, OF surjective_pairing ne]
  have "rq_auth ?rq = Some (as_user ?s, ''secret'')" by (simp add: tcp_request_def)
  then show ?thesis unfolding Let_def using ne by (intro exI [of _ ?s] conjI)
qed

end
